(* ===== verification/UV_Prelude.thy ===== *)
theory UV_Prelude
  imports Main "HOL-Library.Word"
begin

text \<open>
  The prelude: what every other theory of the development shares.

  It fixes how Go is read in HOL. Fixed-width integers are words (a Go \<open>int\<close> has 64 bits, as on
  the amd64 target of the Dockerfile), a Go string is a sequence of bytes and is written as a
  \<^typ>\<open>string\<close>, whose characters are bytes. A call that can fail or panic returns a value of
  type \<open>res\<close>, so that every early return and every run-time panic of the source is a branch of
  the model. A reader is threaded through as state. The standard library functions the program
  relies on (\<open>strings.Split\<close>, \<open>strings.ToLower\<close>, \<open>time.Since\<close>) are written out here.
\<close>

unbundle bit_operations_syntax

named_theorems res_simps \<open>rewriting of chained calls\<close>

section \<open>Machine integers and bytes\<close>

type_synonym byte = "8 word"
type_synonym go_int = "64 word"
type_synonym go_int16 = "16 word"

section \<open>Errors, panics and results\<close>

text \<open>
  The error values the program creates or tests for. \<open>ErrReadBody e\<close> is the error
  \<open>fmt.Errorf("reading the content of the packet failed: %v", err)\<close>: the verb is \<open>%v\<close> and not
  \<open>%w\<close>, so \<open>errors.Is\<close> does not look through it.
\<close>

datatype go_error =
    ErrEOF
  | ErrUnexpectedEOF
  | ErrDeadlineExceeded
  | ErrNetClosed
  | ErrNotExist
  | ErrNoProgress
  | ErrVarIntSize
  | ErrInvalidPacketID
  | ErrPacketTooShort
  | ErrReadBody go_error
  | ErrClientToSlow
  | ErrClientClosedConn
  | ErrNoServerFound
  | ErrNoServerConn
  | ErrNotValidHandshake
  | ErrOverConnRateLimit
  | ErrStatusPing
  | ErrNoConfigFiles
  | ErrOther string

text \<open>
  A result: the value of a call that returned a nil error, the error it returned, or a panic,
  which unwinds the goroutine and, as nothing in the program recovers, ends the process.
\<close>

datatype 'a res = Ok 'a | Err go_error | Panic

primrec res_bind :: "'a res \<Rightarrow> ('a \<Rightarrow> 'b res) \<Rightarrow> 'b res" where
  "res_bind (Ok a) k = k a"
| "res_bind (Err e) k = Err e"
| "res_bind Panic k = Panic"

definition is_ok :: "'a res \<Rightarrow> bool" where
  "is_ok x = (case x of Ok _ \<Rightarrow> True | _ \<Rightarrow> False)"

text \<open>Sequencing for calls that consume a reader (or any other state).\<close>

fun and_then :: "'a res \<times> 'r \<Rightarrow> ('a \<Rightarrow> 'r \<Rightarrow> 'b res \<times> 'r) \<Rightarrow> 'b res \<times> 'r" where
  "and_then (Ok a, r) k = k a r"
| "and_then (Err e, r) k = (Err e, r)"
| "and_then (Panic, r) k = (Panic, r)"

lemma and_then_Ok_iff:
  "and_then m k = (Ok b, r) \<longleftrightarrow> (\<exists>a s. m = (Ok a, s) \<and> k a s = (Ok b, r))"
  by (cases "(m, k)" rule: and_then.cases) auto

lemma and_then_assoc:
  "and_then (and_then m k) h = and_then m (\<lambda>a r. and_then (k a r) h)"
  by (cases "(m, k)" rule: and_then.cases) auto

lemma and_then_split:
  "P (and_then m k) \<longleftrightarrow>
    (\<forall>a r. m = (Ok a, r) \<longrightarrow> P (k a r)) \<and>
    (\<forall>e r. m = (Err e, r) \<longrightarrow> P (Err e, r)) \<and>
    (\<forall>r. m = (Panic, r) \<longrightarrow> P (Panic, r))"
  by (cases "(m, k)" rule: and_then.cases) auto

lemma res_bind_Ok_iff: "res_bind m k = Ok b \<longleftrightarrow> (\<exists>a. m = Ok a \<and> k a = Ok b)"
  by (cases m) auto

lemma and_then_Panic_iff:
  "and_then m k = (Panic, r) \<longleftrightarrow> m = (Panic, r) \<or> (\<exists>a s. m = (Ok a, s) \<and> k a s = (Panic, r))"
  by (cases "(m, k)" rule: and_then.cases) auto

lemma res_bind_Panic_iff: "res_bind m k = Panic \<longleftrightarrow> m = Panic \<or> (\<exists>a. m = Ok a \<and> k a = Panic)"
  by (cases m) auto

lemma fst_Panic_iff: "fst p = Panic \<longleftrightarrow> (\<exists>r. p = (Panic, r))"
  by (cases p) auto

declare and_then.simps [res_simps] res_bind.simps [res_simps]

section \<open>Strings and bytes\<close>

text \<open>\<open>[]byte(s)\<close> and \<open>string(bb)\<close>: the conversions copy the bytes.\<close>

definition str_bytes :: "string \<Rightarrow> byte list" where
  "str_bytes s = map (\<lambda>c. word_of_nat (of_char c)) s"

definition bytes_str :: "byte list \<Rightarrow> string" where
  "bytes_str bb = map (\<lambda>b. char_of (unat b)) bb"

lemma length_str_bytes [simp]: "length (str_bytes s) = length s"
  by (simp add: str_bytes_def)

lemma length_bytes_str [simp]: "length (bytes_str bb) = length bb"
  by (simp add: bytes_str_def)

lemma unat_byte_of_char: "unat (word_of_nat (of_char c) :: byte) = of_char c"
proof -
  have "of_char c < (2 ^ 8 :: nat)" using nat_of_char_less_256 [of c] by simp
  then show ?thesis by (simp add: unat_of_nat)
qed

lemma bytes_str_bytes [simp]: "bytes_str (str_bytes s) = s"
  by (simp add: bytes_str_def str_bytes_def unat_byte_of_char comp_def)

lemma str_bytes_str [simp]: "str_bytes (bytes_str bb) = bb"
proof -
  have "word_of_nat (of_char (char_of (unat b) :: char)) = (b :: byte)" for b :: byte
  proof -
    have "unat b < 256" using unsigned_less [of b, where ?'a = nat] by simp
    then show ?thesis by simp
  qed
  then show ?thesis by (simp add: bytes_str_def str_bytes_def comp_def map_idI)
qed

lemma str_bytes_inject [simp]: "str_bytes s = str_bytes t \<longleftrightarrow> s = t"
  by (metis bytes_str_bytes)

lemma str_bytes_append [simp]: "str_bytes (s @ t) = str_bytes s @ str_bytes t"
  by (simp add: str_bytes_def)

text \<open>
  \<open>strings.ToLower\<close>: a string of ASCII bytes is lowered byte by byte; a string with a byte of
  0x80 or more goes through the Unicode tables, which are the parameter \<open>uni\<close>.
\<close>

definition is_ascii :: "char \<Rightarrow> bool" where
  "is_ascii c \<longleftrightarrow> of_char c < (128 :: nat)"

definition is_upper :: "char \<Rightarrow> bool" where
  "is_upper c \<longleftrightarrow> 65 \<le> (of_char c :: nat) \<and> of_char c \<le> (90 :: nat)"

definition lower_char :: "char \<Rightarrow> char" where
  "lower_char c = (if is_upper c then char_of (of_char c + 32 :: nat) else c)"

definition ToLower :: "(string \<Rightarrow> string) \<Rightarrow> string \<Rightarrow> string" where
  "ToLower uni s = (if list_all is_ascii s then map lower_char s else uni s)"

lemma of_char_lower_char:
  "(of_char (lower_char c) :: nat) = (if is_upper c then of_char c + 32 else of_char c)"
  by (auto simp: lower_char_def is_upper_def)

lemma is_upper_lower_char [simp]: "\<not> is_upper (lower_char c)"
  using of_char_lower_char [of c] by (auto simp: is_upper_def)

lemma lower_char_idem [simp]: "lower_char (lower_char c) = lower_char c"
  unfolding lower_char_def [of "lower_char c"] by simp

lemma is_ascii_lower_char [simp]: "is_ascii (lower_char c) = is_ascii c"
  using of_char_lower_char [of c] by (auto simp: is_ascii_def is_upper_def)

lemma ToLower_ascii: "list_all is_ascii s \<Longrightarrow> ToLower uni s = map lower_char s"
  by (simp add: ToLower_def)

lemma ToLower_idem_ascii:
  "list_all is_ascii s \<Longrightarrow> ToLower uni (ToLower uni s) = ToLower uni s"
  by (simp add: ToLower_def list_all_iff comp_def)

lemma ToLower_no_upper:
  "list_all is_ascii s \<Longrightarrow> c \<in> set (ToLower uni s) \<Longrightarrow> \<not> is_upper c"
  by (auto simp: ToLower_def)

section \<open>Splitting strings\<close>

text \<open>
  \<open>strings.Split(s, sep)\<close> for a separator that is not empty: the pieces between the occurrences
  of \<open>sep\<close>, found from the left and not overlapping. \<open>strings.SplitN(s, sep, n)\<close> with \<open>n > 0\<close>
  stops after \<open>n\<close> pieces, the last of which is the rest of the string. \<open>Cut\<close> finds the first
  occurrence.
\<close>

fun Cut :: "string \<Rightarrow> string \<Rightarrow> (string \<times> string) option" where
  "Cut sep [] = (if sep = [] then Some ([], []) else None)"
| "Cut sep (c # s) =
    (if take (length sep) (c # s) = sep then Some ([], drop (length sep) (c # s))
     else map_option (\<lambda>(a, b). (c # a, b)) (Cut sep s))"

lemma Cut_eq: "Cut sep s = Some (a, b) \<Longrightarrow> s = a @ sep @ b"
proof (induction sep s arbitrary: a b rule: Cut.induct)
  case (1 sep)
  then show ?case by (simp split: if_splits)
next
  case (2 sep c s)
  show ?case
  proof (cases "take (length sep) (c # s) = sep")
    case True
    with 2 have "a = []" "b = drop (length sep) (c # s)" by auto
    then show ?thesis using True by (metis append_Nil append_take_drop_id)
  next
    case False
    with 2 show ?thesis by auto
  qed
qed

lemma Cut_length: "Cut sep s = Some (a, b) \<Longrightarrow> sep \<noteq> [] \<Longrightarrow> length b < length s"
  using Cut_eq [of sep s a b] by (cases sep) auto

function Split :: "string \<Rightarrow> string \<Rightarrow> string list" where
  "Split sep s =
    (if sep = [] then map (\<lambda>c. [c]) s
     else (case Cut sep s of None \<Rightarrow> [s] | Some (a, b) \<Rightarrow> a # Split sep b))"
  by pat_completeness auto
termination
  by (relation "measure (\<lambda>(sep, s). length s)") (auto dest: Cut_length)

declare Split.simps [simp del]

fun SplitN :: "string \<Rightarrow> nat \<Rightarrow> string \<Rightarrow> string list" where
  "SplitN sep 0 s = []"
| "SplitN sep (Suc 0) s = [s]"
| "SplitN sep (Suc (Suc n)) s =
    (case Cut sep s of None \<Rightarrow> [s] | Some (a, b) \<Rightarrow> a # SplitN sep (Suc n) b)"

text \<open>\<open>strings.Contains\<close>.\<close>

definition Contains :: "string \<Rightarrow> string \<Rightarrow> bool" where
  "Contains s sub \<longleftrightarrow> Cut sub s \<noteq> None"

lemma Split_None: "sep \<noteq> [] \<Longrightarrow> Cut sep s = None \<Longrightarrow> Split sep s = [s]"
  by (simp add: Split.simps)

lemma Split_Some: "sep \<noteq> [] \<Longrightarrow> Cut sep s = Some (a, b) \<Longrightarrow> Split sep s = a # Split sep b"
  by (simp add: Split.simps [of sep s])

lemma Split_not_Nil: "sep \<noteq> [] \<Longrightarrow> Split sep s \<noteq> []"
  by (simp add: Split.simps [of sep s] split: option.splits prod.splits)

lemma hd_Split:
  "sep \<noteq> [] \<Longrightarrow> hd (Split sep s) = (case Cut sep s of None \<Rightarrow> s | Some (a, b) \<Rightarrow> a)"
  by (simp add: Split.simps [of sep s] split: option.splits prod.splits)

lemma length_Split_gt1: "sep \<noteq> [] \<Longrightarrow> Suc 0 < length (Split sep s) \<longleftrightarrow> Contains s sep"
  by (auto simp: Split.simps [of sep s] Contains_def Split_not_Nil split: option.splits prod.splits)

lemma Cut_None_iff: "sep \<noteq> [] \<Longrightarrow> Cut sep s = None \<longleftrightarrow> (\<nexists>a b. s = a @ sep @ b)"
proof (induction sep s rule: Cut.induct)
  case (1 sep)
  then show ?case by auto
next
  case (2 sep c s)
  show ?case
  proof (cases "take (length sep) (c # s) = sep")
    case True
    then have "c # s = [] @ sep @ drop (length sep) (c # s)"
      by (metis append_Nil append_take_drop_id)
    with True show ?thesis by (metis Cut.simps(2) option.distinct(1))
  next
    case False
    have "(\<exists>a b. c # s = a @ sep @ b) \<longleftrightarrow> (\<exists>a b. s = a @ sep @ b)"
    proof
      assume "\<exists>a b. c # s = a @ sep @ b"
      then obtain a b where ab: "c # s = a @ sep @ b" by blast
      with False have "a \<noteq> []" by (metis append_Nil append_eq_conv_conj)
      with ab show "\<exists>a b. s = a @ sep @ b" by (metis append_eq_Cons_conv)
    next
      assume "\<exists>a b. s = a @ sep @ b"
      then show "\<exists>a b. c # s = a @ sep @ b" by (metis append_Cons)
    qed
    with False 2 show ?thesis by auto
  qed
qed

lemma Cut_free_prefix:
  assumes "Cut sep s = Some (a, b)" and "sep \<noteq> []"
  shows "Cut sep a = None"
  using assms
proof (induction sep s arbitrary: a b rule: Cut.induct)
  case (1 sep)
  then show ?case by simp
next
  case (2 sep c s)
  show ?case
  proof (cases "take (length sep) (c # s) = sep")
    case True
    with 2 show ?thesis by auto
  next
    case False
    with 2(2) obtain a' where a: "a = c # a'" and cut: "Cut sep s = Some (a', b)"
      by auto
    with 2 False have free: "Cut sep a' = None" by blast
    have s: "s = a' @ sep @ b" using cut by (rule Cut_eq)
    have "take (length sep) (c # a') \<noteq> sep"
    proof
      assume eq: "take (length sep) (c # a') = sep"
      then have "length sep \<le> length (c # a')"
        by (metis length_take min.cobounded1 min_def)
      with eq have "take (length sep) (c # s) = sep" unfolding s
        by (metis append_Cons append_take_drop_id take_append diff_is_0_eq take_0 append_Nil2)
      with False show False ..
    qed
    with free show ?thesis by (simp add: a)
  qed
qed

text \<open>A one-character separator.\<close>

lemma Cut_char: "Cut [x] (s @ x # t) = Some (s, t)" if "x \<notin> set s"
  using that by (induction s) auto

lemma Cut_char_None: "Cut [x] s = None \<longleftrightarrow> x \<notin> set s"
  by (induction s) auto

section \<open>Printing numbers\<close>

text \<open>\<open>fmt.Sprintf("%d", n)\<close>.\<close>

definition digit_char :: "nat \<Rightarrow> char" where
  "digit_char d = char_of (48 + d)"

fun show_nat :: "nat \<Rightarrow> string" where
  "show_nat n = (if n < 10 then [digit_char n] else show_nat (n div 10) @ [digit_char (n mod 10)])"

declare show_nat.simps [simp del]

definition show_int :: "int \<Rightarrow> string" where
  "show_int i = (if i < 0 then CHR ''-'' # show_nat (nat (- i)) else show_nat (nat i))"

lemma of_digit_char: "d < 10 \<Longrightarrow> (of_char (digit_char d) :: nat) = 48 + d"
  by (simp add: digit_char_def)

lemma set_show_nat: "c \<in> set (show_nat n) \<Longrightarrow> \<exists>d<10. c = digit_char d"
proof (induction n rule: show_nat.induct)
  case (1 n)
  show ?case
  proof (cases "n < 10")
    case True
    with 1 show ?thesis by (auto simp: show_nat.simps [of n])
  next
    case False
    with 1 have "c \<in> set (show_nat (n div 10)) \<or> c = digit_char (n mod 10)"
      by (auto simp: show_nat.simps [of n])
    with 1 False show ?thesis by (metis mod_less_divisor zero_less_numeral)
  qed
qed

text \<open>Division of integers as Go does it: truncated towards zero.\<close>

definition go_div :: "int \<Rightarrow> int \<Rightarrow> int" where
  "go_div a b = sgn a * sgn b * (\<bar>a\<bar> div \<bar>b\<bar>)"

section \<open>Time\<close>

text \<open>
  A \<open>time.Time\<close> is the number of nanoseconds since the zero time (January 1, year 1), so the zero
  value of a field of that type is 0; a \<open>time.Duration\<close> is a signed 64-bit number of nanoseconds.
  \<open>time.Since(t)\<close> is \<open>now - t\<close>, saturated at the ends of the duration type.
\<close>

type_synonym gotime = int
type_synonym duration = int

definition maxDuration :: duration where
  "maxDuration = 2 ^ 63 - 1"

definition minDuration :: duration where
  "minDuration = - (2 ^ 63)"

definition Since :: "gotime \<Rightarrow> gotime \<Rightarrow> duration" where
  "Since now t = max minDuration (min maxDuration (now - t))"

abbreviation second :: duration where
  "second \<equiv> 1000000000"

lemma Since_mono: "now \<le> now' \<Longrightarrow> Since now t \<le> Since now' t"
  by (simp add: Since_def)

lemma Since_self [simp]: "Since now now = 0"
  by (simp add: Since_def maxDuration_def minDuration_def)

lemma Since_ge_iff:
  "- (2 ^ 63) < d \<Longrightarrow> d < 2 ^ 63 \<Longrightarrow> d \<le> Since now t \<longleftrightarrow> d \<le> now - t"
  by (auto simp: Since_def maxDuration_def minDuration_def)

lemma Since_zero_time: "2 ^ 63 \<le> now \<Longrightarrow> Since now 0 = maxDuration"
  by (simp add: Since_def maxDuration_def minDuration_def)

end
