(* ===== verification/Mc_Io.thy ===== *)
theory Mc_Io
  imports UV_Prelude
begin

text \<open>
  The byte sources the packet code reads from, and the sockets it writes to.

  In the source every decoder takes a \<open>DecodeReader\<close> (mc/type.go): an \<open>io.ByteReader\<close> that is also
  an \<open>io.Reader\<close>. The program passes it a \<open>bytes.Reader\<close> over the data of a packet, a \<open>bytes.Buffer\<close>,
  or a \<open>bufio.Reader\<close> over a connection (\<open>NewMcConn\<close> in mc/conn.go). The record \<open>stream\<close> models the
  first two, \<open>net_conn\<close> a socket and \<open>bufio\<close> the buffered reader on top of it; the locale
  \<open>decode_reader\<close> states what the decoders rely on, and both kinds of reader are shown to provide it.
\<close>

section \<open>Flat byte streams\<close>

text \<open>
  The bytes still to come and the error that follows the last of them: \<open>io.EOF\<close> for a buffer in
  memory, and for a socket whatever the peer or the deadline causes.
\<close>

record stream =
  s_bytes :: "byte list"
  s_end :: go_error

definition bytes_NewReader :: "byte list \<Rightarrow> stream" where
  "bytes_NewReader b = \<lparr>s_bytes = b, s_end = ErrEOF\<rparr>"

definition stream_ReadByte :: "stream \<Rightarrow> byte res \<times> stream" where
  "stream_ReadByte r =
    (case s_bytes r of
       [] \<Rightarrow> (Err (s_end r), r)
     | b # bs \<Rightarrow> (Ok b, r\<lparr>s_bytes := bs\<rparr>))"

definition stream_Read :: "nat \<Rightarrow> stream \<Rightarrow> (byte list \<times> go_error option) \<times> stream" where
  "stream_Read n r =
    (if s_bytes r = [] then (([], Some (s_end r)), r)
     else ((take n (s_bytes r), None), r\<lparr>s_bytes := drop n (s_bytes r)\<rparr>))"

text \<open>
  \<open>io.ReadFull(r, buf)\<close> for a buffer of \<open>n\<close> bytes: reads are repeated until the buffer is full or a
  read fails. A failure after the first byte turns \<open>io.EOF\<close> into \<open>io.ErrUnexpectedEOF\<close>. The fuel
  counts the reads; a reader that returns at least one byte with a nil error needs at most \<open>n\<close> of
  them, and one more unit is always left (lemma \<open>read_full_flat\<close> in the locale below).
\<close>

fun read_at_least ::
  "nat \<Rightarrow> (nat \<Rightarrow> 'r \<Rightarrow> (byte list \<times> go_error option) \<times> 'r) \<Rightarrow> nat \<Rightarrow> byte list \<Rightarrow> 'r \<Rightarrow>
    byte list res \<times> 'r" where
  "read_at_least 0 rd n acc r = (Err ErrNoProgress, r)"
| "read_at_least (Suc fuel) rd n acc r =
    (if n \<le> length acc then (Ok acc, r)
     else (case rd (n - length acc) r of
        ((bb, None), r') \<Rightarrow> read_at_least fuel rd n (acc @ bb) r'
      | ((bb, Some e), r') \<Rightarrow>
          if n \<le> length (acc @ bb) then (Ok (acc @ bb), r')
          else (Err (if acc @ bb \<noteq> [] \<and> e = ErrEOF then ErrUnexpectedEOF else e), r')))"

definition ReadFull ::
  "(nat \<Rightarrow> 'r \<Rightarrow> (byte list \<times> go_error option) \<times> 'r) \<Rightarrow> nat \<Rightarrow> 'r \<Rightarrow> byte list res \<times> 'r" where
  "ReadFull rd n r = read_at_least (Suc n) rd n [] r"

text \<open>What reading \<open>n\<close> bytes comes to on a flat stream, with \<open>acc\<close> read before.\<close>

definition flat_at_least :: "nat \<Rightarrow> byte list \<Rightarrow> stream \<Rightarrow> byte list res \<times> stream" where
  "flat_at_least n acc r =
    (let m = n - length acc; bs = s_bytes r in
     if m \<le> length bs then (Ok (acc @ take m bs), r\<lparr>s_bytes := drop m bs\<rparr>)
     else (Err (if acc @ bs \<noteq> [] \<and> s_end r = ErrEOF then ErrUnexpectedEOF else s_end r),
           r\<lparr>s_bytes := []\<rparr>))"

definition flat_ReadFull :: "nat \<Rightarrow> stream \<Rightarrow> byte list res \<times> stream" where
  "flat_ReadFull n r = flat_at_least n [] r"

lemma flat_at_least_step:
  assumes "k \<le> n - length acc" and "k \<le> length (s_bytes r)"
  shows "flat_at_least n (acc @ take k (s_bytes r)) (r\<lparr>s_bytes := drop k (s_bytes r)\<rparr>)
    = flat_at_least n acc r"
proof -
  have len: "length (acc @ take k (s_bytes r)) = length acc + k" using assms(2) by simp
  have tk: "take k (s_bytes r) @ take (n - (length acc + k)) (drop k (s_bytes r))
      = take (n - length acc) (s_bytes r)"
    using assms(1) by (metis le_add_diff_inverse take_add diff_diff_eq)
  have dr: "drop (n - (length acc + k)) (drop k (s_bytes r)) = drop (n - length acc) (s_bytes r)"
  proof (cases "length acc \<le> n")
    case True
    with assms(1) have "n - (length acc + k) + k = n - length acc" by linarith
    then show ?thesis by (simp only: drop_drop)
  next
    case False
    with assms(1) show ?thesis by simp
  qed
  have cmp: "n - (length acc + k) \<le> length (s_bytes r) - k \<longleftrightarrow> n - length acc \<le> length (s_bytes r)"
    using assms by linarith
  show ?thesis unfolding flat_at_least_def Let_def len using tk dr cmp by simp
qed

section \<open>Sockets\<close>

text \<open>
  A connection as the program sees it: the segments that successive reads will deliver and the error
  after the last, the packets written so far and the error a write returns, whether it was closed,
  the deadline in force and the address of the peer.
\<close>

record net_conn =
  nc_in :: "byte list list"
  nc_end :: go_error
  nc_out :: "byte list"
  nc_werr :: "go_error option"
  nc_closed :: bool
  nc_deadline :: "gotime option"
  nc_addr :: string

definition conn_Read :: "nat \<Rightarrow> net_conn \<Rightarrow> (byte list \<times> go_error option) \<times> net_conn" where
  "conn_Read n c =
    (case nc_in c of
       [] \<Rightarrow> (([], Some (nc_end c)), c)
     | seg # segs \<Rightarrow>
         if length seg \<le> n then ((seg, None), c\<lparr>nc_in := segs\<rparr>)
         else ((take n seg, None), c\<lparr>nc_in := drop n seg # segs\<rparr>))"

definition conn_Write :: "byte list \<Rightarrow> net_conn \<Rightarrow> unit res \<times> net_conn" where
  "conn_Write bb c =
    (if nc_closed c then (Err ErrNetClosed, c)
     else (case nc_werr c of
         Some e \<Rightarrow> (Err e, c)
       | None \<Rightarrow> (Ok (), c\<lparr>nc_out := nc_out c @ bb\<rparr>)))"

definition conn_Close :: "net_conn \<Rightarrow> net_conn" where
  "conn_Close c = c\<lparr>nc_closed := True\<rparr>"

definition conn_SetDeadline :: "gotime option \<Rightarrow> net_conn \<Rightarrow> net_conn" where
  "conn_SetDeadline d c = c\<lparr>nc_deadline := d\<rparr>"

text \<open>A socket delivers at least one byte with every successful read.\<close>

definition conn_ok :: "net_conn \<Rightarrow> bool" where
  "conn_ok c \<longleftrightarrow> [] \<notin> set (nc_in c)"

section \<open>Buffered readers\<close>

text \<open>
  \<open>bufio.Reader\<close>: the bytes read from the connection and not yet handed out, the size of the buffer
  (4096 by default) and the connection. A byte is taken from the buffer, which is filled by one read
  of the connection when it is empty; a large read with an empty buffer goes to the connection
  directly.
\<close>

record bufio =
  br_buf :: "byte list"
  br_size :: nat
  br_conn :: net_conn

definition bufio_NewReader :: "net_conn \<Rightarrow> bufio" where
  "bufio_NewReader c = \<lparr>br_buf = [], br_size = 4096, br_conn = c\<rparr>"

text \<open>\<open>bufio.NewReaderSize(conn, size)\<close>: a buffer has at least 16 bytes.\<close>

definition bufio_NewReaderSize :: "net_conn \<Rightarrow> nat \<Rightarrow> bufio" where
  "bufio_NewReaderSize c sz = \<lparr>br_buf = [], br_size = max sz 16, br_conn = c\<rparr>"

definition bufio_ReadByte :: "bufio \<Rightarrow> byte res \<times> bufio" where
  "bufio_ReadByte r =
    (case br_buf r of
       b # bs \<Rightarrow> (Ok b, r\<lparr>br_buf := bs\<rparr>)
     | [] \<Rightarrow> (case conn_Read (br_size r) (br_conn r) of
          ((b # bs, None), c) \<Rightarrow> (Ok b, r\<lparr>br_buf := bs, br_conn := c\<rparr>)
        | ((_, Some e), c) \<Rightarrow> (Err e, r\<lparr>br_conn := c\<rparr>)
        | (([], None), c) \<Rightarrow> (Err ErrNoProgress, r\<lparr>br_conn := c\<rparr>)))"

definition bufio_Read :: "nat \<Rightarrow> bufio \<Rightarrow> (byte list \<times> go_error option) \<times> bufio" where
  "bufio_Read n r =
    (if n = 0 then (([], None), r)
     else if br_buf r \<noteq> [] then ((take n (br_buf r), None), r\<lparr>br_buf := drop n (br_buf r)\<rparr>)
     else if br_size r \<le> n then
       (case conn_Read n (br_conn r) of (res, c) \<Rightarrow> (res, r\<lparr>br_conn := c\<rparr>))
     else
       (case conn_Read (br_size r) (br_conn r) of
          ((bb, None), c) \<Rightarrow> ((take n bb, None), r\<lparr>br_buf := drop n bb, br_conn := c\<rparr>)
        | ((bb, Some e), c) \<Rightarrow> (([], Some e), r\<lparr>br_conn := c\<rparr>)))"

text \<open>The flat stream a buffered reader stands for: its buffer, then the connection's segments.\<close>

definition bufio_stream :: "bufio \<Rightarrow> stream" where
  "bufio_stream r =
    \<lparr>s_bytes = br_buf r @ concat (nc_in (br_conn r)), s_end = nc_end (br_conn r)\<rparr>"

definition bufio_ok :: "bufio \<Rightarrow> bool" where
  "bufio_ok r \<longleftrightarrow> 0 < br_size r \<and> conn_ok (br_conn r)"

section \<open>The reader interface\<close>

text \<open>
  What a decoder may assume of its \<open>DecodeReader\<close>, as a relation to the flat stream \<open>abs r\<close> the
  reader stands for: \<open>ReadByte\<close> hands out the next byte or the final error, and \<open>Read\<close> a prefix that
  is not empty when bytes are left and the final error otherwise. Every decoder of the next theory is
  shown to commute with \<open>abs\<close> in this locale, so what is proved on flat streams holds for each reader
  that interprets it.
\<close>

locale decode_reader =
  fixes rb :: "'r \<Rightarrow> byte res \<times> 'r"
    and rd :: "nat \<Rightarrow> 'r \<Rightarrow> (byte list \<times> go_error option) \<times> 'r"
    and abs :: "'r \<Rightarrow> stream"
    and ok :: "'r \<Rightarrow> bool"
  assumes rb_fst: "ok r \<Longrightarrow> fst (rb r) = fst (stream_ReadByte (abs r))"
    and rb_abs: "ok r \<Longrightarrow> abs (snd (rb r)) = snd (stream_ReadByte (abs r))"
    and rb_ok: "ok r \<Longrightarrow> ok (snd (rb r))"
    and rd_some: "ok r \<Longrightarrow> 0 < n \<Longrightarrow> s_bytes (abs r) \<noteq> [] \<Longrightarrow>
      \<exists>k. 0 < k \<and> k \<le> n \<and> k \<le> length (s_bytes (abs r)) \<and>
        fst (rd n r) = (take k (s_bytes (abs r)), None) \<and>
        abs (snd (rd n r)) = (abs r)\<lparr>s_bytes := drop k (s_bytes (abs r))\<rparr>"
    and rd_none: "ok r \<Longrightarrow> 0 < n \<Longrightarrow> s_bytes (abs r) = [] \<Longrightarrow>
      fst (rd n r) = ([], Some (s_end (abs r))) \<and> abs (snd (rd n r)) = abs r"
    and rd_ok: "ok r \<Longrightarrow> ok (snd (rd n r))"
begin

text \<open>\<open>sim m m'\<close>: the run \<open>m\<close> on the reader and the run \<open>m'\<close> on the flat stream agree.\<close>

definition sim :: "'a res \<times> 'r \<Rightarrow> 'a res \<times> stream \<Rightarrow> bool" where
  "sim m m' \<longleftrightarrow> fst m = fst m' \<and> abs (snd m) = snd m' \<and> ok (snd m)"

lemma sim_return: "ok r \<Longrightarrow> sim (x, r) (x, abs r)"
  by (simp add: sim_def)

lemma sim_rb: "ok r \<Longrightarrow> sim (rb r) (stream_ReadByte (abs r))"
  by (simp add: sim_def rb_fst rb_abs rb_ok)

lemma sim_and_then:
  assumes "sim m m'" and "\<And>a r. ok r \<Longrightarrow> sim (k a r) (k' a (abs r))"
  shows "sim (and_then m k) (and_then m' k')"
proof -
  obtain x r where m: "m = (x, r)" by (cases m)
  with assms(1) have "m' = (x, abs r)" and "ok r" by (cases m', auto simp: sim_def)+
  with m assms(2) show ?thesis by (cases x) (auto simp: sim_def)
qed

lemma read_at_least_flat:
  assumes "ok r" and "n - length acc < fuel"
  shows "length acc \<le> n \<Longrightarrow> sim (read_at_least fuel rd n acc r) (flat_at_least n acc (abs r))"
  using assms
proof (induction fuel arbitrary: acc r)
  case 0
  then show ?case by simp
next
  case (Suc fuel)
  show ?case
  proof (cases "n \<le> length acc")
    case True
    with Suc.prems show ?thesis by (simp add: sim_def flat_at_least_def)
  next
    case False
    then have pos: "0 < n - length acc" by simp
    obtain bb eo r' where rd: "rd (n - length acc) r = ((bb, eo), r')"
      by (metis surj_pair)
    have okr': "ok r'" using rd_ok [OF \<open>ok r\<close>, of "n - length acc"] rd by simp
    show ?thesis
    proof (cases "s_bytes (abs r) = []")
      case True
      with rd_none [OF \<open>ok r\<close> pos] rd have "bb = []" "eo = Some (s_end (abs r))" "abs r' = abs r"
        by simp_all
      with False True rd okr' show ?thesis by (simp add: sim_def flat_at_least_def)
    next
      case nonempty: False
      from rd_some [OF \<open>ok r\<close> pos nonempty] rd obtain k where k: "0 < k" "k \<le> n - length acc"
        "k \<le> length (s_bytes (abs r))" "bb = take k (s_bytes (abs r))" "eo = None"
        "abs r' = (abs r)\<lparr>s_bytes := drop k (s_bytes (abs r))\<rparr>" by auto
      have "length (acc @ bb) \<le> n" "n - length (acc @ bb) < fuel"
        using Suc.prems k False by auto
      with Suc.IH okr' have "sim (read_at_least fuel rd n (acc @ bb) r')
          (flat_at_least n (acc @ bb) (abs r'))" by blast
      with k flat_at_least_step [of k n acc "abs r"] False rd show ?thesis by simp
    qed
  qed
qed

lemma read_full_flat: "ok r \<Longrightarrow> sim (ReadFull rd n r) (flat_ReadFull n (abs r))"
  unfolding ReadFull_def flat_ReadFull_def by (rule read_at_least_flat) simp_all

end

text \<open>A flat stream is a reader of itself.\<close>

interpretation flat: decode_reader stream_ReadByte stream_Read "\<lambda>r. r" "\<lambda>_. True"
proof
  fix r :: stream and n :: nat
  assume "s_bytes r \<noteq> []" and "0 < n"
  then show "\<exists>k. 0 < k \<and> k \<le> n \<and> k \<le> length (s_bytes r) \<and>
      fst (stream_Read n r) = (take k (s_bytes r), None) \<and>
      snd (stream_Read n r) = r\<lparr>s_bytes := drop k (s_bytes r)\<rparr>"
    by (intro exI [of _ "min n (length (s_bytes r))"])
      (auto simp: stream_Read_def min_def)
qed (auto simp: stream_Read_def)

text \<open>
  And so is a buffered reader on a connection, whatever the segments in which the bytes arrive.
\<close>

lemma conn_Read_cases:
  assumes "conn_ok c" and "0 < n"
  obtains (none) "nc_in c = []" "conn_Read n c = (([], Some (nc_end c)), c)"
  | (some) b bs c' where "conn_Read n c = ((b # bs, None), c')"
      "concat (nc_in c) = b # bs @ concat (nc_in c')" "Suc (length bs) \<le> n"
      "nc_end c' = nc_end c" "conn_ok c'"
proof (cases "nc_in c")
  case Nil
  then show ?thesis by (intro none) (simp_all add: conn_Read_def)
next
  case (Cons seg segs)
  with assms obtain b bs where seg: "seg = b # bs" by (cases seg) (auto simp: conn_ok_def)
  show ?thesis
  proof (cases "length seg \<le> n")
    case True
    with Cons assms seg show ?thesis
      by (intro some [of b bs "c\<lparr>nc_in := segs\<rparr>"]) (auto simp: conn_Read_def conn_ok_def)
  next
    case False
    from \<open>0 < n\<close> obtain m where n: "n = Suc m" by (cases n) auto
    from False have ne: "drop n seg \<noteq> []" by simp
    have "bs @ rest = take m bs @ drop m bs @ rest" for rest :: "byte list"
      by (metis append.assoc append_take_drop_id)
    with Cons assms seg False n ne show ?thesis
      by (intro some [of b "take m bs" "c\<lparr>nc_in := drop n seg # segs\<rparr>"])
        (auto simp: conn_Read_def conn_ok_def)
  qed
qed

lemma bufio_ReadByte_flat:
  assumes "bufio_ok r"
  shows "fst (bufio_ReadByte r) = fst (stream_ReadByte (bufio_stream r)) \<and>
    bufio_stream (snd (bufio_ReadByte r)) = snd (stream_ReadByte (bufio_stream r)) \<and>
    bufio_ok (snd (bufio_ReadByte r))"
proof (cases "br_buf r")
  case (Cons b bs)
  with assms show ?thesis
    by (simp add: bufio_ReadByte_def stream_ReadByte_def bufio_stream_def bufio_ok_def)
next
  case Nil
  from assms have "conn_ok (br_conn r)" and "0 < br_size r" by (auto simp: bufio_ok_def)
  then show ?thesis
    by (cases rule: conn_Read_cases) (use Nil assms in \<open>simp_all add: bufio_ReadByte_def
        stream_ReadByte_def bufio_stream_def bufio_ok_def\<close>)
qed

lemma bufio_Read_ok:
  assumes "bufio_ok r"
  shows "bufio_ok (snd (bufio_Read n r))"
proof -
  from assms have ok: "conn_ok (br_conn r)" "0 < br_size r" by (auto simp: bufio_ok_def)
  have kept: "conn_ok c" if "0 < m" and "conn_Read m (br_conn r) = (res, c)" for m res c
    using ok(1) that(1) by (cases rule: conn_Read_cases) (use that(2) ok in simp_all)
  obtain res c where direct: "conn_Read n (br_conn r) = (res, c)" by (metis surj_pair)
  obtain bb eo d where fill: "conn_Read (br_size r) (br_conn r) = ((bb, eo), d)" by (metis surj_pair)
  from kept [OF ok(2) fill] kept [OF _ direct] ok show ?thesis
    by (auto simp: bufio_Read_def bufio_ok_def direct fill split: option.splits)
qed

lemma bufio_Read_none:
  assumes "bufio_ok r" and "0 < n" and "s_bytes (bufio_stream r) = []"
  shows "bufio_Read n r = (([], Some (s_end (bufio_stream r))), r)"
proof -
  from assms have "nc_in (br_conn r) = []" "br_buf r = []"
    by (auto simp: bufio_stream_def bufio_ok_def conn_ok_def) (metis list.set_intros(1) neq_Nil_conv)
  with \<open>0 < n\<close> show ?thesis by (simp add: bufio_Read_def bufio_stream_def conn_Read_def)
qed

lemma bufio_Read_some:
  assumes "bufio_ok r" and "0 < n" and ne: "s_bytes (bufio_stream r) \<noteq> []"
  shows "\<exists>k>0. k \<le> n \<and> k \<le> length (s_bytes (bufio_stream r)) \<and>
      fst (bufio_Read n r) = (take k (s_bytes (bufio_stream r)), None) \<and>
      bufio_stream (snd (bufio_Read n r)) =
        (bufio_stream r)\<lparr>s_bytes := drop k (s_bytes (bufio_stream r))\<rparr>"
proof (cases "br_buf r = []")
  case False
  then show ?thesis using \<open>0 < n\<close>
    by (intro exI [of _ "min n (length (br_buf r))"])
      (auto simp: bufio_Read_def bufio_stream_def min_def)
next
  case empty: True
  from assms have cok: "conn_ok (br_conn r)" and size: "0 < br_size r" by (auto simp: bufio_ok_def)
  show ?thesis
  proof (cases "br_size r \<le> n")
    case direct: True
    from cok \<open>0 < n\<close> show ?thesis
    proof (cases rule: conn_Read_cases)
      case none
      with ne empty show ?thesis by (simp add: bufio_stream_def)
    next
      case (some b bs c')
      with direct empty show ?thesis
        by (intro exI [of _ "Suc (length bs)"]) (simp add: bufio_Read_def bufio_stream_def)
    qed
  next
    case False
    from cok size show ?thesis
    proof (cases rule: conn_Read_cases)
      case none
      with ne empty show ?thesis by (simp add: bufio_stream_def)
    next
      case (some b bs c')
      from \<open>0 < n\<close> obtain m where "n = Suc m" by (cases n) auto
      with some False empty show ?thesis
        by (intro exI [of _ "min n (Suc (length bs))"])
          (auto simp: bufio_Read_def bufio_stream_def min_def)
    qed
  qed
qed

interpretation buffered: decode_reader bufio_ReadByte bufio_Read bufio_stream bufio_ok
  by unfold_locales
    (auto simp: bufio_ReadByte_flat bufio_Read_ok bufio_Read_none intro: bufio_Read_some)

lemma bufio_fresh [simp]:
  "bufio_stream (bufio_NewReader c) = \<lparr>s_bytes = concat (nc_in c), s_end = nc_end c\<rparr>"
  "bufio_ok (bufio_NewReader c) = conn_ok c"
  "bufio_stream (bufio_NewReaderSize c n) = \<lparr>s_bytes = concat (nc_in c), s_end = nc_end c\<rparr>"
  "bufio_ok (bufio_NewReaderSize c n) = conn_ok c"
  by (simp_all add: bufio_stream_def bufio_NewReader_def bufio_NewReaderSize_def bufio_ok_def
      less_max_iff_disj)

lemma stream_ReadByte_simps [simp]:
  "stream_ReadByte \<lparr>s_bytes = [], s_end = e\<rparr> = (Err e, \<lparr>s_bytes = [], s_end = e\<rparr>)"
  "stream_ReadByte \<lparr>s_bytes = b # bs, s_end = e\<rparr> = (Ok b, \<lparr>s_bytes = bs, s_end = e\<rparr>)"
  by (simp_all add: stream_ReadByte_def)

section \<open>Segments\<close>

text \<open>
  A buffered reader fetches from one segment at a time and only when its buffer is empty. \<open>aligned\<close>
  keeps track of the segment being read: of the list \<open>segs\<close> sent, \<open>post\<close> has not been touched, and
  less than the whole of the last segment before \<open>post\<close> is left in the buffer and the connection.
\<close>

definition rest_of_segment :: "byte list list \<Rightarrow> bufio \<Rightarrow> byte list \<Rightarrow> bool" where
  "rest_of_segment post r cur \<longleftrightarrow>
    (nc_in (br_conn r) = post \<and> br_buf r = cur) \<or>
    (\<exists>x. x \<noteq> [] \<and> nc_in (br_conn r) = x # post \<and> br_buf r @ x = cur)"

definition aligned :: "byte list list \<Rightarrow> bufio \<Rightarrow> bool" where
  "aligned segs r \<longleftrightarrow> (\<exists>pre post cur. segs = pre @ post \<and> rest_of_segment post r cur \<and>
    (cur = [] \<or> pre \<noteq> [] \<and> length cur < length (last pre)))"

lemma aligned_start: "nc_in (br_conn r) = segs \<Longrightarrow> br_buf r = [] \<Longrightarrow> aligned segs r"
  by (force simp: aligned_def rest_of_segment_def)

text \<open>One fetch of at most \<open>n\<close> bytes, of which at least one is handed out.\<close>

lemma aligned_fetch:
  assumes "aligned segs r" and "br_buf r = []" and "conn_ok (br_conn r)" and "0 < n"
    and "conn_Read n (br_conn r) = ((bb, None), c)" and "length buf < length bb" 
  shows "aligned segs (r\<lparr>br_buf := buf, br_conn := c\<rparr>)"
proof -
  from assms(1) obtain pre post cur where segs: "segs = pre @ post" and cur: "rest_of_segment post r cur"
    and short: "cur = [] \<or> pre \<noteq> [] \<and> length cur < length (last pre)" by (auto simp: aligned_def)
  show ?thesis
  proof (cases "nc_in (br_conn r)")
    case Nil
    with assms(5) show ?thesis by (simp add: conn_Read_def)
  next
    case (Cons seg rest)
    then have ne: "seg \<noteq> []" using assms(3) by (auto simp: conn_ok_def)
    define d where "d = drop n seg"
    have c: "nc_in c = (if length seg \<le> n then rest else d # rest)" and bb: "bb = take n seg"
      using Cons assms(5) by (auto simp: conn_Read_def d_def split: if_splits)
    have len: "length bb + length d = length seg" by (simp add: bb d_def)
    show ?thesis
    proof (cases "cur = []")
      case True
      then have "post = seg # rest" using cur Cons assms(2) by (auto simp: rest_of_segment_def)
      then have "segs = (pre @ [seg]) @ rest" using segs by simp
      moreover have "rest_of_segment rest (r\<lparr>br_buf := buf, br_conn := c\<rparr>)
          (buf @ (if length seg \<le> n then [] else d))"
        using c ne by (auto simp: rest_of_segment_def d_def)
      moreover have "length (buf @ (if length seg \<le> n then [] else d)) < length (last (pre @ [seg]))"
        using len assms(6) by auto
      ultimately show ?thesis unfolding aligned_def by (metis snoc_eq_iff_butlast)
    next
      case False
      then have "rest = post" "seg = cur" using cur Cons assms(2) by (auto simp: rest_of_segment_def)
      moreover have "rest_of_segment rest (r\<lparr>br_buf := buf, br_conn := c\<rparr>)
          (buf @ (if length seg \<le> n then [] else d))"
        using c ne by (auto simp: rest_of_segment_def d_def)
      moreover have "length (buf @ (if length seg \<le> n then [] else d)) < length (last pre)"
        using len assms(6) short False \<open>seg = cur\<close> by auto
      ultimately show ?thesis using segs short False unfolding aligned_def by metis
    qed
  qed
qed

lemma aligned_consume:
  assumes "aligned segs r" and "length buf \<le> length (br_buf r)"
    and "br_buf r \<noteq> []"
  shows "aligned segs (r\<lparr>br_buf := buf\<rparr>)"
proof -
  from assms(1) obtain pre post cur where segs: "segs = pre @ post" and cur: "rest_of_segment post r cur"
    and short: "cur = [] \<or> pre \<noteq> [] \<and> length cur < length (last pre)" by (auto simp: aligned_def)
  from cur assms(3) short have "pre \<noteq> []" "length cur < length (last pre)"
    by (auto simp: rest_of_segment_def)
  moreover obtain cur' where "rest_of_segment post (r\<lparr>br_buf := buf\<rparr>) cur'" "length cur' \<le> length cur"
    using cur assms(2) by (auto simp: rest_of_segment_def)
  ultimately show ?thesis using segs unfolding aligned_def by (metis le_less_trans)
qed

lemma aligned_ReadByte:
  assumes "bufio_ok r" and "aligned segs r"
  shows "aligned segs (snd (bufio_ReadByte r))"
proof (cases "br_buf r")
  case (Cons b bs)
  with aligned_consume [OF assms(2), of bs] show ?thesis by (simp add: bufio_ReadByte_def)
next
  case Nil
  from assms(1) have ok: "conn_ok (br_conn r)" "0 < br_size r" by (auto simp: bufio_ok_def)
  show ?thesis using ok
  proof (cases rule: conn_Read_cases)
    case none
    with Nil assms(2) show ?thesis by (simp add: bufio_ReadByte_def)
  next
    case (some b bs c')
    with aligned_fetch [OF assms(2) Nil ok some(1), of bs] Nil show ?thesis
      by (simp add: bufio_ReadByte_def)
  qed
qed

lemma aligned_Read:
  assumes "bufio_ok r" and "aligned segs r"
  shows "aligned segs (snd (bufio_Read n r))"
proof (cases "n = 0 \<or> br_buf r \<noteq> []")
  case True
  with assms(2) aligned_consume [OF assms(2), of "drop n (br_buf r)"] show ?thesis
    by (auto simp: bufio_Read_def)
next
  case False
  then have n: "0 < n" and Nil: "br_buf r = []" by simp_all
  from assms(1) have ok: "conn_ok (br_conn r)" "0 < br_size r" by (auto simp: bufio_ok_def)
  have r: "r\<lparr>br_buf := [], br_conn := c\<rparr> = r\<lparr>br_conn := c\<rparr>" for c using Nil by simp
  show ?thesis
  proof (cases "br_size r \<le> n")
    case direct: True
    from ok(1) n show ?thesis
    proof (cases rule: conn_Read_cases)
      case none
      with Nil direct n assms(2) show ?thesis by (simp add: bufio_Read_def)
    next
      case (some b bs c')
      with aligned_fetch [OF assms(2) Nil ok(1) n some(1), of "[]", unfolded r] Nil direct n show ?thesis
        by (simp add: bufio_Read_def)
    qed
  next
    case fill: False
    from ok show ?thesis
    proof (cases rule: conn_Read_cases)
      case none
      with Nil fill n assms(2) show ?thesis by (simp add: bufio_Read_def)
    next
      case (some b bs c')
      with aligned_fetch [OF assms(2) Nil ok some(1), of "drop n (b # bs)"] Nil fill n show ?thesis
        by (simp add: bufio_Read_def)
    qed
  qed
qed

text \<open>When a whole number of segments has been consumed, nothing is left in the buffer.\<close>

lemma aligned_end:
  assumes "aligned (segs1 @ segs2) r" and "[] \<notin> set (segs1 @ segs2)"
    and "s_bytes (bufio_stream r) = concat segs2"
  shows "br_buf r = [] \<and> nc_in (br_conn r) = segs2"
proof -
  from assms(1) obtain pre post cur where segs: "segs1 @ segs2 = pre @ post"
    and cur: "rest_of_segment post r cur"
    and short: "cur = [] \<or> pre \<noteq> [] \<and> length cur < length (last pre)" by (auto simp: aligned_def)
  have bytes: "cur @ concat post = concat segs2"
    using cur assms(3) by (auto simp: rest_of_segment_def bufio_stream_def)
  have "cur = [] \<and> post = segs2"
  proof -
    from segs consider us where "segs1 = pre @ us" "us @ segs2 = post"
      | us where "segs1 @ us = pre" "segs2 = us @ post"
      unfolding append_eq_append_conv2 by blast
    then show ?thesis
    proof cases
      case (1 us)
      have "concat post = concat us @ concat segs2" unfolding 1(2) [symmetric] by simp
      with bytes have "cur = []" "concat us = []" by auto
      moreover have "us = []" using \<open>concat us = []\<close> 1 assms(2) by (cases us) auto
      ultimately show ?thesis using 1 by simp
    next
      case (2 us)
      with bytes have cur_us: "cur = concat us" by simp
      show ?thesis
      proof (cases us rule: rev_cases)
        case Nil
        with 2 cur_us show ?thesis by simp
      next
        case (snoc us' u)
        then have "last pre = u" "u \<noteq> []" using 2 assms(2) by (auto simp: 2(1) [symmetric])
        with cur_us snoc short show ?thesis by auto
      qed
    qed
  qed
  with cur show ?thesis by (auto simp: rest_of_segment_def)
qed

interpretation aligned: decode_reader bufio_ReadByte bufio_Read bufio_stream
  "\<lambda>r. bufio_ok r \<and> aligned segs r" for segs
  by unfold_locales
    (auto simp: bufio_ReadByte_flat bufio_Read_ok bufio_Read_none aligned_ReadByte aligned_Read
      intro: bufio_Read_some)

end
