(* ===== verification/Mc_Type.thy ===== *)
theory Mc_Type
  imports Mc_Io
begin

text \<open>
  The field types of the Minecraft protocol (mc/type.go): their encoders, and the decoders over a
  \<open>DecodeReader\<close>. A decoder takes the reader's \<open>ReadByte\<close> as an argument, as the source takes an
  interface value, and threads the reader through. \<open>VarInt\<close> is a 32-bit two's complement integer in
  groups of seven bits, least significant first; a string is its length as a VarInt and its bytes.
\<close>

unbundle bit_operations_syntax

section \<open>Encoders\<close>

type_synonym varint = "32 word"

text \<open>The loop of \<open>VarInt.Encode\<close>; \<open>num\<close> is the value as an unsigned word.\<close>

function VarInt_Encode :: "varint \<Rightarrow> byte list" where
  "VarInt_Encode num =
    (let b = num AND 0x7F; num' = drop_bit 7 num in
     if num' \<noteq> 0 then ucast (b OR 0x80) # VarInt_Encode num' else [ucast b])"
  by pat_completeness auto

lemma unat_drop_bit7: "unat (drop_bit 7 (v :: varint)) = unat v div 128"
  by (simp only: unat_drop_bit_eq) (simp add: drop_bit_eq_div)

termination VarInt_Encode
proof (relation "measure unat")
  fix num :: varint and b num'
  assume num': "num' = drop_bit 7 num" and "num' \<noteq> 0"
  from num' have half: "unat num' = unat num div 128" by (simp only: unat_drop_bit7)
  moreover from \<open>num' \<noteq> 0\<close> have "unat num' \<noteq> 0" by (simp add: unat_eq_zero)
  ultimately have "unat num div 128 \<noteq> 0" by simp
  then have "unat num \<noteq> 0" by (metis div_0)
  with half show "(num', num) \<in> measure unat" by simp
qed simp

declare VarInt_Encode.simps [simp del]

definition String_Encode :: "string \<Rightarrow> byte list" where
  "String_Encode s =
    (let byteString = str_bytes s in VarInt_Encode (word_of_nat (length byteString)) @ byteString)"

definition Byte_Encode :: "byte \<Rightarrow> byte list" where
  "Byte_Encode b = [b]"

definition UnsignedShort_Encode :: "16 word \<Rightarrow> byte list" where
  "UnsignedShort_Encode n = [ucast (drop_bit 8 n), ucast n]"

definition Long_Encode :: "64 word \<Rightarrow> byte list" where
  "Long_Encode n =
    [ucast (drop_bit 56 n), ucast (drop_bit 48 n), ucast (drop_bit 40 n), ucast (drop_bit 32 n),
     ucast (drop_bit 24 n), ucast (drop_bit 16 n), ucast (drop_bit 8 n), ucast n]"

section \<open>Decoders\<close>

text \<open>
  \<open>make([]byte, n)\<close> panics when \<open>n\<close> is negative; the loop then reads the bytes one at a time.
\<close>

fun ReadNBytes_loop ::
  "('r \<Rightarrow> byte res \<times> 'r) \<Rightarrow> nat \<Rightarrow> byte list \<Rightarrow> 'r \<Rightarrow> byte list res \<times> 'r" where
  "ReadNBytes_loop rb 0 bb r = (Ok bb, r)"
| "ReadNBytes_loop rb (Suc n) bb r =
    and_then (rb r) (\<lambda>b. ReadNBytes_loop rb n (bb @ [b]))"

definition ReadNBytes ::
  "('r \<Rightarrow> byte res \<times> 'r) \<Rightarrow> int \<Rightarrow> 'r \<Rightarrow> byte list res \<times> 'r" where
  "ReadNBytes rb n r = (if n < 0 then (Panic, r) else ReadNBytes_loop rb (nat n) [] r)"

text \<open>The loop of \<open>VarInt.Decode\<close>, \<open>ReadVarInt\<close> and \<open>ReadVarInt_ByteReader\<close>.\<close>

function VarInt_loop ::
  "('r \<Rightarrow> byte res \<times> 'r) \<Rightarrow> nat \<Rightarrow> varint \<Rightarrow> 'r \<Rightarrow> varint res \<times> 'r" where
  "VarInt_loop rb i n r =
    and_then (rb r) (\<lambda>sec r'.
      let n' = n OR push_bit (7 * i) (ucast (sec AND 0x7F)) in
      if 5 \<le> i then (Err ErrVarIntSize, r')
      else if sec AND 0x80 = 0 then (Ok n', r')
      else VarInt_loop rb (Suc i) n' r')"
  by pat_completeness auto
termination
  by (relation "measure (\<lambda>(rb, i, n, r). 6 - i)") auto

declare VarInt_loop.simps [simp del]

definition VarInt_Decode :: "('r \<Rightarrow> byte res \<times> 'r) \<Rightarrow> 'r \<Rightarrow> varint res \<times> 'r" where
  "VarInt_Decode rb r = VarInt_loop rb 0 0 r"

definition ReadVarInt :: "('r \<Rightarrow> byte res \<times> 'r) \<Rightarrow> 'r \<Rightarrow> varint res \<times> 'r" where
  "ReadVarInt rb r = VarInt_loop rb 0 0 r"

text \<open>
  \<open>ReadVarInt_ByteReader\<close> returns \<open>int(n)\<close> of the unsigned \<open>n\<close>: the value is not sign-extended.
\<close>

definition ReadVarInt_ByteReader :: "('r \<Rightarrow> byte res \<times> 'r) \<Rightarrow> 'r \<Rightarrow> go_int res \<times> 'r" where
  "ReadVarInt_ByteReader rb r = and_then (VarInt_loop rb 0 0 r) (\<lambda>n r'. (Ok (ucast n), r'))"

definition ReadNBytes_ByteReader ::
  "('r \<Rightarrow> byte res \<times> 'r) \<Rightarrow> int \<Rightarrow> 'r \<Rightarrow> byte list res \<times> 'r" where
  "ReadNBytes_ByteReader rb n r = (if n < 0 then (Panic, r) else ReadNBytes_loop rb (nat n) [] r)"

definition String_Decode :: "('r \<Rightarrow> byte res \<times> 'r) \<Rightarrow> 'r \<Rightarrow> string res \<times> 'r" where
  "String_Decode rb r =
    and_then (VarInt_Decode rb r) (\<lambda>l r1.
    and_then (ReadNBytes rb (sint l) r1) (\<lambda>bb r2. (Ok (bytes_str bb), r2)))"

definition ReadString :: "('r \<Rightarrow> byte res \<times> 'r) \<Rightarrow> 'r \<Rightarrow> string res \<times> 'r" where
  "ReadString rb r =
    and_then (ReadVarInt rb r) (\<lambda>l r1.
    and_then (ReadNBytes rb (sint l) r1) (\<lambda>bb r2. (Ok (bytes_str bb), r2)))"

definition ReadString_ByteReader :: "('r \<Rightarrow> byte res \<times> 'r) \<Rightarrow> 'r \<Rightarrow> string res \<times> 'r" where
  "ReadString_ByteReader rb r =
    and_then (ReadVarInt_ByteReader rb r) (\<lambda>len r1.
    and_then (ReadNBytes_ByteReader rb (sint len) r1) (\<lambda>bb r2. (Ok (bytes_str bb), r2)))"

definition Byte_Decode :: "('r \<Rightarrow> byte res \<times> 'r) \<Rightarrow> 'r \<Rightarrow> byte res \<times> 'r" where
  "Byte_Decode rb r = and_then (rb r) (\<lambda>v r'. (Ok v, r'))"

definition ReadByte :: "('r \<Rightarrow> byte res \<times> 'r) \<Rightarrow> 'r \<Rightarrow> byte res \<times> 'r" where
  "ReadByte rb r = and_then (rb r) (\<lambda>v r'. (Ok v, r'))"

text \<open>\<open>int16(bb[0])<<8 | int16(bb[1])\<close>.\<close>

definition be16 :: "byte list \<Rightarrow> 16 word" where
  "be16 bb = push_bit 8 (ucast (bb ! 0)) OR ucast (bb ! 1)"

definition UnsignedShort_Decode :: "('r \<Rightarrow> byte res \<times> 'r) \<Rightarrow> 'r \<Rightarrow> 16 word res \<times> 'r" where
  "UnsignedShort_Decode rb r = and_then (ReadNBytes rb 2 r) (\<lambda>bb r'. (Ok (be16 bb), r'))"

definition ReadUnsignedShort :: "('r \<Rightarrow> byte res \<times> 'r) \<Rightarrow> 'r \<Rightarrow> 16 word res \<times> 'r" where
  "ReadUnsignedShort rb r = and_then (ReadNBytes rb 2 r) (\<lambda>bb r'. (Ok (be16 bb), r'))"

definition ReadShot_ByteReader :: "('r \<Rightarrow> byte res \<times> 'r) \<Rightarrow> 'r \<Rightarrow> go_int16 res \<times> 'r" where
  "ReadShot_ByteReader rb r = and_then (ReadNBytes_ByteReader rb 2 r) (\<lambda>bb r'. (Ok (be16 bb), r'))"

definition be64 :: "byte list \<Rightarrow> 64 word" where
  "be64 bb = push_bit 56 (ucast (bb ! 0)) OR push_bit 48 (ucast (bb ! 1)) OR
    push_bit 40 (ucast (bb ! 2)) OR push_bit 32 (ucast (bb ! 3)) OR
    push_bit 24 (ucast (bb ! 4)) OR push_bit 16 (ucast (bb ! 5)) OR
    push_bit 8 (ucast (bb ! 6)) OR ucast (bb ! 7)"

definition Long_Decode :: "('r \<Rightarrow> byte res \<times> 'r) \<Rightarrow> 'r \<Rightarrow> 64 word res \<times> 'r" where
  "Long_Decode rb r = and_then (ReadNBytes rb 8 r) (\<lambda>bb r'. (Ok (be64 bb), r'))"

text \<open>
  \<open>ReadPacketSize_Bytes\<close> reads a VarInt from a slice and returns the value and the index \<open>i\<close> of its
  last byte; indexing past the end of the slice panics.
\<close>

function ReadPacketSize_loop :: "byte list \<Rightarrow> nat \<Rightarrow> varint \<Rightarrow> (go_int \<times> nat) res" where
  "ReadPacketSize_loop bs i n =
    (if length bs \<le> i then Panic
     else
       let sec = bs ! i; n' = n OR push_bit (7 * i) (ucast (sec AND 0x7F)) in
       if 5 \<le> i then Err ErrVarIntSize
       else if sec AND 0x80 = 0 then Ok (scast n', i)
       else ReadPacketSize_loop bs (Suc i) n')"
  by pat_completeness auto
termination
  by (relation "measure (\<lambda>(bs, i, n). 6 - i)") auto

declare ReadPacketSize_loop.simps [simp del]

definition ReadPacketSize_Bytes :: "byte list \<Rightarrow> (go_int \<times> nat) res" where
  "ReadPacketSize_Bytes bs = ReadPacketSize_loop bs 0 0"

section \<open>Decoders commute with the reader interface\<close>

context decode_reader
begin

lemma sim_ReadNBytes_loop:
  "ok r \<Longrightarrow> sim (ReadNBytes_loop rb n bb r) (ReadNBytes_loop stream_ReadByte n bb (abs r))"
  by (induction n arbitrary: bb r) (auto intro!: sim_and_then sim_rb sim_return)

lemma sim_VarInt_loop:
  "ok r \<Longrightarrow> sim (VarInt_loop rb i n r) (VarInt_loop stream_ReadByte i n (abs r))"
proof (induction "6 - i" arbitrary: i n r rule: less_induct)
  case less
  show ?case
    unfolding VarInt_loop.simps [of rb i n r] VarInt_loop.simps [of stream_ReadByte i n "abs r"]
    by (rule sim_and_then [OF sim_rb [OF less.prems]])
      (auto simp: Let_def intro!: sim_return less.hyps)
qed

lemma sim_ReadNBytes: "ok r \<Longrightarrow> sim (ReadNBytes rb n r) (ReadNBytes stream_ReadByte n (abs r))"
  by (simp add: ReadNBytes_def sim_return sim_ReadNBytes_loop)

lemma sim_VarInt_Decode: "ok r \<Longrightarrow> sim (VarInt_Decode rb r) (VarInt_Decode stream_ReadByte (abs r))"
  by (simp add: VarInt_Decode_def sim_VarInt_loop)

lemma sim_ReadVarInt: "ok r \<Longrightarrow> sim (ReadVarInt rb r) (ReadVarInt stream_ReadByte (abs r))"
  by (simp add: ReadVarInt_def sim_VarInt_loop)

lemma sim_ReadNBytes_ByteReader:
  "ok r \<Longrightarrow> sim (ReadNBytes_ByteReader rb n r) (ReadNBytes_ByteReader stream_ReadByte n (abs r))"
  by (simp add: ReadNBytes_ByteReader_def sim_return sim_ReadNBytes_loop)

lemma sim_ReadVarInt_ByteReader:
  "ok r \<Longrightarrow> sim (ReadVarInt_ByteReader rb r) (ReadVarInt_ByteReader stream_ReadByte (abs r))"
  unfolding ReadVarInt_ByteReader_def by (intro sim_and_then sim_VarInt_loop sim_return)

lemma sim_String_Decode: "ok r \<Longrightarrow> sim (String_Decode rb r) (String_Decode stream_ReadByte (abs r))"
  unfolding String_Decode_def by (intro sim_and_then sim_VarInt_Decode sim_ReadNBytes sim_return)

lemma sim_ReadString_ByteReader:
  "ok r \<Longrightarrow> sim (ReadString_ByteReader rb r) (ReadString_ByteReader stream_ReadByte (abs r))"
  unfolding ReadString_ByteReader_def
  by (intro sim_and_then sim_ReadVarInt_ByteReader sim_ReadNBytes_ByteReader sim_return)

lemma sim_UnsignedShort_Decode:
  "ok r \<Longrightarrow> sim (UnsignedShort_Decode rb r) (UnsignedShort_Decode stream_ReadByte (abs r))"
  unfolding UnsignedShort_Decode_def by (intro sim_and_then sim_ReadNBytes sim_return)

lemma sim_ReadShot_ByteReader:
  "ok r \<Longrightarrow> sim (ReadShot_ByteReader rb r) (ReadShot_ByteReader stream_ReadByte (abs r))"
  unfolding ReadShot_ByteReader_def by (intro sim_and_then sim_ReadNBytes_ByteReader sim_return)

lemma sim_Byte_Decode: "ok r \<Longrightarrow> sim (Byte_Decode rb r) (Byte_Decode stream_ReadByte (abs r))"
  unfolding Byte_Decode_def by (intro sim_and_then sim_rb sim_return)

lemma sim_Long_Decode: "ok r \<Longrightarrow> sim (Long_Decode rb r) (Long_Decode stream_ReadByte (abs r))"
  unfolding Long_Decode_def by (intro sim_and_then sim_ReadNBytes sim_return)

lemmas sim_intros =
  sim_and_then sim_return sim_rb sim_VarInt_Decode sim_ReadVarInt sim_ReadVarInt_ByteReader
  sim_String_Decode sim_ReadString_ByteReader sim_UnsignedShort_Decode sim_ReadShot_ByteReader
  sim_Byte_Decode sim_Long_Decode sim_ReadNBytes sim_ReadNBytes_ByteReader read_full_flat

end

text \<open>
  A reader that also holds what reading must leave alone: the write side of a connection, its
  deadline and whether it is closed.
\<close>

locale framed_reader = decode_reader rb rd abs ok
  for rb :: "'r \<Rightarrow> byte res \<times> 'r"
    and rd :: "nat \<Rightarrow> 'r \<Rightarrow> (byte list \<times> go_error option) \<times> 'r"
    and abs :: "'r \<Rightarrow> stream"
    and ok :: "'r \<Rightarrow> bool" +
  fixes frame :: "'r \<Rightarrow> 'f"
  assumes frame_rb: "frame (snd (rb r)) = frame r"
    and frame_rd: "frame (snd (rd n r)) = frame r"
begin

lemma frame_and_then:
  assumes "frame (snd m) = f" and "\<And>a r. frame r = f \<Longrightarrow> frame (snd (k a r)) = f"
  shows "frame (snd (and_then m k)) = f"
  using assms by (cases "(m, k)" rule: and_then.cases) auto

lemma frame_VarInt_loop: "frame (snd (VarInt_loop rb i n r)) = frame r"
proof (induction "6 - i" arbitrary: i n r rule: less_induct)
  case less
  show ?case
    unfolding VarInt_loop.simps [of rb i n r]
    by (rule frame_and_then [OF frame_rb]) (auto simp: Let_def less.hyps)
qed

lemma frame_ReadNBytes_loop: "frame (snd (ReadNBytes_loop rb n bb r)) = frame r"
  by (induction n arbitrary: bb r) (auto intro!: frame_and_then simp: frame_rb)

lemma frame_read_at_least: "frame (snd (read_at_least fuel rd n acc r)) = frame r"
proof (induction fuel arbitrary: acc r)
  case (Suc fuel)
  obtain bb eo r' where rd: "rd (n - length acc) r = ((bb, eo), r')" by (metis surj_pair)
  with frame_rd [of "n - length acc" r] have "frame r' = frame r" by simp
  with rd Suc.IH show ?case by (auto split: option.splits)
qed simp

lemma frame_ReadFull: "frame (snd (ReadFull rd n r)) = frame r"
  by (simp only: ReadFull_def frame_read_at_least)

lemma frame_ReadVarInt: "frame (snd (ReadVarInt rb r)) = frame r"
  by (simp add: ReadVarInt_def frame_VarInt_loop)

end

text \<open>What reading through a \<open>bufio.Reader\<close> leaves alone.\<close>

type_synonym conn_frame = "byte list \<times> go_error option \<times> bool \<times> gotime option \<times> string \<times> go_error"

definition bufio_frame :: "bufio \<Rightarrow> conn_frame" where
  "bufio_frame r =
    (let c = br_conn r in (nc_out c, nc_werr c, nc_closed c, nc_deadline c, nc_addr c, nc_end c))"

lemma conn_Read_frame:
  "nc_out (snd (conn_Read n c)) = nc_out c" "nc_werr (snd (conn_Read n c)) = nc_werr c"
  "nc_closed (snd (conn_Read n c)) = nc_closed c" "nc_deadline (snd (conn_Read n c)) = nc_deadline c"
  "nc_addr (snd (conn_Read n c)) = nc_addr c" "nc_end (snd (conn_Read n c)) = nc_end c"
  by (simp_all add: conn_Read_def split: list.splits)

interpretation buffered: framed_reader bufio_ReadByte bufio_Read bufio_stream bufio_ok bufio_frame
proof
  fix r :: bufio and n :: nat
  obtain bb eo d where fill: "conn_Read (br_size r) (br_conn r) = ((bb, eo), d)" by (metis surj_pair)
  obtain cc fo e where direct: "conn_Read n (br_conn r) = ((cc, fo), e)" by (metis surj_pair)
  note frames = conn_Read_frame [of "br_size r" "br_conn r", unfolded fill, simplified]
    conn_Read_frame [of n "br_conn r", unfolded direct, simplified]
  show "bufio_frame (snd (bufio_ReadByte r)) = bufio_frame r"
    by (auto simp: bufio_ReadByte_def bufio_frame_def Let_def fill frames split: list.splits option.splits)
  show "bufio_frame (snd (bufio_Read n r)) = bufio_frame r"
    by (auto simp: bufio_Read_def bufio_frame_def Let_def fill direct frames split: option.splits)
qed

section \<open>Seven-bit groups\<close>

lemma and_7F: "(x :: 'a::len word) AND 0x7F = take_bit 7 x"
  by (simp add: take_bit_eq_mask mask_numeral)

lemma and_80: "(b :: byte) AND 0x80 = 0 \<longleftrightarrow> \<not> bit b 7"
  using and_exp_eq_0_iff_not_bit [of b 7] by simp

lemma bit_or_80: "bit (ucast ((x :: varint) OR 0x80) :: byte) 7"
proof -
  have "bit (x OR 0x80) 7" using bit_exp_iff [of 7 7, where ?'a = varint] by (simp add: bit_or_iff)
  then show ?thesis by (simp add: bit_ucast_iff)
qed

lemma group_low: "ucast (take_bit 7 (ucast (take_bit 7 (x :: varint) OR 0x80) :: byte)) = take_bit 7 x"
proof (rule bit_word_eqI)
  fix n
  show "bit (ucast (take_bit 7 (ucast (take_bit 7 x OR 0x80) :: byte)) :: varint) n
      = bit (take_bit 7 x) n"
    using bit_exp_iff [of 7 n, where ?'a = varint] by (auto simp: bit_simps)
qed

lemma group_high: "ucast (take_bit 7 (ucast (take_bit 7 (x :: varint)) :: byte)) = take_bit 7 x"
  by (rule bit_word_eqI) (auto simp: bit_simps)

lemma group_high_bit7: "\<not> bit (ucast (take_bit 7 (x :: varint)) :: byte) 7"
  by (simp add: bit_simps)

lemma groups_join: "take_bit 7 (x :: varint) OR push_bit 7 (drop_bit 7 x) = x"
proof (rule bit_word_eqI)
  fix n assume "n < LENGTH(32)"
  then show "bit (take_bit 7 x OR push_bit 7 (drop_bit 7 x)) n = bit x n"
    by (cases "n < 7") (auto simp: bit_simps)
qed

lemma group_last: "drop_bit 7 (x :: varint) = 0 \<Longrightarrow> take_bit 7 x = x"
  using groups_join [of x] by simp

text \<open>The value of a sequence of groups, and where the first byte without the continuation bit is.\<close>

fun varint_value :: "byte list \<Rightarrow> varint" where
  "varint_value [] = 0"
| "varint_value (b # bs) = ucast (b AND 0x7F) OR push_bit 7 (varint_value bs)"

definition continues :: "byte \<Rightarrow> bool" where
  "continues b \<longleftrightarrow> b AND 0x80 \<noteq> 0"

text \<open>
  What reading a VarInt comes to on a flat stream, on every branch: the first byte without the
  continuation bit is among the first five and ends the number; or the stream ends before the sixth
  byte, whose error is returned; or six bytes are consumed and the number is too big.
\<close>

definition flat_VarInt :: "stream \<Rightarrow> varint res \<times> stream" where
  "flat_VarInt s =
    (let bs = s_bytes s; j = length (takeWhile continues bs) in
     if j < 5 \<and> j < length bs then
       (Ok (varint_value (take (Suc j) bs)), s\<lparr>s_bytes := drop (Suc j) bs\<rparr>)
     else if length bs \<le> 5 then (Err (s_end s), s\<lparr>s_bytes := []\<rparr>)
     else (Err ErrVarIntSize, s\<lparr>s_bytes := drop 6 bs\<rparr>))"

lemma VarInt_loop_flat:
  "i \<le> 5 \<Longrightarrow> VarInt_loop stream_ReadByte i n \<lparr>s_bytes = bs, s_end = e\<rparr> =
    (let j = length (takeWhile continues bs) in
     if i + j < 5 \<and> j < length bs then
       (Ok (n OR push_bit (7 * i) (varint_value (take (Suc j) bs))),
        \<lparr>s_bytes = drop (Suc j) bs, s_end = e\<rparr>)
     else if length bs \<le> 5 - i then (Err e, \<lparr>s_bytes = [], s_end = e\<rparr>)
     else (Err ErrVarIntSize, \<lparr>s_bytes = drop (6 - i) bs, s_end = e\<rparr>))"
proof (induction bs arbitrary: i n)
  case Nil
  then show ?case by (simp add: VarInt_loop.simps)
next
  case (Cons b bs)
  let ?n = "n OR push_bit (7 * i) (ucast (b AND 0x7F))"
  consider "i = 5" | "i < 5" "\<not> continues b" | "i < 5" "continues b" using Cons.prems by linarith
  then show ?case
  proof cases
    case 1
    then show ?thesis by (simp add: VarInt_loop.simps Let_def)
  next
    case 2
    then show ?thesis by (simp add: VarInt_loop.simps [of _ i] Let_def continues_def)
  next
    case 3
    then have "Suc i \<le> 5" by simp
    note IH = Cons.IH [OF this, of ?n]
    have step: "VarInt_loop stream_ReadByte i n \<lparr>s_bytes = b # bs, s_end = e\<rparr>
        = VarInt_loop stream_ReadByte (Suc i) ?n \<lparr>s_bytes = bs, s_end = e\<rparr>"
      using 3 by (simp add: VarInt_loop.simps [of _ i] Let_def continues_def)
    have assoc: "?n OR push_bit (7 * Suc i) w =
        n OR push_bit (7 * i) (ucast (b AND 0x7F) OR push_bit 7 w)" for w
      by (simp add: push_bit_or or.assoc add.commute)
    have sub: "6 - i = Suc (6 - Suc i)" using 3 by simp
    show ?thesis unfolding step IH assoc using 3 sub by (auto simp: Let_def)
  qed
qed

lemma ReadVarInt_flat: "ReadVarInt stream_ReadByte s = flat_VarInt s"
  using VarInt_loop_flat [of 0 0 "s_bytes s" "s_end s"]
  by (cases s) (simp add: ReadVarInt_def flat_VarInt_def Let_def)

lemma VarInt_Decode_flat: "VarInt_Decode stream_ReadByte s = flat_VarInt s"
  using ReadVarInt_flat [of s] by (simp add: VarInt_Decode_def ReadVarInt_def)

lemma ReadVarInt_ByteReader_flat:
  "ReadVarInt_ByteReader stream_ReadByte s = and_then (flat_VarInt s) (\<lambda>n r. (Ok (ucast n), r))"
  using ReadVarInt_flat [of s] by (simp add: ReadVarInt_ByteReader_def ReadVarInt_def)

section \<open>Encoded VarInts\<close>

lemma VarInt_Encode_last: "drop_bit 7 v = 0 \<Longrightarrow> VarInt_Encode v = [ucast (take_bit 7 v)]"
  by (simp add: VarInt_Encode.simps [of v] Let_def and_7F)

lemma VarInt_Encode_more:
  "drop_bit 7 v \<noteq> 0 \<Longrightarrow> VarInt_Encode v = ucast (take_bit 7 v OR 0x80) # VarInt_Encode (drop_bit 7 v)"
  by (simp add: VarInt_Encode.simps [of v] Let_def and_7F)

lemma VarInt_Encode_induct [case_names last more]:
  assumes "\<And>v :: varint. drop_bit 7 v = 0 \<Longrightarrow> P v"
    and "\<And>v. drop_bit 7 v \<noteq> 0 \<Longrightarrow> P (drop_bit 7 v) \<Longrightarrow> P v"
  shows "P v"
  by (induction v rule: VarInt_Encode.induct) (metis assms)

lemma VarInt_Encode_not_Nil [simp]: "VarInt_Encode v \<noteq> []"
  by (cases "drop_bit 7 v = 0") (simp_all add: VarInt_Encode_last VarInt_Encode_more)

lemma varint_value_Encode [simp]: "varint_value (VarInt_Encode v) = v"
proof (induction v rule: VarInt_Encode_induct)
  case (last v)
  then show ?case
    unfolding VarInt_Encode_last [OF last] varint_value.simps and_7F group_high
    by (simp add: group_last)
next
  case (more v)
  show ?case
    unfolding VarInt_Encode_more [OF more(1)] varint_value.simps and_7F group_low more(2)
    by (rule groups_join)
qed

lemma takeWhile_Encode [simp]:
  "length (takeWhile continues (VarInt_Encode v @ rest)) = length (VarInt_Encode v) - 1"
proof (induction v rule: VarInt_Encode_induct)
  case (last v)
  then show ?case by (simp add: VarInt_Encode_last continues_def and_80 group_high_bit7)
next
  case (more v)
  have "0 < length (VarInt_Encode (drop_bit 7 v))" by simp
  with more show ?case by (simp add: VarInt_Encode_more continues_def and_80 bit_or_80)
qed

text \<open>An encoding has \<open>k\<close> bytes or fewer exactly when the value has \<open>7 * k\<close> bits or fewer.\<close>

lemma length_VarInt_Encode_le:
  "length (VarInt_Encode v) \<le> Suc k \<longleftrightarrow> unat v < 2 ^ (7 * Suc k)"
proof (induction v arbitrary: k rule: VarInt_Encode_induct)
  case (last v)
  then have "unat v div 128 = 0" using unat_drop_bit7 [of v] by simp
  then have "unat v < 128" by (simp add: div_eq_0_iff)
  also have "(128::nat) \<le> 2 ^ (7 * Suc k)"
    using power_increasing [of 7 "7 * Suc k" "2::nat"] by simp
  finally show ?case using last by (simp add: VarInt_Encode_last)
next
  case (more v)
  then have ge: "\<not> unat v < 128" using unat_drop_bit7 [of v]
    by (metis div_less unat_0_iff)
  show ?case
  proof (cases k)
    case 0
    with ge more show ?thesis by (simp add: VarInt_Encode_more)
  next
    case (Suc m)
    have "unat v div 128 < 2 ^ (7 * Suc m) \<longleftrightarrow> unat v < 2 ^ (7 * Suc m) * 128"
      by (rule div_less_iff_less_mult) simp
    then show ?thesis using more Suc by (simp add: VarInt_Encode_more unat_drop_bit7 power_add)
  qed
qed

lemma length_VarInt_Encode_le5: "length (VarInt_Encode v) \<le> 5"
proof -
  have "unat v < 2 ^ 32" using unsigned_less [of v, where ?'a = nat] by simp
  then have "unat v < 2 ^ (7 * Suc 4)" by simp
  then show ?thesis using length_VarInt_Encode_le [of v 4] by simp
qed

lemma flat_VarInt_Encode:
  "flat_VarInt \<lparr>s_bytes = VarInt_Encode v @ rest, s_end = e\<rparr> = (Ok v, \<lparr>s_bytes = rest, s_end = e\<rparr>)"
proof -
  obtain k where k: "length (VarInt_Encode v) = Suc k"
    by (cases "VarInt_Encode v") (use VarInt_Encode_not_Nil in auto)
  with length_VarInt_Encode_le5 [of v] show ?thesis
    by (simp add: flat_VarInt_def Let_def)
qed

lemma varint_value_bound: "unat (varint_value bs) < 2 ^ (7 * length bs)"
proof (cases "7 * length bs < 32")
  case True
  have "take_bit (7 * length bs) (varint_value bs) = varint_value bs"
  proof (induction bs)
    case (Cons b bs)
    show ?case
    proof (rule bit_word_eqI)
      fix n assume "n < LENGTH(32)"
      then show "bit (take_bit (7 * length (b # bs)) (varint_value (b # bs))) n
          = bit (varint_value (b # bs)) n"
        using bit_take_bit_iff [of "7 * length bs" "varint_value bs" "n - 7"]
        by (auto simp: and_7F bit_simps Cons.IH)
    qed
  qed simp
  then have "unat (varint_value bs) = take_bit (7 * length bs) (unat (varint_value bs))"
    by (metis unsigned_take_bit_eq)
  then show ?thesis by (metis take_bit_nat_less_exp)
next
  case False
  then have "(2::nat) ^ 32 \<le> 2 ^ (7 * length bs)" by (intro power_increasing) simp_all
  moreover have "unat (varint_value bs) < 2 ^ 32"
    using unsigned_less [of "varint_value bs", where ?'a = nat] by simp
  ultimately show ?thesis by linarith
qed

section \<open>Reading bytes from a flat stream\<close>

lemma ReadNBytes_loop_flat:
  "ReadNBytes_loop stream_ReadByte n bb \<lparr>s_bytes = bs, s_end = e\<rparr> =
    (if n \<le> length bs then (Ok (bb @ take n bs), \<lparr>s_bytes = drop n bs, s_end = e\<rparr>)
     else (Err e, \<lparr>s_bytes = [], s_end = e\<rparr>))"
proof (induction n arbitrary: bb bs)
  case (Suc n)
  then show ?case by (cases bs) simp_all
qed simp

lemma ReadNBytes_append:
  "n = int (length bb) \<Longrightarrow>
   ReadNBytes stream_ReadByte n \<lparr>s_bytes = bb @ rest, s_end = e\<rparr> = (Ok bb, \<lparr>s_bytes = rest, s_end = e\<rparr>)"
  by (simp add: ReadNBytes_def ReadNBytes_loop_flat)

lemma ReadNBytes_ByteReader_eq: "ReadNBytes_ByteReader rb = ReadNBytes rb"
  by (simp add: fun_eq_iff ReadNBytes_ByteReader_def ReadNBytes_def)

section \<open>Round trips\<close>

lemma sint_word_of_nat32: "n < 2 ^ 31 \<Longrightarrow> sint (word_of_nat n :: varint) = int n"
  by (simp add: signed_of_nat signed_take_bit_int_eq_self)

lemma String_Decode_Encode:
  "length s < 2 ^ 31 \<Longrightarrow>
   String_Decode stream_ReadByte \<lparr>s_bytes = String_Encode s @ rest, s_end = e\<rparr>
     = (Ok s, \<lparr>s_bytes = rest, s_end = e\<rparr>)"
  by (simp add: String_Decode_def String_Encode_def VarInt_Decode_flat flat_VarInt_Encode
      sint_word_of_nat32 ReadNBytes_append)

lemma Byte_Decode_Encode:
  "Byte_Decode stream_ReadByte \<lparr>s_bytes = Byte_Encode b @ rest, s_end = e\<rparr>
     = (Ok b, \<lparr>s_bytes = rest, s_end = e\<rparr>)"
  by (simp add: Byte_Decode_def Byte_Encode_def)

lemma be16_Encode: "be16 (UnsignedShort_Encode n) = n"
proof (rule bit_word_eqI)
  fix i assume "i < LENGTH(16)"
  then show "bit (be16 (UnsignedShort_Encode n)) i = bit n i"
    by (cases "i < 8") (auto simp: be16_def UnsignedShort_Encode_def bit_simps)
qed

lemma length_UnsignedShort_Encode [simp]: "length (UnsignedShort_Encode n) = 2"
  by (simp add: UnsignedShort_Encode_def)

lemma UnsignedShort_Decode_Encode:
  "UnsignedShort_Decode stream_ReadByte \<lparr>s_bytes = UnsignedShort_Encode n @ rest, s_end = e\<rparr>
     = (Ok n, \<lparr>s_bytes = rest, s_end = e\<rparr>)"
  by (simp add: UnsignedShort_Decode_def ReadNBytes_append be16_Encode)

lemma length_Long_Encode [simp]: "length (Long_Encode n) = 8"
  by (simp add: Long_Encode_def)

text \<open>The octet of a long at bit \<open>k\<close>, put back in its place.\<close>

lemma bit_octet:
  "bit (push_bit k (ucast (ucast (drop_bit k n) :: byte)) :: 64 word) i \<longleftrightarrow>
    i < 64 \<and> k \<le> i \<and> i < k + 8 \<and> bit (n :: 64 word) i"
  by (auto simp: bit_push_bit_iff bit_ucast_iff bit_drop_bit_eq dest: bit_imp_le_length)

lemma be64_Encode: "be64 (Long_Encode n) = n"
proof -
  let ?o = "\<lambda>k. push_bit k (ucast (ucast (drop_bit k n) :: byte)) :: 64 word"
  have eq: "be64 (Long_Encode n) =
     ?o 56 OR ?o 48 OR ?o 40 OR ?o 32 OR ?o 24 OR ?o 16 OR ?o 8 OR ?o 0"
    by (simp add: be64_def Long_Encode_def)
  show ?thesis
  proof (rule bit_word_eqI)
    fix i assume "i < LENGTH(64)"
    then have i: "i < 64" by simp
    show "bit (be64 (Long_Encode n)) i = bit n i"
      unfolding eq bit_or_iff bit_octet using i by (cases "bit n i") (simp_all, presburger)
  qed
qed

lemma Long_Decode_Encode:
  "Long_Decode stream_ReadByte \<lparr>s_bytes = Long_Encode n @ rest, s_end = e\<rparr>
     = (Ok n, \<lparr>s_bytes = rest, s_end = e\<rparr>)"
  by (simp add: Long_Decode_def ReadNBytes_append be64_Encode)

lemma flat_VarInt_Ok:
  assumes "flat_VarInt s = (Ok l, s1)"
  obtains pre where "s_bytes s = pre @ s_bytes s1" "1 \<le> length pre" "length pre \<le> 5"
    "l = varint_value pre" "s_end s1 = s_end s"
proof
  let ?j = "length (takeWhile continues (s_bytes s))"
  from assms have "?j < 5" "?j < length (s_bytes s)" "l = varint_value (take (Suc ?j) (s_bytes s))"
    "s1 = s\<lparr>s_bytes := drop (Suc ?j) (s_bytes s)\<rparr>"
    by (auto simp: flat_VarInt_def Let_def split: if_splits)
  then show "s_bytes s = take (Suc ?j) (s_bytes s) @ s_bytes s1"
    "1 \<le> length (take (Suc ?j) (s_bytes s))" "length (take (Suc ?j) (s_bytes s)) \<le> 5"
    "l = varint_value (take (Suc ?j) (s_bytes s))" "s_end s1 = s_end s"
    by simp_all
qed

lemma flat_VarInt_not_Panic: "flat_VarInt s \<noteq> (Panic, s')"
  by (simp add: flat_VarInt_def Let_def)

lemma flat_VarInt_Err:
  "flat_VarInt s = (Err e, s') \<Longrightarrow> (e = s_end s \<or> e = ErrVarIntSize) \<and> s_end s' = s_end s"
  by (auto simp: flat_VarInt_def Let_def split: if_splits)

lemma sint_nonneg_word: "0 \<le> sint l \<Longrightarrow> sint l = uint (l :: varint)"
  using uint_sint [of l] sint_less [of l] by (simp add: take_bit_int_eq_self)

section \<open>Properties\<close>

text \<open>
  C2: The VarInt decoder over a buffered connection refines a decoder over the flat byte sequence:
  result and rest of the stream do not depend on how the bytes are cut into segments, errors
  included.
\<close>

theorem ReadVarInt_any_segments:
  assumes "bufio_ok r"
  shows "fst (ReadVarInt bufio_ReadByte r) = fst (flat_VarInt (bufio_stream r)) \<and>
    bufio_stream (snd (ReadVarInt bufio_ReadByte r)) = snd (flat_VarInt (bufio_stream r))"
  using buffered.sim_ReadVarInt [OF assms] by (simp add: buffered.sim_def ReadVarInt_flat)

theorem ReadVarInt_any_segments_witness:
  "fst (ReadVarInt bufio_ReadByte (bufio_NewReader
     \<lparr>nc_in = [[0xAC], [0x02, 0x07]], nc_end = ErrEOF, nc_out = [], nc_werr = None,
      nc_closed = False, nc_deadline = None, nc_addr = ''c''\<rparr>)) = Ok 300"
  (is "fst (ReadVarInt _ (bufio_NewReader ?c)) = _")
proof -
  have "bufio_ok (bufio_NewReader ?c)" by (simp add: conn_ok_def)
  from ReadVarInt_any_segments [OF this] show ?thesis
    by (simp add: flat_VarInt_def Let_def continues_def)
qed

text \<open>
  C3: Decoding an encoded VarInt gives the number back and stops right after its encoding, for every
  32-bit number.
\<close>

theorem VarInt_roundtrip:
  assumes "bufio_ok r" and "s_bytes (bufio_stream r) = VarInt_Encode v @ rest"
  shows "fst (ReadVarInt bufio_ReadByte r) = Ok v \<and>
    s_bytes (bufio_stream (snd (ReadVarInt bufio_ReadByte r))) = rest"
proof -
  from assms(2) have "bufio_stream r = \<lparr>s_bytes = VarInt_Encode v @ rest, s_end = s_end (bufio_stream r)\<rparr>"
    by (cases "bufio_stream r") simp
  then have "flat_VarInt (bufio_stream r) = (Ok v, \<lparr>s_bytes = rest, s_end = s_end (bufio_stream r)\<rparr>)"
    by (metis flat_VarInt_Encode)
  with buffered.sim_ReadVarInt [OF assms(1)] show ?thesis
    by (simp add: buffered.sim_def ReadVarInt_flat)
qed

theorem VarInt_roundtrip_witness:
  "fst (ReadVarInt bufio_ReadByte (bufio_NewReader
     \<lparr>nc_in = [[0xFF, 0xFF], [0xFF, 0xFF, 0x0F]], nc_end = ErrEOF, nc_out = [], nc_werr = None,
      nc_closed = False, nc_deadline = None, nc_addr = ''c''\<rparr>)) = Ok 0xFFFFFFFF"
  (is "fst (ReadVarInt _ (bufio_NewReader ?c)) = _")
proof -
  have "VarInt_Encode 0xFFFFFFFF = [0xFF, 0xFF, 0xFF, 0xFF, 0x0F]"
    by (simp add: VarInt_Encode.simps Let_def)
  then show ?thesis
    using VarInt_roundtrip [of "bufio_NewReader ?c" "0xFFFFFFFF" "[]"] by (simp add: conn_ok_def)
qed

text \<open>
  No encoding of a number that the decoder accepts is shorter than the one of VarInt_Encode, and
  none is longer than five bytes.
\<close>

theorem VarInt_Encode_shortest:
  assumes "ReadVarInt stream_ReadByte s = (Ok v, s')"
  shows "length (VarInt_Encode v) + length (s_bytes s') \<le> length (s_bytes s) \<and>
    length (s_bytes s) \<le> length (s_bytes s') + 5"
proof -
  let ?bs = "s_bytes s" and ?j = "length (takeWhile continues (s_bytes s))"
  from assms have j: "?j < 5" "?j < length ?bs" and v: "v = varint_value (take (Suc ?j) ?bs)"
    and s': "s_bytes s' = drop (Suc ?j) ?bs"
    by (auto simp: ReadVarInt_flat flat_VarInt_def Let_def split: if_splits)
  have "length (take (Suc ?j) ?bs) = Suc ?j" using j(2) by simp
  then have "unat v < 2 ^ (7 * Suc ?j)"
    using varint_value_bound [of "take (Suc ?j) ?bs"] v by metis
  then have "length (VarInt_Encode v) \<le> Suc ?j" using length_VarInt_Encode_le [of v ?j] by blast
  moreover have "length (s_bytes s') = length ?bs - Suc ?j" using s' by simp
  ultimately show ?thesis using j by linarith
qed

theorem VarInt_Encode_shortest_witness:
  "length (VarInt_Encode 0) \<le> length [0x80, 0x80, 0x00 :: byte]"
proof -
  have "ReadVarInt stream_ReadByte (bytes_NewReader [0x80, 0x80, 0x00]) = (Ok 0, bytes_NewReader [])"
    by (simp add: ReadVarInt_flat flat_VarInt_def bytes_NewReader_def Let_def continues_def)
  from VarInt_Encode_shortest [OF this] show ?thesis by (simp add: bytes_NewReader_def)
qed

end
