(* ===== verification/Mc_Packet.thy ===== *)
theory Mc_Packet
  imports Mc_Type
begin

text \<open>
  Packets (mc/packet.go) and the packet side of a connection (mc/conn.go): a packet is an id and
  data, and on the wire the length of the two as a VarInt, the id byte and the data. The data of a
  packet is a sequence of fields.
\<close>

section \<open>Packets and fields\<close>

record Packet =
  pk_ID :: byte
  pk_Data :: "byte list"

definition empty_packet :: Packet where
  "empty_packet = \<lparr>pk_ID = 0, pk_Data = []\<rparr>"

text \<open>
  The arguments of \<open>MarshalPacket\<close> and \<open>Scan\<close> are of the interface types \<open>FieldEncoder\<close> and
  \<open>FieldDecoder\<close>; the types that implement them are the constructors here.
\<close>

datatype field =
    FVarInt varint
  | FString string
  | FUnsignedShort "16 word"
  | FByte byte
  | FLong "64 word"

datatype field_type = TVarInt | TString | TUnsignedShort | TByte | TLong

fun type_of_field :: "field \<Rightarrow> field_type" where
  "type_of_field (FVarInt _) = TVarInt"
| "type_of_field (FString _) = TString"
| "type_of_field (FUnsignedShort _) = TUnsignedShort"
| "type_of_field (FByte _) = TByte"
| "type_of_field (FLong _) = TLong"

fun Encode :: "field \<Rightarrow> byte list" where
  "Encode (FVarInt v) = VarInt_Encode v"
| "Encode (FString s) = String_Encode s"
| "Encode (FUnsignedShort n) = UnsignedShort_Encode n"
| "Encode (FByte b) = Byte_Encode b"
| "Encode (FLong l) = Long_Encode l"

fun Decode :: "('r \<Rightarrow> byte res \<times> 'r) \<Rightarrow> field_type \<Rightarrow> 'r \<Rightarrow> field res \<times> 'r" where
  "Decode rb TVarInt r = and_then (VarInt_Decode rb r) (\<lambda>v r'. (Ok (FVarInt v), r'))"
| "Decode rb TString r = and_then (String_Decode rb r) (\<lambda>s r'. (Ok (FString s), r'))"
| "Decode rb TUnsignedShort r =
    and_then (UnsignedShort_Decode rb r) (\<lambda>n r'. (Ok (FUnsignedShort n), r'))"
| "Decode rb TByte r = and_then (Byte_Decode rb r) (\<lambda>b r'. (Ok (FByte b), r'))"
| "Decode rb TLong r = and_then (Long_Decode rb r) (\<lambda>l r'. (Ok (FLong l), r'))"

fun ScanFields :: "('r \<Rightarrow> byte res \<times> 'r) \<Rightarrow> field_type list \<Rightarrow> 'r \<Rightarrow> field list res \<times> 'r" where
  "ScanFields rb [] r = (Ok [], r)"
| "ScanFields rb (t # ts) r =
    and_then (Decode rb t r) (\<lambda>f r1.
    and_then (ScanFields rb ts r1) (\<lambda>fs r2. (Ok (f # fs), r2)))"

text \<open>\<open>Packet.Scan\<close> decodes from a \<open>bytes.Reader\<close> over the packet's data.\<close>

definition Scan :: "Packet \<Rightarrow> field_type list \<Rightarrow> field list res" where
  "Scan pk ts = fst (ScanFields stream_ReadByte ts (bytes_NewReader (pk_Data pk)))"

fun append_fields :: "byte list \<Rightarrow> field list \<Rightarrow> byte list" where
  "append_fields d [] = d"
| "append_fields d (v # vs) = append_fields (d @ Encode v) vs"

definition MarshalPacket :: "byte \<Rightarrow> field list \<Rightarrow> Packet" where
  "MarshalPacket ID fs = \<lparr>pk_ID = ID, pk_Data = append_fields [] fs\<rparr>"

definition Packet_Marshal :: "Packet \<Rightarrow> byte list" where
  "Packet_Marshal pk =
    (let data = pk_ID pk # pk_Data pk; packetLength = VarInt_Encode (word_of_nat (length data))
     in packetLength @ data)"

section \<open>Reading packets\<close>

text \<open>
  The second half of the packet readers: \<open>make([]byte, packetLength)\<close>, \<open>io.ReadFull\<close> and the
  wrapping of its error.
\<close>

definition read_body ::
  "(nat \<Rightarrow> 'r \<Rightarrow> (byte list \<times> go_error option) \<times> 'r) \<Rightarrow> int \<Rightarrow> 'r \<Rightarrow> byte list res \<times> 'r" where
  "read_body rd packetLength r =
    (if packetLength < 1 then (Err ErrPacketTooShort, r)
     else (case ReadFull rd (nat packetLength) r of
        (Err e, r') \<Rightarrow> (Err (ErrReadBody e), r')
      | x \<Rightarrow> x))"

definition ReadPacketBytes ::
  "('r \<Rightarrow> byte res \<times> 'r) \<Rightarrow> (nat \<Rightarrow> 'r \<Rightarrow> (byte list \<times> go_error option) \<times> 'r) \<Rightarrow> 'r \<Rightarrow>
    byte list res \<times> 'r" where
  "ReadPacketBytes rb rd r =
    and_then (VarInt_Decode rb r) (\<lambda>packetLength r1. read_body rd (sint packetLength) r1)"

definition ReadPacketOld ::
  "('r \<Rightarrow> byte res \<times> 'r) \<Rightarrow> (nat \<Rightarrow> 'r \<Rightarrow> (byte list \<times> go_error option) \<times> 'r) \<Rightarrow> 'r \<Rightarrow>
    Packet res \<times> 'r" where
  "ReadPacketOld rb rd r =
    and_then (ReadPacketBytes rb rd r) (\<lambda>data r1. (Ok \<lparr>pk_ID = hd data, pk_Data = tl data\<rparr>, r1))"

definition ReadPacket ::
  "('r \<Rightarrow> byte res \<times> 'r) \<Rightarrow> (nat \<Rightarrow> 'r \<Rightarrow> (byte list \<times> go_error option) \<times> 'r) \<Rightarrow> 'r \<Rightarrow>
    Packet res \<times> 'r" where
  "ReadPacket rb rd r =
    and_then (ReadVarInt rb r) (\<lambda>packetLength r1.
    and_then (read_body rd (sint packetLength) r1) (\<lambda>data r2.
      (Ok \<lparr>pk_ID = hd data, pk_Data = tl data\<rparr>, r2)))"

definition ReadPacket3 ::
  "('r \<Rightarrow> byte res \<times> 'r) \<Rightarrow> (nat \<Rightarrow> 'r \<Rightarrow> (byte list \<times> go_error option) \<times> 'r) \<Rightarrow> 'r \<Rightarrow>
    Packet res \<times> 'r" where
  "ReadPacket3 rb rd r =
    and_then (ReadVarInt_ByteReader rb r) (\<lambda>packetLength r1.
    and_then (read_body rd (sint packetLength) r1) (\<lambda>data r2.
      (Ok \<lparr>pk_ID = hd data, pk_Data = tl data\<rparr>, r2)))"

definition ReadPacket_WithBytes :: "byte list \<Rightarrow> Packet res" where
  "ReadPacket_WithBytes b = fst (ReadPacket3 stream_ReadByte stream_Read (bytes_NewReader b))"

section \<open>Connections\<close>

text \<open>
  \<open>mcConn\<close> pairs a connection with a buffered reader on it; the reader holds the connection, so the
  model of an \<open>mcConn\<close> is the \<open>bufio\<close> record, and its \<open>br_conn\<close> the connection. Bytes that were
  buffered and not consumed are lost when the \<open>mcConn\<close> is dropped.
\<close>

definition NewMcConn :: "net_conn \<Rightarrow> bufio" where
  "NewMcConn conn = bufio_NewReader conn"

definition mcConn_ReadPacket :: "bufio \<Rightarrow> Packet res \<times> bufio" where
  "mcConn_ReadPacket m = ReadPacket bufio_ReadByte bufio_Read m"

definition mcConn_WritePacket :: "Packet \<Rightarrow> bufio \<Rightarrow> unit res \<times> bufio" where
  "mcConn_WritePacket p m =
    (case conn_Write (Packet_Marshal p) (br_conn m) of (x, c) \<Rightarrow> (x, m\<lparr>br_conn := c\<rparr>))"

definition mcConn_WriteMcPacket :: "Packet \<Rightarrow> bufio \<Rightarrow> unit res \<times> bufio" where
  "mcConn_WriteMcPacket s m =
    (let p = s in case conn_Write (Packet_Marshal p) (br_conn m) of (x, c) \<Rightarrow> (x, m\<lparr>br_conn := c\<rparr>))"

section \<open>Simulation by flat streams\<close>

context decode_reader
begin

lemma sim_read_body:
  assumes "ok r"
  shows "sim (read_body rd n r) (read_body stream_Read n (abs r))"
proof -
  have "sim (ReadFull rd (nat n) r) (ReadFull stream_Read (nat n) (abs r))"
    using read_full_flat [OF assms, of "nat n"] flat.read_full_flat [of "nat n" "abs r"]
    by (simp add: sim_def flat.sim_def prod_eq_iff)
  then show ?thesis using assms
    by (auto simp: read_body_def sim_def split: prod.splits res.splits)
qed

lemma sim_Decode: "ok r \<Longrightarrow> sim (Decode rb t r) (Decode stream_ReadByte t (abs r))"
  by (cases t) (auto intro!: sim_intros)

lemma sim_ScanFields: "ok r \<Longrightarrow> sim (ScanFields rb ts r) (ScanFields stream_ReadByte ts (abs r))"
  by (induction ts arbitrary: r) (auto intro!: sim_intros sim_Decode)

lemma sim_ReadPacket:
  "ok r \<Longrightarrow> sim (ReadPacket rb rd r) (ReadPacket stream_ReadByte stream_Read (abs r))"
  unfolding ReadPacket_def by (intro sim_intros sim_read_body)

lemma sim_ReadPacketOld:
  "ok r \<Longrightarrow> sim (ReadPacketOld rb rd r) (ReadPacketOld stream_ReadByte stream_Read (abs r))"
  unfolding ReadPacketOld_def ReadPacketBytes_def by (intro sim_intros sim_read_body)

lemma sim_ReadPacket3:
  "ok r \<Longrightarrow> sim (ReadPacket3 rb rd r) (ReadPacket3 stream_ReadByte stream_Read (abs r))"
  unfolding ReadPacket3_def by (intro sim_intros sim_read_body)

end

context framed_reader
begin

lemma frame_read_body: "frame (snd (read_body rd n r)) = frame r"
  using frame_ReadFull [of "nat n" r] by (auto simp: read_body_def split: prod.splits res.splits)

lemma frame_ReadPacket: "frame (snd (ReadPacket rb rd r)) = frame r"
  unfolding ReadPacket_def
  by (intro frame_and_then frame_ReadVarInt) (auto intro!: frame_and_then simp: frame_read_body)

end

section \<open>Fields and packets on flat streams\<close>

lemma append_fields_concat: "append_fields d fs = d @ concat (map Encode fs)"
  by (induction fs arbitrary: d) simp_all

lemma pk_Data_MarshalPacket [simp]: "pk_Data (MarshalPacket ID fs) = concat (map Encode fs)"
  by (simp add: MarshalPacket_def append_fields_concat)

lemma pk_ID_MarshalPacket [simp]: "pk_ID (MarshalPacket ID fs) = ID"
  by (simp add: MarshalPacket_def)

text \<open>A field whose length fits the VarInt in front of it.\<close>

fun field_ok :: "field \<Rightarrow> bool" where
  "field_ok (FString s) \<longleftrightarrow> length s < 2 ^ 31"
| "field_ok _ \<longleftrightarrow> True"

lemma Decode_Encode:
  "field_ok f \<Longrightarrow> Decode stream_ReadByte (type_of_field f) \<lparr>s_bytes = Encode f @ rest, s_end = e\<rparr>
    = (Ok f, \<lparr>s_bytes = rest, s_end = e\<rparr>)"
  by (cases f) (simp_all add: VarInt_Decode_flat flat_VarInt_Encode String_Decode_Encode
      UnsignedShort_Decode_Encode Byte_Decode_Encode Long_Decode_Encode)

lemma ScanFields_Encode:
  "list_all field_ok fs \<Longrightarrow>
   ScanFields stream_ReadByte (map type_of_field fs) \<lparr>s_bytes = concat (map Encode fs) @ rest, s_end = e\<rparr>
    = (Ok fs, \<lparr>s_bytes = rest, s_end = e\<rparr>)"
  by (induction fs) (simp_all add: Decode_Encode)

lemma Scan_MarshalPacket:
  "list_all field_ok fs \<Longrightarrow> Scan (MarshalPacket ID fs) (map type_of_field fs) = Ok fs"
  using ScanFields_Encode [of fs "[]" ErrEOF] by (simp add: Scan_def bytes_NewReader_def)

text \<open>\<open>io.ReadFull\<close> and the packet readers on a flat stream, on every branch.\<close>

lemma ReadFull_stream: "ReadFull stream_Read n s = flat_ReadFull n s"
  using flat.read_full_flat [of n s] by (simp add: flat.sim_def prod_eq_iff)

lemma flat_ReadFull_ok:
  "n = length bb \<Longrightarrow>
   flat_ReadFull n \<lparr>s_bytes = bb @ rest, s_end = e\<rparr> = (Ok bb, \<lparr>s_bytes = rest, s_end = e\<rparr>)"
  by (simp add: flat_ReadFull_def flat_at_least_def)

lemma read_body_ok:
  "bb \<noteq> [] \<Longrightarrow> n = int (length bb) \<Longrightarrow>
   read_body stream_Read n \<lparr>s_bytes = bb @ rest, s_end = e\<rparr> = (Ok bb, \<lparr>s_bytes = rest, s_end = e\<rparr>)"
  by (simp add: read_body_def ReadFull_stream flat_ReadFull_ok Suc_leI)

lemma ReadPacket_Marshal:
  assumes "length (pk_Data pk) < 2 ^ 31 - 1"
  shows "ReadPacket stream_ReadByte stream_Read \<lparr>s_bytes = Packet_Marshal pk @ rest, s_end = e\<rparr>
    = (Ok pk, \<lparr>s_bytes = rest, s_end = e\<rparr>)"
proof -
  have "sint (word_of_nat (Suc (length (pk_Data pk))) :: varint) = int (Suc (length (pk_Data pk)))"
    using assms by (intro sint_word_of_nat32) simp
  then show ?thesis
    using read_body_ok [of "pk_ID pk # pk_Data pk" "int (Suc (length (pk_Data pk)))" rest e]
    by (simp add: ReadPacket_def Packet_Marshal_def Let_def ReadVarInt_flat flat_VarInt_Encode
        del: of_nat_Suc)
qed

lemma hd_tl_packet: "\<lparr>pk_ID = hd (b # bs), pk_Data = tl (b # bs)\<rparr> = \<lparr>pk_ID = b, pk_Data = bs\<rparr>"
  by simp

lemma read_body_cases:
  assumes "read_body stream_Read n s = (x, s')"
  obtains (short) "n < 1" "x = Err ErrPacketTooShort" "s' = s"
  | (body) "1 \<le> n" "nat n \<le> length (s_bytes s)" "x = Ok (take (nat n) (s_bytes s))"
      "s' = s\<lparr>s_bytes := drop (nat n) (s_bytes s)\<rparr>"
  | (cut) e where "1 \<le> n" "length (s_bytes s) < nat n" "x = Err (ErrReadBody e)"
      "e = (if s_bytes s \<noteq> [] \<and> s_end s = ErrEOF then ErrUnexpectedEOF else s_end s)"
      "s' = s\<lparr>s_bytes := []\<rparr>"
  using assms
  by (auto simp: read_body_def ReadFull_stream flat_ReadFull_def flat_at_least_def Let_def
      split: if_splits)

lemma ReadPacketOld_eq: "ReadPacketOld rb rd r = ReadPacket rb rd r"
  by (simp add: ReadPacketOld_def ReadPacketBytes_def ReadPacket_def VarInt_Decode_def
      ReadVarInt_def and_then_assoc)

section \<open>Properties\<close>

text \<open>
  Scanning a marshalled packet with the types of its fields gives the fields back.
\<close>

theorem fields_roundtrip:
  assumes "list_all field_ok fs"
  shows "Scan (MarshalPacket ID fs) (map type_of_field fs) = Ok fs"
  using assms by (rule Scan_MarshalPacket)

theorem fields_roundtrip_witness:
  "Scan (MarshalPacket 5 [FString ''uv'', FLong 7, FVarInt 300]) [TString, TLong, TVarInt]
    = Ok [FString ''uv'', FLong 7, FVarInt 300]"
  using fields_roundtrip [of "[FString ''uv'', FLong 7, FVarInt 300]" 5] by simp

text \<open>
  C1: Whatever way the bytes of a marshalled packet arrive in segments, ReadPacket of a new McConn
  returns exactly that packet, consumes exactly its frame and leaves the rest of the stream unread.
  The packet's data must be shorter than 2^31 - 1 bytes.
\<close>

theorem packet_roundtrip:
  assumes "conn_ok c" and "concat (nc_in c) = Packet_Marshal pk @ rest"
    and "length (pk_Data pk) < 2 ^ 31 - 1"
  shows "\<exists>m. mcConn_ReadPacket (NewMcConn c) = (Ok pk, m) \<and>
    bufio_stream m = \<lparr>s_bytes = rest, s_end = nc_end c\<rparr> \<and> bufio_ok m \<and>
    bufio_frame m = bufio_frame (NewMcConn c)"
proof -
  have "bufio_ok (bufio_NewReader c)" using assms(1) by simp
  from buffered.sim_ReadPacket [OF this] buffered.frame_ReadPacket [of "bufio_NewReader c"] show ?thesis
    using ReadPacket_Marshal [OF assms(3), of rest "nc_end c"] assms(2)
    by (simp add: buffered.sim_def mcConn_ReadPacket_def NewMcConn_def prod_eq_iff)
qed

theorem packet_roundtrip_witness:
  "\<exists>m. mcConn_ReadPacket (NewMcConn \<lparr>nc_in = [[3], [0, 7, 8], [9]], nc_end = ErrEOF, nc_out = [],
      nc_werr = None, nc_closed = False, nc_deadline = None, nc_addr = ''c''\<rparr>)
    = (Ok \<lparr>pk_ID = 0, pk_Data = [7, 8]\<rparr>, m) \<and> s_bytes (bufio_stream m) = [9]"
  (is "\<exists>m. mcConn_ReadPacket (NewMcConn ?c) = (Ok ?pk, m) \<and> _")
proof -
  have "Packet_Marshal ?pk = [3, 0, 7, 8]"
    by (simp add: Packet_Marshal_def VarInt_Encode.simps Let_def)
  then have "concat (nc_in ?c) = Packet_Marshal ?pk @ [9]" by simp
  from packet_roundtrip [OF _ this] show ?thesis by (auto simp: conn_ok_def)
qed


end
