(* ===== verification/Mc_Login.thy ===== *)
theory Mc_Login
  imports Mc_Packet
begin

text \<open>
  The packets of the handshake and login states (mc/packet_login.go, and the handshake reader of
  mc/packet.go): the handshake, its three decoders and the rewriting of its address for RealIP, the
  login start packet and the disconnect packet.
\<close>

section \<open>The handshake\<close>

datatype HandshakeState = UnknownState | Status | Login

definition RequestState :: "byte \<Rightarrow> HandshakeState" where
  "RequestState n = (if n = 1 then Status else if n = 2 then Login else UnknownState)"

record ServerBoundHandshake =
  hs_ProtocolVersion :: go_int
  hs_ServerAddress :: string
  hs_ServerPort :: go_int16
  hs_NextState :: byte

text \<open>\<open>var hs ServerBoundHandshake\<close>: the zero value.\<close>

definition zero_handshake :: ServerBoundHandshake where
  "zero_handshake =
    \<lparr>hs_ProtocolVersion = 0, hs_ServerAddress = [], hs_ServerPort = 0, hs_NextState = 0\<rparr>"

definition Handshake_Marshal :: "ServerBoundHandshake \<Rightarrow> Packet" where
  "Handshake_Marshal pk =
    MarshalPacket 0x00
      [FVarInt (ucast (hs_ProtocolVersion pk)), FString (hs_ServerAddress pk),
       FUnsignedShort (hs_ServerPort pk), FVarInt (ucast (hs_NextState pk))]"

definition Handshake_MarshalPacket :: "ServerBoundHandshake \<Rightarrow> Packet" where
  "Handshake_MarshalPacket pk = Handshake_Marshal pk"

definition handshake_types :: "field_type list" where
  "handshake_types = [TVarInt, TString, TUnsignedShort, TVarInt]"

fun handshake_of_fields :: "field list \<Rightarrow> ServerBoundHandshake" where
  "handshake_of_fields [FVarInt version, FString addr, FUnsignedShort port, FVarInt next] =
    \<lparr>hs_ProtocolVersion = scast version, hs_ServerAddress = addr, hs_ServerPort = port,
     hs_NextState = ucast next\<rparr>"
| "handshake_of_fields _ = zero_handshake"

text \<open>With an error, \<open>UnmarshalServerBoundHandshake\<close> returns the zero handshake.\<close>

definition UnmarshalServerBoundHandshake :: "Packet \<Rightarrow> ServerBoundHandshake res" where
  "UnmarshalServerBoundHandshake packet =
    (if pk_ID packet \<noteq> 0x00 then Err ErrInvalidPacketID
     else res_bind (Scan packet handshake_types) (\<lambda>fs. Ok (handshake_of_fields fs)))"

text \<open>
  The other decoders fill in the handshake field by field and return what they have so far together
  with the error: \<open>Ok (hs, Some e)\<close>. \<open>or_return\<close> is the \<open>if err != nil { return hs, err }\<close> after
  each read.
\<close>

fun or_return ::
  "'a res \<times> 'r \<Rightarrow> 'h \<Rightarrow> ('a \<Rightarrow> 'r \<Rightarrow> ('h \<times> go_error option) res \<times> 'r) \<Rightarrow>
    ('h \<times> go_error option) res \<times> 'r" where
  "or_return (Ok a, r) hs k = k a r"
| "or_return (Err e, r) hs k = (Ok (hs, Some e), r)"
| "or_return (Panic, r) hs k = (Panic, r)"

definition read_handshake_fields ::
  "('r \<Rightarrow> byte res \<times> 'r) \<Rightarrow> ServerBoundHandshake \<Rightarrow> 'r \<Rightarrow>
    (ServerBoundHandshake \<times> go_error option) res \<times> 'r" where
  "read_handshake_fields rb hs r =
    or_return (ReadVarInt_ByteReader rb r) hs (\<lambda>version r1.
    let hs1 = hs\<lparr>hs_ProtocolVersion := version\<rparr> in
    or_return (ReadString_ByteReader rb r1) hs1 (\<lambda>addr r2.
    let hs2 = hs1\<lparr>hs_ServerAddress := addr\<rparr> in
    or_return (ReadShot_ByteReader rb r2) hs2 (\<lambda>port r3.
    let hs3 = hs2\<lparr>hs_ServerPort := port\<rparr> in
    or_return (ReadVarInt_ByteReader rb r3) hs3 (\<lambda>state r4.
      (Ok (hs3\<lparr>hs_NextState := ucast state\<rparr>, None), r4)))))"

definition UnmarshalServerBoundHandshake2 ::
  "Packet \<Rightarrow> (ServerBoundHandshake \<times> go_error option) res" where
  "UnmarshalServerBoundHandshake2 packet =
    (if pk_ID packet \<noteq> 0x00 then Ok (zero_handshake, Some ErrInvalidPacketID)
     else fst (read_handshake_fields stream_ReadByte zero_handshake (bytes_NewReader (pk_Data packet))))"

definition UnmarshalServerBoundHandshake_ByteReader ::
  "('r \<Rightarrow> byte res \<times> 'r) \<Rightarrow> 'r \<Rightarrow> (ServerBoundHandshake \<times> go_error option) res \<times> 'r" where
  "UnmarshalServerBoundHandshake_ByteReader rb r =
    or_return (rb r) zero_handshake (\<lambda>packetID r1.
      if packetID \<noteq> 0x00 then (Ok (zero_handshake, Some ErrInvalidPacketID), r1)
      else read_handshake_fields rb zero_handshake r1)"

text \<open>\<open>ReadPacket3_Handshake\<close> of mc/packet.go reads the length, the id and the fields in one pass.\<close>

definition ReadPacket3_Handshake ::
  "('r \<Rightarrow> byte res \<times> 'r) \<Rightarrow> 'r \<Rightarrow> (ServerBoundHandshake \<times> go_error option) res \<times> 'r" where
  "ReadPacket3_Handshake rb r =
    or_return (ReadVarInt_ByteReader rb r) zero_handshake (\<lambda>packetLength r1.
      if sint packetLength < 1 then (Ok (zero_handshake, Some ErrPacketTooShort), r1)
      else or_return (ReadVarInt_ByteReader rb r1) zero_handshake (\<lambda>packetID r2.
        if packetID \<noteq> 0x00 then (Ok (zero_handshake, Some ErrInvalidPacketID), r2)
        else read_handshake_fields rb zero_handshake r2))"

definition Handshake_State :: "ServerBoundHandshake \<Rightarrow> HandshakeState" where
  "Handshake_State hs =
    (if hs_NextState hs = 1 then Status else if hs_NextState hs = 2 then Login else UnknownState)"

definition IsStatusRequest :: "ServerBoundHandshake \<Rightarrow> bool" where
  "IsStatusRequest hs \<longleftrightarrow> (ucast (hs_NextState hs) :: varint) = 1"

definition IsLoginRequest :: "ServerBoundHandshake \<Rightarrow> bool" where
  "IsLoginRequest hs \<longleftrightarrow> (ucast (hs_NextState hs) :: varint) = 2"

section \<open>The server address\<close>

definition ForgeSeparator :: string where
  "ForgeSeparator = [CHR 0x00]"

definition RealIPSeparator :: string where
  "RealIPSeparator = ''///''"

definition IsForgeAddress :: "ServerBoundHandshake \<Rightarrow> bool" where
  "IsForgeAddress hs \<longleftrightarrow> 1 < length (Split ForgeSeparator (hs_ServerAddress hs))"

definition IsRealIPAddress :: "ServerBoundHandshake \<Rightarrow> bool" where
  "IsRealIPAddress hs \<longleftrightarrow> 1 < length (Split RealIPSeparator (hs_ServerAddress hs))"

definition ParseServerAddress :: "ServerBoundHandshake \<Rightarrow> string" where
  "ParseServerAddress hs =
    (let addr = hs_ServerAddress hs;
         addr1 = Split ForgeSeparator addr ! 0
     in Split RealIPSeparator addr1 ! 0)"

text \<open>\<open>unix\<close> is \<open>stamp.Unix()\<close>.\<close>

definition UpgradeToOldRealIP_WithTime ::
  "string \<Rightarrow> int \<Rightarrow> ServerBoundHandshake \<Rightarrow> ServerBoundHandshake" where
  "UpgradeToOldRealIP_WithTime clientAddr unix hs =
    (if IsRealIPAddress hs then hs
     else
       let addrWithForge = SplitN ForgeSeparator 3 (hs_ServerAddress hs);
           addr = addrWithForge ! 0 @ ''///'' @ clientAddr @ ''///'' @ show_int unix;
           addr' = (if 1 < length addrWithForge
                    then addr @ [CHR 0x00] @ addrWithForge ! 1 @ [CHR 0x00] else addr)
       in hs\<lparr>hs_ServerAddress := addr'\<rparr>)"

text \<open>\<open>unix\<close> is \<open>time.Now().Unix()\<close>.\<close>

definition UpgradeToOldRealIP :: "string \<Rightarrow> int \<Rightarrow> ServerBoundHandshake \<Rightarrow> ServerBoundHandshake" where
  "UpgradeToOldRealIP clientAddr unix hs = UpgradeToOldRealIP_WithTime clientAddr unix hs"

text \<open>\<open>base64.StdEncoding.EncodeToString\<close>: six bits per character, padded to groups of four.\<close>

definition b64_char :: "nat \<Rightarrow> char" where
  "b64_char n =
    (if n < 26 then char_of (65 + n) else if n < 52 then char_of (71 + n)
     else if n < 62 then char_of (n - 4) else if n = 62 then CHR ''+'' else CHR ''/'')"

fun b64 :: "byte list \<Rightarrow> string" where
  "b64 [] = []"
| "b64 [a] =
    (let n = unat a * 65536
     in [b64_char (n div 262144), b64_char (n div 4096 mod 64), CHR ''='', CHR ''=''])"
| "b64 [a, b] =
    (let n = unat a * 65536 + unat b * 256
     in [b64_char (n div 262144), b64_char (n div 4096 mod 64), b64_char (n div 64 mod 64), CHR ''=''])"
| "b64 (a # b # c # s) =
    (let n = unat a * 65536 + unat b * 256 + unat c
     in [b64_char (n div 262144), b64_char (n div 4096 mod 64), b64_char (n div 64 mod 64),
         b64_char (n mod 64)] @ b64 s)"

text \<open>
  A private key is the list of its encoded bytes, or \<open>None\<close> for a nil pointer. \<open>UpgradeToNewRealIP\<close>
  signs the upgraded address; the parameter \<open>sign\<close> stands for the SHA-512 hash and the ECDSA signature
  with its randomness. The second component is the error returned; the handshake has been upgraded to
  the old format even then.
\<close>

type_synonym ecdsa_key = "byte list option"

definition UpgradeToNewRealIP ::
  "(ecdsa_key \<Rightarrow> byte list \<Rightarrow> byte list res) \<Rightarrow> ecdsa_key \<Rightarrow> string \<Rightarrow> int \<Rightarrow>
    ServerBoundHandshake \<Rightarrow> ServerBoundHandshake \<times> unit res" where
  "UpgradeToNewRealIP sign key clientAddr unix hs =
    (let hs1 = UpgradeToOldRealIP_WithTime clientAddr unix hs
     in case sign key (str_bytes (hs_ServerAddress hs1)) of
          Ok bytes \<Rightarrow> (hs1\<lparr>hs_ServerAddress := hs_ServerAddress hs1 @ ''///'' @ b64 bytes\<rparr>, Ok ())
        | Err e \<Rightarrow> (hs1, Err e)
        | Panic \<Rightarrow> (hs1, Panic))"

section \<open>Login start and disconnect\<close>

record ServerLoginStart =
  ls_Name :: string

definition ServerLoginStart_Marshal :: "ServerLoginStart \<Rightarrow> Packet" where
  "ServerLoginStart_Marshal pk = MarshalPacket 0x00 [FString (ls_Name pk)]"

definition ServerLoginStart_MarshalPacket :: "ServerLoginStart \<Rightarrow> Packet" where
  "ServerLoginStart_MarshalPacket pk = ServerLoginStart_Marshal pk"

fun name_of_fields :: "field list \<Rightarrow> string" where
  "name_of_fields [FString s] = s"
| "name_of_fields _ = []"

definition UnmarshalServerBoundLoginStart :: "Packet \<Rightarrow> ServerLoginStart res" where
  "UnmarshalServerBoundLoginStart packet =
    (if pk_ID packet \<noteq> 0x00 then Err ErrInvalidPacketID
     else res_bind (Scan packet [TString]) (\<lambda>fs. Ok \<lparr>ls_Name = name_of_fields fs\<rparr>))"

text \<open>\<open>ClientBoundDisconnect\<close> and \<open>DisconnectClient\<close>, whose reason is a \<open>Chat\<close>, an alias of String.\<close>

definition DisconnectClient_Marshal :: "string \<Rightarrow> Packet" where
  "DisconnectClient_Marshal reason = MarshalPacket 0x00 [FString reason]"

definition DisconnectClient_MarshalPacket :: "string \<Rightarrow> Packet" where
  "DisconnectClient_MarshalPacket reason = DisconnectClient_Marshal reason"

definition ClientBoundDisconnect_Marshal :: "string \<Rightarrow> Packet" where
  "ClientBoundDisconnect_Marshal reason = MarshalPacket 0x00 [FString reason]"

definition ClientBoundDisconnect_MarshalPacket :: "string \<Rightarrow> Packet" where
  "ClientBoundDisconnect_MarshalPacket reason = ClientBoundDisconnect_Marshal reason"

definition UnmarshalClientDisconnect :: "Packet \<Rightarrow> string res" where
  "UnmarshalClientDisconnect packet =
    (if pk_ID packet \<noteq> 0x00 then Err ErrInvalidPacketID
     else res_bind (Scan packet [TString]) (\<lambda>fs. Ok (name_of_fields fs)))"

section \<open>Facts about addresses\<close>

lemma separators_not_Nil [simp]: "ForgeSeparator \<noteq> []" "RealIPSeparator \<noteq> []"
  by (simp_all add: ForgeSeparator_def RealIPSeparator_def)

lemma nth0_Split:
  "sep \<noteq> [] \<Longrightarrow> Split sep s ! 0 = (case Cut sep s of None \<Rightarrow> s | Some (a, b) \<Rightarrow> a)"
  using hd_Split [of sep s] Split_not_Nil [of sep s] by (simp add: hd_conv_nth)

lemma IsForgeAddress_iff: "IsForgeAddress hs \<longleftrightarrow> CHR 0x00 \<in> set (hs_ServerAddress hs)"
  using length_Split_gt1 [of ForgeSeparator "hs_ServerAddress hs"]
  by (simp add: IsForgeAddress_def Contains_def ForgeSeparator_def Cut_char_None)

lemma IsRealIPAddress_iff: "IsRealIPAddress hs \<longleftrightarrow> Contains (hs_ServerAddress hs) RealIPSeparator"
  by (simp add: IsRealIPAddress_def length_Split_gt1)

text \<open>The part of an address before the first NUL, and before the first \<open>///\<close> of that.\<close>

definition before :: "string \<Rightarrow> string \<Rightarrow> string" where
  "before sep s = (case Cut sep s of None \<Rightarrow> s | Some (a, b) \<Rightarrow> a)"

lemma ParseServerAddress_before:
  "ParseServerAddress hs = before RealIPSeparator (before ForgeSeparator (hs_ServerAddress hs))"
  by (simp add: ParseServerAddress_def before_def nth0_Split Let_def)

lemma before_char: "x \<notin> set s \<Longrightarrow> before [x] (s @ x # t) = s"
  by (simp add: before_def Cut_char)

lemma before_char_none: "x \<notin> set s \<Longrightarrow> before [x] s = s"
  by (simp add: before_def Cut_char_None [THEN iffD2])

lemma before_free: "sep \<noteq> [] \<Longrightarrow> Cut sep (before sep s) = None"
  by (auto simp: before_def Cut_free_prefix split: option.splits)

lemma before_prefix: "\<exists>t. s = before sep s @ t"
  by (auto simp: before_def dest: Cut_eq split: option.splits)

lemma before_id: "Cut sep s = None \<Longrightarrow> before sep s = s"
  by (simp add: before_def)

lemma SplitN3_parts:
  assumes "sep \<noteq> []"
  shows "SplitN sep 3 s ! 0 = before sep s"
    and "Suc 0 < length (SplitN sep 3 s) \<longleftrightarrow> Cut sep s \<noteq> None"
    and "Cut sep s = Some (a, b) \<Longrightarrow> SplitN sep 3 s ! Suc 0 = before sep b"
  by (auto simp: before_def numeral_3_eq_3 split: option.splits)

text \<open>
  The first \<open>///\<close> after a host name that holds none and does not end in a slash is the one put there.
\<close>

lemma Cut_slashes:
  assumes "Cut ''///'' a = None" and "a = [] \<or> last a \<noteq> CHR ''/''"
  shows "Cut ''///'' (a @ ''///'' @ t) = Some (a, t)"
  using assms
proof (induction a)
  case Nil
  then show ?case by simp
next
  case (Cons c a)
  from Cons.prems(1) have free: "Cut ''///'' a = None" and hd: "take 3 (c # a) \<noteq> ''///''"
    by (auto simp: numeral_eq_Suc split: if_splits)
  from Cons.prems(2) have "a = [] \<or> last a \<noteq> CHR ''/''" by auto
  with free have IH: "Cut ''///'' (a @ ''///'' @ t) = Some (a, t)" by (rule Cons.IH)
  have "take 3 (c # a @ ''///'' @ t) \<noteq> ''///''"
  proof
    assume eq: "take 3 (c # a @ ''///'' @ t) = ''///''"
    then have c: "c = CHR ''/''" by simp
    with Cons.prems(2) have "a \<noteq> []" by auto
    then obtain d a' where a: "a = d # a'" by (cases a) auto
    with eq have d: "d = CHR ''/''" by simp
    with a c Cons.prems(2) have "a' \<noteq> []" by auto
    then obtain e a'' where "a' = e # a''" by (cases a') auto
    with eq a c d hd show False by (simp add: numeral_eq_Suc)
  qed
  with IH show ?case by (simp add: numeral_eq_Suc)
qed

section \<open>Facts about handshakes\<close>

lemma RequestState_cases:
  "RequestState n = Status \<longleftrightarrow> n = 1" "RequestState n = Login \<longleftrightarrow> n = 2"
  "RequestState n = UnknownState \<longleftrightarrow> n \<noteq> 1 \<and> n \<noteq> 2"
  by (auto simp: RequestState_def)

lemma ucast_ucast_byte: "ucast (ucast (b :: byte) :: varint) = b"
  by (rule bit_word_eqI) (auto simp: bit_simps)

text \<open>The handshake that comes back: the protocol version is cut to 32 bits and sign-extended.\<close>

lemma UnmarshalServerBoundHandshake_Marshal:
  assumes "length (hs_ServerAddress hs) < 2 ^ 31"
  shows "UnmarshalServerBoundHandshake (Handshake_Marshal hs) =
    Ok (hs\<lparr>hs_ProtocolVersion := scast (ucast (hs_ProtocolVersion hs) :: varint)\<rparr>)"
proof -
  let ?fs = "[FVarInt (ucast (hs_ProtocolVersion hs)), FString (hs_ServerAddress hs),
    FUnsignedShort (hs_ServerPort hs), FVarInt (ucast (hs_NextState hs))]"
  have "list_all field_ok ?fs" using assms by simp
  from Scan_MarshalPacket [OF this, of 0]
  have "Scan (Handshake_Marshal hs) handshake_types = Ok ?fs"
    by (simp add: Handshake_Marshal_def handshake_types_def)
  then show ?thesis
    by (simp add: UnmarshalServerBoundHandshake_def Handshake_Marshal_def ucast_ucast_byte)
qed

lemma UnmarshalServerBoundLoginStart_Marshal:
  "length name < 2 ^ 31 \<Longrightarrow>
   UnmarshalServerBoundLoginStart (ServerLoginStart_Marshal \<lparr>ls_Name = name\<rparr>) = Ok \<lparr>ls_Name = name\<rparr>"
  using Scan_MarshalPacket [of "[FString name]" 0]
  by (simp add: UnmarshalServerBoundLoginStart_def ServerLoginStart_Marshal_def)

lemma pk_ID_Marshal [simp]:
  "pk_ID (Handshake_Marshal hs) = 0" "pk_ID (ServerLoginStart_Marshal l) = 0"
  "pk_ID (ClientBoundDisconnect_Marshal r) = 0"
  by (simp_all add: Handshake_Marshal_def ServerLoginStart_Marshal_def ClientBoundDisconnect_Marshal_def)

section \<open>The two families of readers\<close>

lemma uint_ge_of_sint_neg: "sint l < 0 \<Longrightarrow> 2 ^ 31 \<le> uint (l :: varint)"
proof (rule ccontr)
  assume "sint l < 0" and "\<not> 2 ^ 31 \<le> uint l"
  then have "signed_take_bit 31 (uint l) = uint l"
    by (intro signed_take_bit_int_eq_self) (simp_all add: order_trans [OF _ uint_ge_0])
  then have "sint l = uint l" by (simp add: sint_uint)
  with \<open>sint l < 0\<close> show False by (simp add: not_less)
qed

lemma sint_ucast_64: "sint (ucast (l :: varint) :: go_int) = uint l"
proof -
  have bound: "uint l < 2 ^ 32" using uint_lt2p [of l] by simp
  then have "signed_take_bit 63 (uint l) = uint l"
    by (intro signed_take_bit_int_eq_self) (simp_all add: order_trans [OF _ uint_ge_0])
  moreover have "take_bit 64 (uint l) = uint l"
    using bound by (intro take_bit_int_eq_self) simp_all
  ultimately show ?thesis by (simp add: sint_uint unsigned_ucast_eq)
qed

text \<open>
  The two string readers on a flat stream agree, but for a length that is negative as a VarInt: the one
  panics, the other asks for two gigabytes or more and runs into the end of the data.
\<close>

lemma ReadString_ByteReader_flat:
  assumes "length (s_bytes s) < 2 ^ 31"
  shows "ReadString_ByteReader stream_ReadByte s =
    (case String_Decode stream_ReadByte s of
       (Panic, s') \<Rightarrow> (Err (s_end s), s'\<lparr>s_bytes := []\<rparr>)
     | (Ok a, s') \<Rightarrow> (Ok a, s')
     | (Err e, s') \<Rightarrow> (Err e, s'))"
proof -
  obtain x s1 where v: "flat_VarInt s = (x, s1)" by fastforce
  show ?thesis
  proof (cases x)
    case (Ok l)
    with v obtain pre where pre: "s_bytes s = pre @ s_bytes s1" "s_end s1 = s_end s"
      by (auto elim: flat_VarInt_Ok)
    obtain bs e where s1: "s1 = \<lparr>s_bytes = bs, s_end = e\<rparr>" by (cases s1) auto
    show ?thesis
    proof (cases "sint l < 0")
      case True
      then have "2 ^ 31 \<le> uint l" by (rule uint_ge_of_sint_neg)
      moreover have "int (length bs) < 2 ^ 31" using assms pre(1) s1 by simp
      moreover have "uint l = int (unat l)" by simp
      ultimately have "\<not> unat l \<le> length bs" by linarith
      with True v Ok s1 pre(2) show ?thesis
        by (simp add: ReadString_ByteReader_def String_Decode_def ReadVarInt_ByteReader_flat
            VarInt_Decode_flat sint_ucast_64 ReadNBytes_ByteReader_eq ReadNBytes_def ReadNBytes_loop_flat)
    next
      case False
      then have "sint l = uint l" by (intro sint_nonneg_word) simp
      with v Ok show ?thesis
        by (auto simp: ReadString_ByteReader_def String_Decode_def ReadVarInt_ByteReader_flat
            VarInt_Decode_flat sint_ucast_64 ReadNBytes_ByteReader_eq ReadNBytes_def s1 ReadNBytes_loop_flat)
    qed
  next
    case (Err e)
    with v show ?thesis
      by (simp add: ReadString_ByteReader_def String_Decode_def ReadVarInt_ByteReader_flat VarInt_Decode_flat)
  next
    case Panic
    with v flat_VarInt_not_Panic show ?thesis by blast
  qed
qed

lemma ReadShot_ByteReader_eq: "ReadShot_ByteReader rb = UnsignedShort_Decode rb"
  by (simp add: fun_eq_iff ReadShot_ByteReader_def UnsignedShort_Decode_def ReadNBytes_ByteReader_eq)

lemma take_bit_scast: "take_bit 32 (scast (v :: varint) :: go_int) = ucast v"
proof (rule bit_word_eqI)
  fix n
  show "bit (take_bit 32 (scast v :: go_int)) n = bit (ucast v :: go_int) n"
    by (cases "n = 31") (auto simp: bit_simps min_def dest: bit_imp_le_length)
qed

lemma ucast_scast_byte: "(ucast (ucast (v :: varint) :: go_int) :: byte) = ucast v"
  by (rule bit_word_eqI) (auto simp: bit_simps)

text \<open>What the handshake readers come to on a flat stream, against \<open>ScanFields\<close>.\<close>

lemma read_handshake_fields_flat:
  assumes len: "length (s_bytes s) < 2 ^ 31"
  shows "case fst (ScanFields stream_ReadByte handshake_types s) of
      Ok fs \<Rightarrow> fst (read_handshake_fields stream_ReadByte hs0 s) =
        Ok ((handshake_of_fields fs)
          \<lparr>hs_ProtocolVersion := take_bit 32 (hs_ProtocolVersion (handshake_of_fields fs))\<rparr>, None)
    | Err e \<Rightarrow> \<exists>hs. fst (read_handshake_fields stream_ReadByte hs0 s) = Ok (hs, Some e)
    | Panic \<Rightarrow> \<exists>hs. fst (read_handshake_fields stream_ReadByte hs0 s) = Ok (hs, Some (s_end s))"
proof -
  note defs = read_handshake_fields_def handshake_types_def VarInt_Decode_flat
    ReadVarInt_ByteReader_flat ReadShot_ByteReader_eq Let_def
  obtain x1 s1 where v1: "flat_VarInt s = (x1, s1)" by fastforce
  show ?thesis
  proof (cases x1)
    case (Ok version)
    with v1 obtain pre where pre: "s_bytes s = pre @ s_bytes s1" "s_end s1 = s_end s"
      by (auto elim: flat_VarInt_Ok)
    with len have "length (s_bytes s1) < 2 ^ 31" by simp
    note str = ReadString_ByteReader_flat [OF this]
    obtain x2 s2 where v2: "String_Decode stream_ReadByte s1 = (x2, s2)" by fastforce
    show ?thesis
    proof (cases x2)
      case ok2: (Ok addr)
      obtain x3 s3 where v3: "UnsignedShort_Decode stream_ReadByte s2 = (x3, s3)" by fastforce
      obtain x4 s4 where v4: "flat_VarInt s3 = (x4, s4)" by fastforce
      have "x3 \<noteq> Panic" using v3
        by (cases s2) (auto simp: UnsignedShort_Decode_def ReadNBytes_def ReadNBytes_loop_flat
            split: if_splits)
      moreover have "x4 \<noteq> Panic" using v4 flat_VarInt_not_Panic by blast
      ultimately show ?thesis
        using v1 v2 v3 v4 Ok ok2 str
        by (cases x3; cases x4) (simp_all add: defs take_bit_scast ucast_scast_byte)
    qed (use v1 v2 Ok str pre in \<open>simp_all add: defs\<close>)
  next
    case Panic
    with v1 flat_VarInt_not_Panic show ?thesis by blast
  qed (use v1 in \<open>simp add: defs\<close>)
qed


lemma scast_ucast_32:
  assumes "- (2 ^ 31) \<le> sint (w :: go_int)" and "sint w < 2 ^ 31"
  shows "scast (ucast w :: varint) = w"
proof -
  have "sint (ucast w :: varint) = signed_take_bit 31 (uint w)" 
    by (simp add: sint_uint unsigned_ucast_eq signed_take_bit_take_bit)
  also have "\<dots> = signed_take_bit 31 (sint w)"
    by (simp add: sint_uint min_def)
  also have "\<dots> = sint w" using assms by (intro signed_take_bit_int_eq_self) simp_all
  finally show ?thesis by (metis of_int_sint scast_id)
qed

lemma Handshake_Marshal_length:
  assumes "length (hs_ServerAddress hs) < 2 ^ 31 - 20"
  shows "length (pk_Data (Handshake_Marshal hs)) < 2 ^ 31 - 1"
proof -
  let ?v = "VarInt_Encode (ucast (hs_ProtocolVersion hs))"
  let ?l = "VarInt_Encode (word_of_nat (length (hs_ServerAddress hs)))"
  let ?n = "VarInt_Encode (ucast (hs_NextState hs))"
  have "length (pk_Data (Handshake_Marshal hs)) =
      length ?v + (length ?l + length (hs_ServerAddress hs)) + 2 + length ?n"
    by (simp add: Handshake_Marshal_def String_Encode_def Let_def)
  moreover have "length ?v \<le> 5" "length ?l \<le> 5" "length ?n \<le> 5"
    by (rule length_VarInt_Encode_le5)+
  ultimately show ?thesis using assms by simp
qed

lemma nul_show_int: "CHR 0x00 \<notin> set (show_int i)"
proof -
  have "CHR 0x00 \<notin> set (show_nat n)" for n
  proof
    assume "CHR 0x00 \<in> set (show_nat n)"
    then obtain d where "d < 10" "CHR 0x00 = digit_char d" using set_show_nat by blast
    then have "of_char (CHR 0x00) = 48 + d" using of_digit_char [of d] by (simp only:)
    then show False by simp
  qed
  then show ?thesis by (simp add: show_int_def)
qed

lemma before_no_forge: "CHR 0x00 \<notin> set (before ForgeSeparator s)"
  using before_free [of ForgeSeparator s] by (simp add: ForgeSeparator_def Cut_char_None)

text \<open>An address without \<open>///\<close>, before and after the upgrade.\<close>

lemma host_before_forge:
  assumes "\<not> IsRealIPAddress hs"
  shows "before ForgeSeparator (hs_ServerAddress hs) = ParseServerAddress hs"
proof -
  let ?f = "before ForgeSeparator (hs_ServerAddress hs)"
  from assms have "Cut RealIPSeparator (hs_ServerAddress hs) = None"
    unfolding IsRealIPAddress_iff Contains_def by blast
  moreover obtain t where "hs_ServerAddress hs = ?f @ t" using before_prefix by blast
  ultimately have "Cut RealIPSeparator ?f = None"
    by (metis Cut_None_iff append_assoc separators_not_Nil(2))
  then show ?thesis by (simp add: ParseServerAddress_before before_id)
qed

lemma upgraded_address:
  assumes "\<not> IsRealIPAddress hs"
  shows "\<exists>t. hs_ServerAddress (UpgradeToOldRealIP_WithTime clientAddr unix hs) =
      before ForgeSeparator (hs_ServerAddress hs) @ ''///'' @ clientAddr @ ''///'' @ show_int unix @ t \<and>
    (t = [] \<or> (\<exists>t'. t = CHR 0x00 # t')) \<and>
    (t = [] \<longleftrightarrow> Cut ForgeSeparator (hs_ServerAddress hs) = None)"
  using assms SplitN3_parts(1,2) [of ForgeSeparator "hs_ServerAddress hs"]
  by (auto simp: UpgradeToOldRealIP_WithTime_def Let_def simp del: SplitN.simps)

section \<open>Properties\<close>

text \<open>
  C5: A handshake packet sent to the proxy is read and unmarshalled to the same handshake, for every
  address, port and next state and every protocol version in the 32-bit range.
\<close>

theorem handshake_roundtrip:
  assumes "conn_ok c" and "concat (nc_in c) = Packet_Marshal (Handshake_Marshal hs) @ rest"
    and "length (hs_ServerAddress hs) < 2 ^ 31 - 20"
    and "- (2 ^ 31) \<le> sint (hs_ProtocolVersion hs)" "sint (hs_ProtocolVersion hs) < 2 ^ 31"
  shows "\<exists>pk m. mcConn_ReadPacket (NewMcConn c) = (Ok pk, m) \<and>
    UnmarshalServerBoundHandshake pk = Ok hs \<and>
    bufio_stream m = \<lparr>s_bytes = rest, s_end = nc_end c\<rparr>"
proof -
  have len: "length (pk_Data (Handshake_Marshal hs)) < 2 ^ 31 - 1"
    using assms(3) by (rule Handshake_Marshal_length)
  have "scast (ucast (hs_ProtocolVersion hs) :: varint) = hs_ProtocolVersion hs"
    using assms(4,5) by (rule scast_ucast_32)
  then have un: "UnmarshalServerBoundHandshake (Handshake_Marshal hs) = Ok hs"
    using UnmarshalServerBoundHandshake_Marshal [of hs] assms(3) by simp
  have "bufio_ok (bufio_NewReader c)" using assms(1) by simp
  from buffered.sim_ReadPacket [OF this] un show ?thesis
    using ReadPacket_Marshal [OF len, of rest "nc_end c"] assms(2)
    by (simp add: buffered.sim_def mcConn_ReadPacket_def NewMcConn_def prod_eq_iff)
qed

theorem handshake_roundtrip_witness:
  "\<exists>pk m. mcConn_ReadPacket (NewMcConn \<lparr>nc_in = [[7, 0], [47, 1, 97], [99, 221, 2], [9]],
      nc_end = ErrEOF, nc_out = [], nc_werr = None, nc_closed = False, nc_deadline = None,
      nc_addr = ''c''\<rparr>) = (Ok pk, m) \<and>
    UnmarshalServerBoundHandshake pk = Ok \<lparr>hs_ProtocolVersion = 47, hs_ServerAddress = ''a'',
      hs_ServerPort = 25565, hs_NextState = 2\<rparr> \<and> s_bytes (bufio_stream m) = [9]"
  (is "\<exists>pk m. mcConn_ReadPacket (NewMcConn ?c) = _ \<and> _ = Ok ?hs \<and> _")
proof -
  have "Packet_Marshal (Handshake_Marshal ?hs) = [7, 0, 47, 1, 97, 99, 221, 2]"
    by (simp add: Packet_Marshal_def Handshake_Marshal_def MarshalPacket_def String_Encode_def
        str_bytes_def UnsignedShort_Encode_def VarInt_Encode.simps Let_def)
  then have "concat (nc_in ?c) = Packet_Marshal (Handshake_Marshal ?hs) @ [9]" by simp
  from handshake_roundtrip [OF _ this] show ?thesis by (auto simp: conn_ok_def)
qed

text \<open>
  C6: The optimised handshake decoder UnmarshalServerBoundHandshake2 agrees with the reference
  decoder, except that it keeps the version's 32 bits without sign extension and reports an error
  where the reference decoder panics.
\<close>

theorem handshake_decoders_agree:
  assumes "length (pk_Data pk) < 2 ^ 31"
  shows "case UnmarshalServerBoundHandshake pk of
      Ok hs \<Rightarrow> UnmarshalServerBoundHandshake2 pk =
        Ok (hs\<lparr>hs_ProtocolVersion := take_bit 32 (hs_ProtocolVersion hs)\<rparr>, None)
    | Err e \<Rightarrow> \<exists>hs. UnmarshalServerBoundHandshake2 pk = Ok (hs, Some e)
    | Panic \<Rightarrow> \<exists>hs. UnmarshalServerBoundHandshake2 pk = Ok (hs, Some ErrEOF)"
  using read_handshake_fields_flat [of "bytes_NewReader (pk_Data pk)" zero_handshake] assms
  by (cases "fst (ScanFields stream_ReadByte handshake_types (bytes_NewReader (pk_Data pk)))")
    (auto simp: UnmarshalServerBoundHandshake_def UnmarshalServerBoundHandshake2_def Scan_def
      bytes_NewReader_def)

theorem handshake_decoders_agree_witness:
  "UnmarshalServerBoundHandshake2 \<lparr>pk_ID = 0, pk_Data = [0xFF, 0xFF, 0xFF, 0xFF, 0x0F, 0, 0, 1, 2]\<rparr>
    = Ok (\<lparr>hs_ProtocolVersion = 0xFFFFFFFF, hs_ServerAddress = [], hs_ServerPort = 1,
      hs_NextState = 2\<rparr>, None)"
  (is "UnmarshalServerBoundHandshake2 ?pk = _")
proof -
  have "UnmarshalServerBoundHandshake ?pk = Ok \<lparr>hs_ProtocolVersion = - 1, hs_ServerAddress = [],
      hs_ServerPort = 1, hs_NextState = 2\<rparr>"
    by (simp add: UnmarshalServerBoundHandshake_def Scan_def handshake_types_def bytes_NewReader_def
        VarInt_Decode_flat flat_VarInt_def Let_def continues_def String_Decode_def ReadNBytes_def
        UnsignedShort_Decode_def ReadNBytes_loop_flat be16_def bytes_str_def)
  with handshake_decoders_agree [of ?pk] show ?thesis by (simp add: mask_numeral)
qed

text \<open>
  C7: The reference handshake decoder panics exactly on a packet with id 0 whose version is readable
  and whose address length is negative, so a client can crash the proxy with one packet.
\<close>

theorem handshake_panics_iff:
  "UnmarshalServerBoundHandshake pk = Panic \<longleftrightarrow> pk_ID pk = 0 \<and>
    (\<exists>v l s1 s2. flat_VarInt (bytes_NewReader (pk_Data pk)) = (Ok v, s1) \<and>
      flat_VarInt s1 = (Ok l, s2) \<and> sint l < 0)"
proof -
  have short: "UnsignedShort_Decode stream_ReadByte s \<noteq> (Panic, s')" for s s'
    by (cases s) (simp add: UnsignedShort_Decode_def ReadNBytes_def ReadNBytes_loop_flat)
  have str: "String_Decode stream_ReadByte s = (Panic, s') \<longleftrightarrow>
      (\<exists>l. flat_VarInt s = (Ok l, s') \<and> sint l < 0)" for s s'
    by (cases "flat_VarInt s"; cases "fst (flat_VarInt s)"; cases "snd (flat_VarInt s)")
      (auto simp: String_Decode_def VarInt_Decode_flat ReadNBytes_def ReadNBytes_loop_flat
        flat_VarInt_not_Panic)
  show ?thesis
    by (auto simp: UnmarshalServerBoundHandshake_def res_bind_Panic_iff Scan_def handshake_types_def
        VarInt_Decode_flat fst_Panic_iff and_then_Panic_iff and_then_Ok_iff str short flat_VarInt_not_Panic)
qed




end
