(* ===== verification/Mc_Status.thy ===== *)
theory Mc_Status
  imports Mc_Login
begin

text \<open>
  The packets of the status state (mc/packet_status.go): the response, whose only field is a JSON
  text, the request and the ping. The JSON encoding of strings and structs is the one of
  \<open>encoding/json\<close>, with its escaping of HTML characters; the parser of string literals at the end of
  the definitions is a specification to compare it with.
\<close>

section \<open>JSON\<close>

abbreviation quote :: char where "quote \<equiv> CHR 0x22"
abbreviation backslash :: char where "backslash \<equiv> CHR 0x5C"

definition hex_char :: "nat \<Rightarrow> char" where
  "hex_char d = (if d < 10 then char_of (48 + d) else char_of (87 + d))"

text \<open>
  One character of a string literal: quotes and backslashes are escaped by a backslash, newline,
  carriage return and tab by a letter, the other control characters and \<open><\<close>, \<open>>\<close> and \<open>&\<close> as \<open>\u00XX\<close>.
\<close>

definition json_char :: "char \<Rightarrow> string" where
  "json_char c =
    (if c = quote \<or> c = backslash then [backslash, c]
     else if c = CHR 0x0A then [backslash, CHR ''n'']
     else if c = CHR 0x0D then [backslash, CHR ''r'']
     else if c = CHR 0x09 then [backslash, CHR ''t'']
     else if of_char c < (32 :: nat) \<or> c = CHR ''<'' \<or> c = CHR ''>'' \<or> c = CHR ''&''
     then [backslash, CHR ''u'', CHR ''0'', CHR ''0'', hex_char (of_char c div 16),
       hex_char (of_char c mod 16)]
     else [c])"

text \<open>
  The literal of an ASCII string. A string with a byte of 0x80 or more is decoded as UTF-8; the
  characters between its quotes are then \<open>uni s\<close>.
\<close>

definition json_string :: "(string \<Rightarrow> string) \<Rightarrow> string \<Rightarrow> string" where
  "json_string uni s =
    quote # (if list_all is_ascii s then concat (map json_char s) else uni s) @ [quote]"

definition json_key :: "string \<Rightarrow> string \<Rightarrow> string" where
  "json_key k v = quote # k @ [quote, CHR '':''] @ v"

fun json_join :: "string list \<Rightarrow> string" where
  "json_join [] = []"
| "json_join [v] = v"
| "json_join (v # vs) = v @ '','' @ json_join vs"

definition json_object :: "string list \<Rightarrow> string" where
  "json_object kvs = ''{'' @ json_join kvs @ ''}''"

section \<open>The status response\<close>

record VersionJSON =
  vj_Name :: string
  vj_Protocol :: go_int

record PlayerSampleJSON =
  ps_Name :: string
  ps_ID :: string

text \<open>A nil slice is \<open>None\<close>: it is encoded as \<open>null\<close>.\<close>

record PlayersJSON =
  pj_Max :: go_int
  pj_Online :: go_int
  pj_Sample :: "PlayerSampleJSON list option"

record DescriptionJSON =
  dj_Text :: string

record ResponseJSON =
  rj_Version :: VersionJSON
  rj_Players :: PlayersJSON
  rj_Description :: DescriptionJSON
  rj_Favicon :: string

definition zero_players :: PlayersJSON where
  "zero_players = \<lparr>pj_Max = 0, pj_Online = 0, pj_Sample = None\<rparr>"

definition json_Version :: "(string \<Rightarrow> string) \<Rightarrow> VersionJSON \<Rightarrow> string" where
  "json_Version uni v = json_object
    [json_key ''name'' (json_string uni (vj_Name v)),
     json_key ''protocol'' (show_int (sint (vj_Protocol v)))]"

definition json_Sample :: "(string \<Rightarrow> string) \<Rightarrow> PlayerSampleJSON \<Rightarrow> string" where
  "json_Sample uni p = json_object
    [json_key ''name'' (json_string uni (ps_Name p)), json_key ''id'' (json_string uni (ps_ID p))]"

definition json_Players :: "(string \<Rightarrow> string) \<Rightarrow> PlayersJSON \<Rightarrow> string" where
  "json_Players uni p = json_object
    [json_key ''max'' (show_int (sint (pj_Max p))),
     json_key ''online'' (show_int (sint (pj_Online p))),
     json_key ''sample'' (case pj_Sample p of None \<Rightarrow> ''null''
       | Some ps \<Rightarrow> ''['' @ json_join (map (json_Sample uni) ps) @ '']'')]"

definition json_Description :: "(string \<Rightarrow> string) \<Rightarrow> DescriptionJSON \<Rightarrow> string" where
  "json_Description uni d = json_object [json_key ''text'' (json_string uni (dj_Text d))]"

definition json_Response :: "(string \<Rightarrow> string) \<Rightarrow> ResponseJSON \<Rightarrow> string" where
  "json_Response uni r = json_object
    [json_key ''version'' (json_Version uni (rj_Version r)),
     json_key ''players'' (json_Players uni (rj_Players r)),
     json_key ''description'' (json_Description uni (rj_Description r)),
     json_key ''favicon'' (json_string uni (rj_Favicon r))]"

record ClientBoundResponse =
  cr_JSONResponse :: string

definition ClientBoundResponse_Marshal :: "ClientBoundResponse \<Rightarrow> Packet" where
  "ClientBoundResponse_Marshal pk = MarshalPacket 0x00 [FString (cr_JSONResponse pk)]"

definition UnmarshalClientBoundResponse :: "Packet \<Rightarrow> ClientBoundResponse res" where
  "UnmarshalClientBoundResponse packet =
    (if pk_ID packet \<noteq> 0x00 then Err ErrInvalidPacketID
     else res_bind (Scan packet [TString]) (\<lambda>fs. Ok \<lparr>cr_JSONResponse = name_of_fields fs\<rparr>))"

record SimpleStatus =
  ss_Name :: string
  ss_Protocol :: go_int
  ss_Description :: string
  ss_Favicon :: string

definition zero_status :: SimpleStatus where
  "zero_status = \<lparr>ss_Name = [], ss_Protocol = 0, ss_Description = [], ss_Favicon = []\<rparr>"

text \<open>The \<open>ResponseJSON\<close> that \<open>SimpleStatus.Marshal\<close> builds.\<close>

definition status_favicon :: "SimpleStatus \<Rightarrow> string" where
  "status_favicon pk =
    (if ss_Favicon pk \<noteq> [] then ''data:image/png;base64,'' @ ss_Favicon pk else [])"

definition status_response :: "SimpleStatus \<Rightarrow> ResponseJSON" where
  "status_response pk =
    \<lparr>rj_Version = \<lparr>vj_Name = ss_Name pk, vj_Protocol = ss_Protocol pk\<rparr>,
     rj_Players = zero_players, rj_Description = \<lparr>dj_Text = ss_Description pk\<rparr>,
     rj_Favicon = status_favicon pk\<rparr>"

definition SimpleStatus_Marshal :: "(string \<Rightarrow> string) \<Rightarrow> SimpleStatus \<Rightarrow> Packet" where
  "SimpleStatus_Marshal uni pk =
    (let text = json_Response uni (status_response pk)
     in ClientBoundResponse_Marshal \<lparr>cr_JSONResponse = text\<rparr>)"

definition SimpleStatus_MarshalPacket :: "(string \<Rightarrow> string) \<Rightarrow> SimpleStatus \<Rightarrow> Packet" where
  "SimpleStatus_MarshalPacket uni pk = SimpleStatus_Marshal uni pk"

record DifferentStatusResponse =
  ds_Version :: VersionJSON
  ds_Description :: DescriptionJSON
  ds_Favicon :: string

definition DifferentStatusResponse_Marshal ::
  "(string \<Rightarrow> string) \<Rightarrow> DifferentStatusResponse \<Rightarrow> Packet" where
  "DifferentStatusResponse_Marshal uni pk =
    (let jsonResponse = \<lparr>rj_Version = ds_Version pk, rj_Players = zero_players,
           rj_Description = ds_Description pk, rj_Favicon = ds_Favicon pk\<rparr>;
         text = json_Response uni jsonResponse
     in ClientBoundResponse_Marshal \<lparr>cr_JSONResponse = text\<rparr>)"

section \<open>Request and ping\<close>

definition ServerBoundRequestPacket :: Packet where
  "ServerBoundRequestPacket = \<lparr>pk_ID = 0x00, pk_Data = []\<rparr>"

definition ServerBoundRequest_Marshal :: Packet where
  "ServerBoundRequest_Marshal = MarshalPacket 0x00 []"

definition ServerBoundRequest_MarshalPacket :: Packet where
  "ServerBoundRequest_MarshalPacket = ServerBoundRequest_Marshal"

record ServerBoundPing =
  sp_Time :: "64 word"

text \<open>\<open>nano\<close> is \<open>time.Now().UnixNano()\<close>, whose quotient by 1e6 is truncated.\<close>

definition NewServerBoundPing :: "int \<Rightarrow> ServerBoundPing" where
  "NewServerBoundPing nano = \<lparr>sp_Time = word_of_int (go_div nano 1000000)\<rparr>"

definition ServerBoundPing_Marshal :: "ServerBoundPing \<Rightarrow> Packet" where
  "ServerBoundPing_Marshal pk = MarshalPacket 0x01 [FLong (sp_Time pk)]"

section \<open>String literals\<close>

definition hex_value :: "char \<Rightarrow> nat option" where
  "hex_value c =
    (let n = of_char c in
     if 48 \<le> n \<and> n \<le> 57 then Some (n - 48)
     else if 97 \<le> n \<and> n \<le> 102 then Some (n - 87) else None)"

text \<open>
  The text up to the closing quote, and what follows the quote: the reader of RFC 8259 literals,
  for the escapes of ASCII characters.
\<close>

fun json_scan :: "string \<Rightarrow> (string \<times> string) option" where
  "json_scan [] = None"
| "json_scan (c # s) =
    (if c = quote then Some ([], s)
     else if c = backslash then
       (case s of
          [] \<Rightarrow> None
        | d # s1 \<Rightarrow>
            if d = quote \<or> d = backslash then map_option (apfst (Cons d)) (json_scan s1)
            else if d = CHR ''n'' then map_option (apfst (Cons (CHR 0x0A))) (json_scan s1)
            else if d = CHR ''r'' then map_option (apfst (Cons (CHR 0x0D))) (json_scan s1)
            else if d = CHR ''t'' then map_option (apfst (Cons (CHR 0x09))) (json_scan s1)
            else if d = CHR ''u'' then
              (case s1 of
                 a # b # h # l # s2 \<Rightarrow>
                   (case (hex_value h, hex_value l) of
                      (Some i, Some j) \<Rightarrow>
                        if a = CHR ''0'' \<and> b = CHR ''0''
                        then map_option (apfst (Cons (char_of (16 * i + j)))) (json_scan s2)
                        else None
                    | _ \<Rightarrow> None)
               | _ \<Rightarrow> None)
            else None)
     else if of_char c < (32 :: nat) then None
     else map_option (apfst (Cons c)) (json_scan s))"

lemma hex_value_char [simp]: "d < 16 \<Longrightarrow> hex_value (hex_char d) = Some d"
  by (auto simp: hex_value_def hex_char_def Let_def)

lemma json_scan_char: "json_scan (json_char c @ s) = map_option (apfst (Cons c)) (json_scan s)"
proof -
  have "of_char c div 16 < (16 :: nat)"
    using nat_of_char_less_256 [of c] by (intro less_mult_imp_div_less) simp
  moreover have "16 * (of_char c div 16) + of_char c mod 16 = (of_char c :: nat)" by simp
  ultimately show ?thesis by (auto simp: json_char_def)
qed

lemma json_scan_chars:
  "json_scan (concat (map json_char s) @ quote # rest) = Some (s, rest)"
  by (induction s) (simp_all add: json_scan_char)

lemma UnmarshalClientBoundResponse_Marshal:
  "length text < 2 ^ 31 \<Longrightarrow>
   UnmarshalClientBoundResponse (ClientBoundResponse_Marshal \<lparr>cr_JSONResponse = text\<rparr>)
     = Ok \<lparr>cr_JSONResponse = text\<rparr>"
  using Scan_MarshalPacket [of "[FString text]" 0]
  by (simp add: UnmarshalClientBoundResponse_def ClientBoundResponse_Marshal_def)

lemma json_Response_text:
  assumes "list_all is_ascii name" "list_all is_ascii text" "list_all is_ascii fav"
  shows "\<exists>r1 r2 r3.
    json_Response uni \<lparr>rj_Version = \<lparr>vj_Name = name, vj_Protocol = protocol\<rparr>, rj_Players = players,
      rj_Description = \<lparr>dj_Text = text\<rparr>, rj_Favicon = fav\<rparr> =
      ''{'' @ json_key ''version'' (''{'' @ json_key ''name'' (quote # r1)) \<and>
    json_scan r1 = Some (name, '','' @ json_key ''protocol'' (show_int (sint protocol) @
      ''},'' @ json_key ''players'' (json_Players uni players @
      '','' @ json_key ''description'' (''{'' @ json_key ''text'' (quote # r2))))) \<and>
    json_scan r2 = Some (text, ''},'' @ json_key ''favicon'' (quote # r3)) \<and>
    json_scan r3 = Some (fav, ''}'')"
  using assms by (simp add: json_Response_def json_Version_def json_Description_def
      json_object_def json_string_def json_key_def json_scan_chars)

section \<open>Properties\<close>

text \<open>
  C9: The JSON text of a marshalled status answer, read back with a JSON string scanner, holds the
  configured name, protocol, description and favicon unchanged in the places the client looks for
  them, whatever ASCII characters they contain.
\<close>

theorem status_fields_readable:
  assumes "list_all is_ascii (ss_Name st)" and "list_all is_ascii (ss_Description st)"
    and "list_all is_ascii (ss_Favicon st)"
    and "length (json_Response uni (status_response st)) < 2 ^ 31"
  shows "\<exists>r r1 r2 r3. UnmarshalClientBoundResponse (SimpleStatus_Marshal uni st) = Ok r \<and>
    cr_JSONResponse r = ''{'' @ json_key ''version'' (''{'' @ json_key ''name'' (quote # r1)) \<and>
    json_scan r1 = Some (ss_Name st, '','' @ json_key ''protocol'' (show_int (sint (ss_Protocol st)) @
      ''},'' @ json_key ''players'' (json_Players uni zero_players @
      '','' @ json_key ''description'' (''{'' @ json_key ''text'' (quote # r2))))) \<and>
    json_scan r2 = Some (ss_Description st, ''},'' @ json_key ''favicon'' (quote # r3)) \<and>
    json_scan r3 = Some (if ss_Favicon st = [] then []
      else ''data:image/png;base64,'' @ ss_Favicon st, ''}'')"
proof -
  have "list_all is_ascii (status_favicon st)"
    using assms(3) by (simp add: status_favicon_def is_ascii_def)
  moreover have "UnmarshalClientBoundResponse (SimpleStatus_Marshal uni st) =
      Ok \<lparr>cr_JSONResponse = json_Response uni (status_response st)\<rparr>"
    using UnmarshalClientBoundResponse_Marshal [OF assms(4)] by (simp add: SimpleStatus_Marshal_def)
  moreover have "(if ss_Favicon st = [] then [] else ''data:image/png;base64,'' @ ss_Favicon st)
      = status_favicon st" by (simp add: status_favicon_def)
  ultimately show ?thesis
    using json_Response_text [OF assms(1,2), of "status_favicon st" uni "ss_Protocol st" zero_players]
    by (simp only: status_response_def) auto
qed

theorem status_fields_readable_witness:
  "\<exists>r r1 rest. UnmarshalClientBoundResponse (SimpleStatus_Marshal (\<lambda>s. s)
      \<lparr>ss_Name = [quote], ss_Protocol = 7, ss_Description = ''a'', ss_Favicon = []\<rparr>) = Ok r \<and>
    cr_JSONResponse r = ''{'' @ json_key ''version'' (''{'' @ json_key ''name'' (quote # r1)) \<and>
    json_scan r1 = Some ([quote], rest)"
  (is "\<exists>r r1 rest. _ (SimpleStatus_Marshal ?uni ?st) = _ \<and> _ r r1 \<and> _ r1 rest")
proof -
  have "length (show_int 7) = 1" "length (show_int 0) = 1"
    by (simp_all add: show_int_def show_nat.simps)
  then have "length (json_Response ?uni (status_response ?st)) < 2 ^ 31"
    by (simp add: json_Response_def json_Version_def json_Description_def json_object_def is_ascii_def
      json_string_def json_key_def status_response_def json_Players_def zero_players_def
      status_favicon_def json_char_def)
  from status_fields_readable [OF _ _ _ this] show ?thesis by (fastforce simp: is_ascii_def)
qed

end
