(* ===== verification/Core_Server.thy ===== *)
theory Core_Server
  imports Mc_Status
begin

text \<open>
  The core interfaces (core/): the request a client made, the actions a server can answer with, the
  interface \<open>Server\<close> and the catalog that finds the server of an address.
\<close>

section \<open>Requests and actions\<close>

datatype ServerAction =
    CLOSE | DEFAULT_STATUS | STATUS | VERIFY_CONN | DISCONNECT | PROXY | PROXY_REALIP_2_4
  | PROXY_REALIP_2_5

text \<open>\<open>core.ServerState\<close>; the constructor \<open>Unknown\<close> is the zero value.\<close>

datatype ServerState = Unknown | Online | Offline

text \<open>\<open>rq_Addr\<close> is \<open>Addr.String()\<close>; a nil address, which panics when asked for its string, is \<open>None\<close>.\<close>

record RequestData =
  rq_Type :: HandshakeState
  rq_Handshake :: ServerBoundHandshake
  rq_ServerAddr :: string
  rq_Addr :: "string option"
  rq_Username :: string

definition zero_request :: RequestData where
  "zero_request = \<lparr>rq_Type = UnknownState, rq_Handshake = zero_handshake, rq_ServerAddr = [],
    rq_Addr = None, rq_Username = []\<rparr>"

section \<open>Servers\<close>

text \<open>
  A value of the interface \<open>core.Server\<close>: what its three methods do to the state \<open>'w\<close> of the process
  (limiters, caches, workers) and what they return, or that they panic.
\<close>

record 'w server =
  sv_ConnAction :: "RequestData \<Rightarrow> 'w \<Rightarrow> ServerAction res \<times> 'w"
  sv_CreateConn :: "RequestData \<Rightarrow> 'w \<Rightarrow> net_conn res \<times> 'w"
  sv_Status :: "'w \<Rightarrow> Packet res \<times> 'w"

section \<open>The catalog\<close>

record 's BasicServerCatalog =
  sc_ServerDict :: "string \<rightharpoonup> 's"
  sc_defaultStatusPk :: Packet
  sc_verifyConnPk :: Packet

definition NewServerCatalog :: "(string \<rightharpoonup> 's) \<Rightarrow> Packet \<Rightarrow> Packet \<Rightarrow> 's BasicServerCatalog" where
  "NewServerCatalog servers defaultStatusPk verifyConnPk =
    \<lparr>sc_ServerDict = servers, sc_defaultStatusPk = defaultStatusPk, sc_verifyConnPk = verifyConnPk\<rparr>"

definition NewEmptyServerCatalog :: "Packet \<Rightarrow> Packet \<Rightarrow> 's BasicServerCatalog" where
  "NewEmptyServerCatalog defaultStatusPk verifyConnPk =
    \<lparr>sc_ServerDict = Map.empty, sc_defaultStatusPk = defaultStatusPk, sc_verifyConnPk = verifyConnPk\<rparr>"

definition catalog_Find ::
  "(string \<Rightarrow> string) \<Rightarrow> 's BasicServerCatalog \<Rightarrow> string \<Rightarrow> 's res" where
  "catalog_Find uni catalog addr =
    (let cleanAddr = ToLower uni addr in
     case sc_ServerDict catalog cleanAddr of
       None \<Rightarrow> Err ErrNoServerFound
     | Some server \<Rightarrow> Ok server)"

definition catalog_DefaultStatus :: "'s BasicServerCatalog \<Rightarrow> Packet" where
  "catalog_DefaultStatus catalog = sc_defaultStatusPk catalog"

definition catalog_VerifyConn :: "'s BasicServerCatalog \<Rightarrow> Packet" where
  "catalog_VerifyConn catalog = sc_verifyConnPk catalog"

text \<open>
  What the proxy code relies on in a \<open>core.ServerCatalog\<close>: a lookup either finds a server or reports
  \<open>ErrNoServerFound\<close>, never another error, and it does not distinguish the case of ASCII letters.
\<close>

locale server_catalog =
  fixes find_server :: "'c \<Rightarrow> string \<Rightarrow> 's res"
    and lower :: "string \<Rightarrow> string"
  assumes find_total: "find_server c a = Err ErrNoServerFound \<or> (\<exists>s. find_server c a = Ok s)"
    and find_lower: "list_all is_ascii a \<Longrightarrow> find_server c (lower a) = find_server c a"
begin

lemma find_cases:
  obtains (found) s where "find_server c a = Ok s" | (missing) "find_server c a = Err ErrNoServerFound"
  using find_total by blast

lemma find_not_Panic: "find_server c a \<noteq> Panic"
  by (cases rule: find_cases [of c a]) simp_all

end

lemma catalog_Find_simps:
  "sc_ServerDict c (ToLower uni a) = Some s \<Longrightarrow> catalog_Find uni c a = Ok s"
  "sc_ServerDict c (ToLower uni a) = None \<Longrightarrow> catalog_Find uni c a = Err ErrNoServerFound"
  by (simp_all add: catalog_Find_def)

lemma catalog_Find_Ok_iff: "catalog_Find uni c a = Ok s \<longleftrightarrow> sc_ServerDict c (ToLower uni a) = Some s"
  by (simp add: catalog_Find_def split: option.splits)

interpretation basic_catalog: server_catalog "catalog_Find uni" "ToLower uni" for uni
  by unfold_locales (auto simp: catalog_Find_def ToLower_idem_ascii split: option.splits)

end
