(* ===== verification/Mod_Limiter.thy ===== *)
theory Mod_Limiter
  imports Core_Server
begin

text \<open>
  The connection limiters (module/conn_limiter.go). A limiter is an object that every request updates;
  it is passed as state. All readings of the clock within one call of \<open>Allow\<close> are the argument \<open>now\<close>.
  Counters are integers: they count connections and do not reach the bounds of a Go \<open>int\<close>.
\<close>

section \<open>The absolute limiter\<close>

record absoluteConnlimiter =
  al_rateCounter :: int
  al_rateStartTime :: gotime
  al_rateLimit :: int
  al_rateCooldown :: duration
  al_limitStatus :: bool

definition NewAbsConnLimiter :: "int \<Rightarrow> duration \<Rightarrow> bool \<Rightarrow> absoluteConnlimiter" where
  "NewAbsConnLimiter ratelimit cooldown limitStatus =
    \<lparr>al_rateCounter = 0, al_rateStartTime = 0, al_rateLimit = ratelimit,
     al_rateCooldown = cooldown, al_limitStatus = limitStatus\<rparr>"

definition absolute_Allow ::
  "gotime \<Rightarrow> RequestData \<Rightarrow> absoluteConnlimiter \<Rightarrow> bool res \<times> absoluteConnlimiter" where
  "absolute_Allow now req r =
    (let r1 = (if al_rateCooldown r \<le> Since now (al_rateStartTime r)
               then r\<lparr>al_rateCounter := 0, al_rateStartTime := now\<rparr> else r) in
     if \<not> al_limitStatus r1 then (Ok True, r1)
     else if al_rateCounter r1 < al_rateLimit r1
     then (Ok True, r1\<lparr>al_rateCounter := al_rateCounter r1 + 1\<rparr>)
     else (Ok False, r1))"

section \<open>The bot filter\<close>

text \<open>\<open>addr.String()\<close> of a nil address panics.\<close>

definition FilterIpFromAddr :: "string option \<Rightarrow> string res" where
  "FilterIpFromAddr addr =
    (case addr of None \<Rightarrow> Panic | Some s \<Rightarrow> let parts = Split '':'' s in Ok (parts ! 0))"

record botFilterConnLimiter =
  bf_limiting :: bool
  bf_unverifyCooldown :: duration
  bf_rateCounter :: int
  bf_rateStartTime :: gotime
  bf_lastTimeAboveLimit :: gotime
  bf_rateLimit :: int
  bf_rateCooldown :: duration
  bf_disconnPacket :: Packet
  bf_listClearTime :: duration
  bf_blackList :: "string \<rightharpoonup> gotime"
  bf_namesList :: "string \<rightharpoonup> string"

definition NewBotFilterConnLimiter ::
  "gotime \<Rightarrow> int \<Rightarrow> duration \<Rightarrow> duration \<Rightarrow> duration \<Rightarrow> Packet \<Rightarrow> botFilterConnLimiter" where
  "NewBotFilterConnLimiter now ratelimit cooldown clearTime unverify disconnPk =
    \<lparr>bf_limiting = False, bf_unverifyCooldown = unverify, bf_rateCounter = 0, bf_rateStartTime = 0,
     bf_lastTimeAboveLimit = now, bf_rateLimit = ratelimit, bf_rateCooldown = cooldown,
     bf_disconnPacket = disconnPk, bf_listClearTime = clearTime, bf_blackList = Map.empty,
     bf_namesList = Map.empty\<rparr>"

text \<open>The block under \<open>time.Since(l.rateStartTime) >= l.rateCooldown\<close>.\<close>

definition botFilter_roll :: "gotime \<Rightarrow> botFilterConnLimiter \<Rightarrow> botFilterConnLimiter" where
  "botFilter_roll now l =
    (if bf_rateCooldown l \<le> Since now (bf_rateStartTime l) then
       let l1 = (if bf_rateLimit l < bf_rateCounter l
                 then l\<lparr>bf_lastTimeAboveLimit := bf_rateStartTime l\<rparr> else l);
           l2 = (if bf_limiting l1 \<and> bf_unverifyCooldown l1 \<le> Since now (bf_lastTimeAboveLimit l1)
                 then l1\<lparr>bf_limiting := False\<rparr> else l1)
       in l2\<lparr>bf_rateCounter := 0, bf_rateStartTime := now\<rparr>
     else l)"

text \<open>The rest of \<open>Allow\<close>, once the address is known not to be on the black list.\<close>

definition botFilter_verify ::
  "gotime \<Rightarrow> string \<Rightarrow> string \<Rightarrow> botFilterConnLimiter \<Rightarrow> bool \<times> botFilterConnLimiter" where
  "botFilter_verify now ip name l =
    (let l1 = l\<lparr>bf_limiting := bf_limiting l \<or> bf_rateLimit l < bf_rateCounter l\<rparr> in
     if bf_limiting l1 then
       (case bf_namesList l1 ip of
          None \<Rightarrow> (False, l1\<lparr>bf_namesList := (bf_namesList l1)(ip \<mapsto> name)\<rparr>)
        | Some username \<Rightarrow>
            if username \<noteq> name
            then (False, l1\<lparr>bf_blackList := (bf_blackList l1)(ip \<mapsto> now)\<rparr>)
            else (True, l1))
     else (True, l1))"

text \<open>
  An address that is not on the black list has the zero time as its block time, which is deleted from
  the list without effect unless \<open>listClearTime\<close> exceeds every duration.
\<close>

definition botFilter_Allow ::
  "gotime \<Rightarrow> RequestData \<Rightarrow> botFilterConnLimiter \<Rightarrow> bool res \<times> botFilterConnLimiter" where
  "botFilter_Allow now req l =
    (if rq_Type req = Status then (Ok True, l)
     else
       let l1 = botFilter_roll now l; l2 = l1\<lparr>bf_rateCounter := bf_rateCounter l1 + 1\<rparr> in
       (case FilterIpFromAddr (rq_Addr req) of
          Ok ip \<Rightarrow>
            let blockTime = (case bf_blackList l2 ip of None \<Rightarrow> 0 | Some t \<Rightarrow> t);
                ok = (bf_blackList l2 ip \<noteq> None) in
            if bf_listClearTime l2 \<le> Since now blockTime then
              let (b, l3) = botFilter_verify now ip (rq_Username req)
                              (l2\<lparr>bf_blackList := (bf_blackList l2)(ip := None)\<rparr>)
              in (Ok b, l3)
            else if ok then (Ok False, l2)
            else let (b, l3) = botFilter_verify now ip (rq_Username req) l2 in (Ok b, l3)
        | Err e \<Rightarrow> (Err e, l2)
        | Panic \<Rightarrow> (Panic, l2)))"

section \<open>The interface\<close>

definition always_Allow :: "gotime \<Rightarrow> RequestData \<Rightarrow> unit \<Rightarrow> bool res \<times> unit" where
  "always_Allow now req limiter = (Ok True, limiter)"

text \<open>The values of \<open>module.ConnectionLimiter\<close> and the dispatch of \<open>Allow\<close>.\<close>

datatype ConnectionLimiter =
    AbsoluteLimiter absoluteConnlimiter
  | BotFilter botFilterConnLimiter
  | AlwaysAllowConnection

fun limiter_Allow ::
  "gotime \<Rightarrow> RequestData \<Rightarrow> ConnectionLimiter \<Rightarrow> bool res \<times> ConnectionLimiter" where
  "limiter_Allow now req (AbsoluteLimiter r) = apsnd AbsoluteLimiter (absolute_Allow now req r)"
| "limiter_Allow now req (BotFilter l) = apsnd BotFilter (botFilter_Allow now req l)"
| "limiter_Allow now req AlwaysAllowConnection =
    apsnd (\<lambda>_. AlwaysAllowConnection) (always_Allow now req ())"

text \<open>
  The contract of a limiter: an invariant that every call keeps, and that a request which carries an
  address is always answered. A sequence of calls is a list of times and requests.
\<close>

locale connection_limiter =
  fixes allow :: "gotime \<Rightarrow> RequestData \<Rightarrow> 'l \<Rightarrow> bool res \<times> 'l"
    and inv :: "'l \<Rightarrow> bool"
  assumes allow_inv: "inv l \<Longrightarrow> inv (snd (allow now req l))"
    and allow_answers: "inv l \<Longrightarrow> rq_Addr req \<noteq> None \<Longrightarrow> fst (allow now req l) \<in> {Ok True, Ok False}"
begin

fun run :: "(gotime \<times> RequestData) list \<Rightarrow> 'l \<Rightarrow> 'l" where
  "run [] l = l"
| "run ((now, req) # cs) l = run cs (snd (allow now req l))"

fun answers :: "(gotime \<times> RequestData) list \<Rightarrow> 'l \<Rightarrow> bool res list" where
  "answers [] l = []"
| "answers ((now, req) # cs) l = fst (allow now req l) # answers cs (snd (allow now req l))"

lemma run_inv: "inv l \<Longrightarrow> inv (run cs l)"
  by (induction cs l rule: run.induct) (auto intro: allow_inv)

lemma run_append: "run (cs @ cs') l = run cs' (run cs l)"
  by (induction cs l rule: run.induct) auto

lemma answers_total:
  "inv l \<Longrightarrow> (\<And>c. c \<in> set cs \<Longrightarrow> rq_Addr (snd c) \<noteq> None) \<Longrightarrow>
   x \<in> set (answers cs l) \<Longrightarrow> x = Ok True \<or> x = Ok False"
proof (induction cs l rule: answers.induct)
  case (2 now req cs l)
  then have "rq_Addr req \<noteq> None" by force
  with 2 show ?case using allow_answers [of l req now] allow_inv [of l now req] by auto
qed simp

end

section \<open>Facts about the absolute limiter\<close>

definition absolute_inv :: "absoluteConnlimiter \<Rightarrow> bool" where
  "absolute_inv r \<longleftrightarrow> 0 \<le> al_rateCounter r \<and> al_rateCounter r \<le> max 0 (al_rateLimit r)"

interpretation absolute: connection_limiter absolute_Allow absolute_inv
  by unfold_locales (auto simp: absolute_Allow_def absolute_inv_def Let_def)

section \<open>Facts about the bot filter\<close>

text \<open>An address gets on the black list only after a name has been recorded for it.\<close>

definition botFilter_inv :: "botFilterConnLimiter \<Rightarrow> bool" where
  "botFilter_inv l \<longleftrightarrow> dom (bf_blackList l) \<subseteq> dom (bf_namesList l) \<and> 0 \<le> bf_rateCounter l"

lemma FilterIp_Some: "FilterIpFromAddr (Some s) = Ok (before '':'' s)"
  by (simp add: FilterIpFromAddr_def nth0_Split before_def)

lemma roll_simps [simp]:
  "bf_blackList (botFilter_roll now l) = bf_blackList l"
  "bf_namesList (botFilter_roll now l) = bf_namesList l"
  "bf_listClearTime (botFilter_roll now l) = bf_listClearTime l"
  "bf_rateLimit (botFilter_roll now l) = bf_rateLimit l"
  "bf_rateCooldown (botFilter_roll now l) = bf_rateCooldown l"
  "bf_unverifyCooldown (botFilter_roll now l) = bf_unverifyCooldown l"
  by (simp_all add: botFilter_roll_def Let_def)

lemma roll_counter: "0 \<le> bf_rateCounter l \<Longrightarrow> 0 \<le> bf_rateCounter (botFilter_roll now l)"
  by (simp add: botFilter_roll_def Let_def)

lemma verify_inv:
  "botFilter_inv l \<Longrightarrow> botFilter_inv (snd (botFilter_verify now ip name l))"
  by (auto simp: botFilter_inv_def botFilter_verify_def Let_def split: option.splits)

lemma botFilter_Allow_inv:
  assumes "botFilter_inv l"
  shows "botFilter_inv (snd (botFilter_Allow now req l))"
proof -
  let ?l1 = "botFilter_roll now l" and ?l2 = "(botFilter_roll now l)\<lparr>bf_rateCounter :=
    bf_rateCounter (botFilter_roll now l) + 1\<rparr>"
  have l2: "botFilter_inv ?l2" using assms roll_counter [of l now] by (simp add: botFilter_inv_def)
  then have l3: "botFilter_inv (?l2\<lparr>bf_blackList := (bf_blackList ?l2)(ip := None)\<rparr>)" for ip
    by (auto simp: botFilter_inv_def)
  show ?thesis using assms l2 verify_inv [OF l2] verify_inv [OF l3]
    by (auto simp: botFilter_Allow_def Let_def split: res.splits prod.splits) (metis snd_conv)+
qed

interpretation botfilter: connection_limiter botFilter_Allow botFilter_inv
proof
  show "botFilter_inv l \<Longrightarrow> botFilter_inv (snd (botFilter_Allow now req l))" for l now req
    by (rule botFilter_Allow_inv)
  show "fst (botFilter_Allow now req l) \<in> {Ok True, Ok False}" if "rq_Addr req \<noteq> None" for req now l
  proof -
    from that obtain a where "rq_Addr req = Some a" by blast
    then show ?thesis by (auto simp: botFilter_Allow_def FilterIp_Some Let_def split: prod.splits)
  qed
qed

interpretation always: connection_limiter always_Allow "\<lambda>_. True"
  by unfold_locales (simp_all add: always_Allow_def)

text \<open>The dispatch keeps the contract of each limiter.\<close>

fun limiter_inv :: "ConnectionLimiter \<Rightarrow> bool" where
  "limiter_inv (AbsoluteLimiter r) = absolute_inv r"
| "limiter_inv (BotFilter l) = botFilter_inv l"
| "limiter_inv AlwaysAllowConnection = True"

interpretation limiter: connection_limiter limiter_Allow limiter_inv
proof
  fix now req l
  show "limiter_inv l \<Longrightarrow> limiter_inv (snd (limiter_Allow now req l))"
    by (cases l) (simp_all add: absolute.allow_inv botfilter.allow_inv)
  show "limiter_inv l \<Longrightarrow> rq_Addr req \<noteq> None \<Longrightarrow>
    fst (limiter_Allow now req l) \<in> {Ok True, Ok False}"
    using absolute.allow_answers botfilter.allow_answers
    by (cases l) (simp_all add: always_Allow_def)
qed

text \<open>What never changes in a limiter, and how far a window can be used up.\<close>

lemma absolute_step:
  "al_rateLimit (snd (absolute_Allow now req r)) = al_rateLimit r"
  "al_rateCooldown (snd (absolute_Allow now req r)) = al_rateCooldown r"
  "al_limitStatus (snd (absolute_Allow now req r)) = al_limitStatus r"
  "al_rateStartTime (snd (absolute_Allow now req r)) =
    (if al_rateCooldown r \<le> Since now (al_rateStartTime r) then now else al_rateStartTime r)"
  by (simp_all add: absolute_Allow_def Let_def)

lemma absolute_step_count:
  assumes "al_limitStatus r" and "absolute_inv r"
  shows "(if fst (absolute_Allow now req r) = Ok True then 1 else 0) =
    al_rateCounter (snd (absolute_Allow now req r)) -
    (if al_rateCooldown r \<le> Since now (al_rateStartTime r) then 0 else al_rateCounter r)"
  using assms by (simp add: absolute_Allow_def Let_def)

lemma absolute_params:
  "al_rateLimit (absolute.run cs r) = al_rateLimit r \<and>
   al_rateCooldown (absolute.run cs r) = al_rateCooldown r \<and>
   al_limitStatus (absolute.run cs r) = al_limitStatus r"
  by (induction cs r rule: absolute.run.induct) (auto simp: absolute_step)

abbreviation allowed :: "bool res list \<Rightarrow> int" where
  "allowed xs \<equiv> int (length (filter (\<lambda>x. x = Ok True) xs))"

lemma allowed_Cons: "allowed (x # xs) = (if x = Ok True then 1 else 0) + allowed xs"
  by simp

lemma absolute_same_window:
  assumes "al_limitStatus r" and "absolute_inv r"
    and "\<And>c. c \<in> set cs \<Longrightarrow> Since (fst c) (al_rateStartTime r) < al_rateCooldown r"
  shows "allowed (absolute.answers cs r) \<le> max 0 (al_rateLimit r) - al_rateCounter r"
  using assms
proof (induction cs r rule: absolute.answers.induct)
  case (1 r)
  then show ?case by (auto simp: absolute_inv_def)
next
  case (2 now req cs r)
  let ?r = "snd (absolute_Allow now req r)"
  have no_reset: "\<not> al_rateCooldown r \<le> Since now (al_rateStartTime r)" using 2(4) by force
  have "allowed (absolute.answers cs ?r) \<le> max 0 (al_rateLimit ?r) - al_rateCounter ?r"
    by (rule 2(1)) (use 2 no_reset absolute.allow_inv in \<open>auto simp: absolute_step\<close>)
  then show ?case
    unfolding absolute.answers.simps allowed_Cons absolute_step_count [OF 2(2,3)]
    using no_reset by (simp add: absolute_step)
qed

text \<open>A window of one cooldown sees at most one reset, so it spans at most two periods.\<close>

lemma absolute_any_window:
  assumes "al_limitStatus r" and "absolute_inv r" and "al_rateCooldown r < 2 ^ 63"
    and "\<And>c. c \<in> set cs \<Longrightarrow> t \<le> fst c \<and> fst c < t + al_rateCooldown r"
  shows "allowed (absolute.answers cs r) \<le> 2 * max 0 (al_rateLimit r) - al_rateCounter r"
  using assms
proof (induction cs r rule: absolute.answers.induct)
  case (1 r)
  then show ?case by (auto simp: absolute_inv_def)
next
  case (2 now req cs r)
  let ?r = "snd (absolute_Allow now req r)"
  have inv: "absolute_inv ?r" using 2(3) by (rule absolute.allow_inv)
  have now: "t \<le> now" "now < t + al_rateCooldown r" using 2(5) [of "(now, req)"] by auto
  show ?case
  proof (cases "al_rateCooldown r \<le> Since now (al_rateStartTime r)")
    case True
    have "allowed (absolute.answers cs ?r) \<le> max 0 (al_rateLimit ?r) - al_rateCounter ?r"
    proof (rule absolute_same_window)
      fix c assume "c \<in> set cs"
      then have "fst c < t + al_rateCooldown r" using 2(5) by simp
      with now have "fst c - now < al_rateCooldown r" "0 < al_rateCooldown r" by linarith+
      then show "Since (fst c) (al_rateStartTime ?r) < al_rateCooldown ?r"
        using True by (simp add: absolute_step Since_def minDuration_def)
    qed (use 2(2) inv in \<open>simp_all add: absolute_step\<close>)
    then show ?thesis
      unfolding absolute.answers.simps allowed_Cons absolute_step_count [OF 2(2,3)]
      using True 2(3) by (simp add: absolute_step absolute_inv_def)
  next
    case False
    have "allowed (absolute.answers cs ?r) \<le> 2 * max 0 (al_rateLimit ?r) - al_rateCounter ?r"
      by (rule 2(1)) (use 2(2,4,5) inv in \<open>auto simp: absolute_step\<close>)
    then show ?thesis
      unfolding absolute.answers.simps allowed_Cons absolute_step_count [OF 2(2,3)]
      using False by (simp add: absolute_step)
  qed
qed

lemma New_absolute_inv: "absolute_inv (NewAbsConnLimiter limit cd b)"
  by (simp add: absolute_inv_def NewAbsConnLimiter_def)



text \<open>One call of the bot filter, by cases on the address.\<close>

definition over_limit :: "gotime \<Rightarrow> botFilterConnLimiter \<Rightarrow> bool" where
  "over_limit now l \<longleftrightarrow> bf_limiting (botFilter_roll now l) \<or>
    bf_rateLimit l < bf_rateCounter (botFilter_roll now l) + 1"

definition blocked :: "gotime \<Rightarrow> string \<Rightarrow> botFilterConnLimiter \<Rightarrow> bool" where
  "blocked now ip l \<longleftrightarrow> (\<exists>t. bf_blackList l ip = Some t \<and> Since now t < bf_listClearTime l)"

lemma botFilter_Allow_eq:
  assumes "rq_Type req \<noteq> Status" and "FilterIpFromAddr (rq_Addr req) = Ok ip"
  shows "botFilter_Allow now req l =
    (let l2 = (botFilter_roll now l)\<lparr>bf_rateCounter := bf_rateCounter (botFilter_roll now l) + 1\<rparr> in
     if blocked now ip l then (Ok False, l2)
     else apfst Ok (botFilter_verify now ip (rq_Username req)
            (l2\<lparr>bf_blackList := (bf_blackList l)(ip := None)\<rparr>)))"
proof -
  have idem: "l\<lparr>bf_blackList := (bf_blackList l)(ip := None)\<rparr> = l" if "bf_blackList l ip = None"
    for l :: botFilterConnLimiter
    using that by (simp add: fun_upd_idem)
  let ?l2 = "(botFilter_roll now l)\<lparr>bf_rateCounter := bf_rateCounter (botFilter_roll now l) + 1\<rparr>"
  show ?thesis
  proof (cases "bf_blackList l ip")
    case None
    then have "?l2\<lparr>bf_blackList := (bf_blackList l)(ip := None)\<rparr> = ?l2" using idem [of ?l2] by simp
    with None assms show ?thesis
      by (simp add: botFilter_Allow_def blocked_def Let_def apfst_def map_prod_def split: prod.splits)
  next
    case (Some t)
    with assms show ?thesis
      by (simp add: botFilter_Allow_def blocked_def Let_def apfst_def map_prod_def not_le
          split: prod.splits)
  qed
qed

lemma botFilter_cases:
  fixes l :: botFilterConnLimiter
  assumes l': "l' = snd (botFilter_Allow now req l)" and "rq_Type req \<noteq> Status" and "FilterIpFromAddr (rq_Addr req) = Ok ip"
  obtains
    (blocked) "blocked now ip l" "fst (botFilter_Allow now req l) = Ok False"
      "bf_blackList l' = bf_blackList l" "bf_namesList l' = bf_namesList l"
  | (quiet) "\<not> blocked now ip l" "\<not> over_limit now l" "fst (botFilter_Allow now req l) = Ok True"
      "bf_blackList l' = (bf_blackList l)(ip := None)" "bf_namesList l' = bf_namesList l"
  | (new) "\<not> blocked now ip l" "over_limit now l" "bf_namesList l ip = None"
      "fst (botFilter_Allow now req l) = Ok False" "bf_blackList l' = (bf_blackList l)(ip := None)"
      "bf_namesList l' = (bf_namesList l)(ip \<mapsto> rq_Username req)"
  | (same) "\<not> blocked now ip l" "over_limit now l" "bf_namesList l ip = Some (rq_Username req)"
      "fst (botFilter_Allow now req l) = Ok True" "bf_blackList l' = (bf_blackList l)(ip := None)"
      "bf_namesList l' = bf_namesList l"
  | (other) n where "\<not> blocked now ip l" "over_limit now l" "bf_namesList l ip = Some n"
      "n \<noteq> rq_Username req" "fst (botFilter_Allow now req l) = Ok False"
      "bf_blackList l' = (bf_blackList l)(ip \<mapsto> now)" "bf_namesList l' = bf_namesList l"
proof (cases "blocked now ip l")
  case True
  with that(1) show ?thesis by (simp add: l' botFilter_Allow_eq [OF assms(2,3)] Let_def)
next
  case False
  note eq = l' botFilter_Allow_eq [OF assms(2,3), of now l] botFilter_verify_def over_limit_def Let_def
  show ?thesis
  proof (cases "over_limit now l")
    case quiet: False
    with False that(2) show ?thesis by (simp add: eq)
  next
    case over: True
    show ?thesis
    proof (cases "bf_namesList l ip")
      case None
      with False over that(3) show ?thesis by (simp add: eq)
    next
      case (Some n)
      with False over that(4,5) show ?thesis by (cases "n = rq_Username req") (simp_all add: eq)
    qed
  qed
qed

lemma botFilter_status [simp]: "rq_Type req = Status \<Longrightarrow> botFilter_Allow now req l = (Ok True, l)"
  by (simp add: botFilter_Allow_def)

lemma botFilter_keeps_clearTime [simp]:
  "bf_listClearTime (snd (botFilter_Allow now req l)) = bf_listClearTime l"
  by (auto simp: botFilter_Allow_def botFilter_verify_def Let_def split: res.splits option.splits)

text \<open>What a call does not do to the addresses it is not about.\<close>

lemma botFilter_other_address:
  assumes "FilterIpFromAddr (rq_Addr req) \<noteq> Ok ip"
  shows "bf_blackList (snd (botFilter_Allow now req l)) ip = bf_blackList l ip \<and>
    bf_namesList (snd (botFilter_Allow now req l)) ip = bf_namesList l ip"
proof (cases "rq_Type req = Status")
  case False
  show ?thesis
  proof (cases "FilterIpFromAddr (rq_Addr req)")
    case (Ok ip')
    with assms have "ip' \<noteq> ip" by simp
    then show ?thesis by (cases rule: botFilter_cases [OF refl False Ok, of now l]) simp_all
  qed (use False in \<open>simp_all add: botFilter_Allow_def Let_def\<close>)
qed simp

lemma botFilter_run_other:
  "\<forall>c \<in> set cs. FilterIpFromAddr (rq_Addr (snd c)) \<noteq> Ok ip \<Longrightarrow>
   bf_blackList (botfilter.run cs l) ip = bf_blackList l ip \<and>
   bf_namesList (botfilter.run cs l) ip = bf_namesList l ip"
  by (induction cs l rule: botfilter.run.induct) (auto simp: botFilter_other_address)

text \<open>A call from an address whose name is on record and which gives that name.\<close>

lemma botFilter_recorded:
  assumes "bf_namesList l ip = Some name" and "bf_blackList l ip = None"
    and "FilterIpFromAddr (rq_Addr req) = Ok ip" and "rq_Type req = Status \<or> rq_Username req = name"
  shows "fst (botFilter_Allow now req l) = Ok True \<and>
    bf_namesList (snd (botFilter_Allow now req l)) ip = Some name \<and>
    bf_blackList (snd (botFilter_Allow now req l)) ip = None"
proof (cases "rq_Type req = Status")
  case False
  with assms show ?thesis
    by (cases rule: botFilter_cases [OF refl False assms(3), of now l]) (auto simp: blocked_def)
qed (use assms in simp)

text \<open>
  C11: A client whose name the bot filter has recorded, that is not blacklisted and keeps using this
  name is let through at every later request, whatever the other clients do.
\<close>

theorem botFilter_recorded_client_never_denied:
  assumes "bf_namesList l ip = Some name" and "bf_blackList l ip = None"
    and "\<forall>c \<in> set cs. FilterIpFromAddr (rq_Addr (snd c)) = Ok ip \<longrightarrow>
      rq_Type (snd c) = Status \<or> rq_Username (snd c) = name"
    and "i < length cs" and "FilterIpFromAddr (rq_Addr (snd (cs ! i))) = Ok ip"
  shows "botfilter.answers cs l ! i = Ok True"
  using assms
proof (induction cs l arbitrary: i rule: botfilter.answers.induct)
  case (2 now req cs l)
  let ?l = "snd (botFilter_Allow now req l)"
  show ?case
  proof (cases i)
    case 0
    with 2 botFilter_recorded [of l ip name req now] show ?thesis by auto
  next
    case (Suc j)
    have "bf_namesList ?l ip = Some name \<and> bf_blackList ?l ip = None"
      using 2(2,3,4) botFilter_recorded [of l ip name req now] botFilter_other_address [of req ip now l]
      by (cases "FilterIpFromAddr (rq_Addr req) = Ok ip") auto
    with 2 Suc show ?thesis by auto
  qed
qed simp

theorem botFilter_recorded_client_never_denied_witness:
  "botfilter.answers
     [(1, zero_request\<lparr>rq_Type := Login, rq_Addr := Some ''10.0.0.2:9'', rq_Username := ''x''\<rparr>),
      (2, zero_request\<lparr>rq_Type := Login, rq_Addr := Some ''10.0.0.1:8'', rq_Username := ''bob''\<rparr>)]
     ((NewBotFilterConnLimiter 0 0 5 10 9 empty_packet)\<lparr>bf_namesList := [''10.0.0.1'' \<mapsto> ''bob'']\<rparr>) ! 1
   = Ok True"
  by (rule botFilter_recorded_client_never_denied [where ip = "''10.0.0.1''" and name = "''bob''"])
    (simp_all add: NewBotFilterConnLimiter_def zero_request_def FilterIp_Some before_def)

text \<open>
  C12: A blacklisted address is denied every login until the clear time of the list has passed,
  whatever the other clients do.
\<close>

theorem botFilter_block_lasts:
  assumes "bf_blackList l ip = Some t"
    and "\<forall>c \<in> set cs. t \<le> fst c \<and> fst c < t + bf_listClearTime l"
    and "i < length cs" and "FilterIpFromAddr (rq_Addr (snd (cs ! i))) = Ok ip"
    and "rq_Type (snd (cs ! i)) \<noteq> Status"
  shows "botfilter.answers cs l ! i = Ok False"
  using assms
proof (induction cs l arbitrary: i rule: botfilter.answers.induct)
  case (2 now req cs l)
  let ?l = "snd (botFilter_Allow now req l)"
  have "0 \<le> now - t" "now - t < bf_listClearTime l" using 2(3) by auto
  then have "Since now t < bf_listClearTime l" by (simp add: Since_def minDuration_def)
  with 2(2) have blk: "blocked now ip l" by (simp add: blocked_def)
  show ?case
  proof (cases i)
    case 0
    with 2 have r: "rq_Type req \<noteq> Status" "FilterIpFromAddr (rq_Addr req) = Ok ip" by simp_all
    show ?thesis
      by (cases rule: botFilter_cases [OF refl r, of now l]) (use blk 0 in simp_all)
  next
    case (Suc j)
    have "bf_blackList ?l ip = Some t"
    proof (cases "rq_Type req \<noteq> Status \<and> FilterIpFromAddr (rq_Addr req) = Ok ip")
      case True
      then have r: "rq_Type req \<noteq> Status" "FilterIpFromAddr (rq_Addr req) = Ok ip" by simp_all
      show ?thesis
        by (cases rule: botFilter_cases [OF refl r, of now l]) (use blk 2(2) in simp_all)
    next
      case False
      with 2(2) botFilter_other_address [of req ip now l] show ?thesis by auto
    qed
    with 2 Suc show ?thesis by auto
  qed
qed simp

theorem botFilter_block_lasts_witness:
  "botfilter.answers
     [(7, zero_request\<lparr>rq_Type := Login, rq_Addr := Some ''10.0.0.2:9'', rq_Username := ''x''\<rparr>),
      (8, zero_request\<lparr>rq_Type := Login, rq_Addr := Some ''10.0.0.1:8'', rq_Username := ''bob''\<rparr>)]
     ((NewBotFilterConnLimiter 0 0 5 10 9 empty_packet)\<lparr>bf_blackList := [''10.0.0.1'' \<mapsto> 3]\<rparr>) ! 1
   = Ok False"
  by (rule botFilter_block_lasts [where ip = "''10.0.0.1''" and t = 3])
    (simp_all add: NewBotFilterConnLimiter_def zero_request_def FilterIp_Some before_def)

text \<open>
  A new client denied during an attack is let through when it reconnects with the same name; with
  another name, while the filter is over its limit, it is denied and its address is blacklisted.
\<close>

theorem botFilter_reconnect:
  assumes "rq_Type req \<noteq> Status" "rq_Type req' \<noteq> Status"
    and "FilterIpFromAddr (rq_Addr req) = Ok ip" "FilterIpFromAddr (rq_Addr req') = Ok ip"
    and "bf_namesList l ip = None" and "fst (botFilter_Allow now req l) = Ok False"
    and "\<not> blocked now ip l"
    and "\<forall>c \<in> set cs. FilterIpFromAddr (rq_Addr (snd c)) \<noteq> Ok ip"
  defines "l' \<equiv> botfilter.run cs (snd (botFilter_Allow now req l))"
  shows "(rq_Username req' = rq_Username req \<longrightarrow> fst (botFilter_Allow now' req' l') = Ok True) \<and>
    (rq_Username req' \<noteq> rq_Username req \<longrightarrow> over_limit now' l' \<longrightarrow>
      fst (botFilter_Allow now' req' l') = Ok False \<and>
      bf_blackList (snd (botFilter_Allow now' req' l')) ip = Some now')"
proof -
  let ?l = "snd (botFilter_Allow now req l)"
  have "bf_namesList ?l ip = Some (rq_Username req) \<and> bf_blackList ?l ip = None"
    using assms(1,3,5,6,7)
    by (cases rule: botFilter_cases [OF refl assms(1,3), of now l]) simp_all
  then have l': "bf_namesList l' ip = Some (rq_Username req) \<and> bf_blackList l' ip = None"
    using botFilter_run_other [OF assms(8), of ?l] by (simp add: l'_def)
  show ?thesis
    by (cases rule: botFilter_cases [OF refl assms(2,4), of now' l'])
      (use l' in \<open>auto simp: blocked_def\<close>)
qed

theorem botFilter_reconnect_witness:
  "fst (botFilter_Allow 4
     (zero_request\<lparr>rq_Type := Login, rq_Addr := Some ''10.0.0.1:8'', rq_Username := ''bob''\<rparr>)
     (botfilter.run []
       (snd (botFilter_Allow 3
         (zero_request\<lparr>rq_Type := Login, rq_Addr := Some ''10.0.0.1:7'', rq_Username := ''bob''\<rparr>)
         (NewBotFilterConnLimiter 0 0 5 10 9 empty_packet))))) = Ok True"
  by (rule botFilter_reconnect [where ip = "''10.0.0.1''", THEN conjunct1, rule_format])
    (simp_all add: NewBotFilterConnLimiter_def zero_request_def FilterIp_Some before_def blocked_def
      botFilter_Allow_def botFilter_roll_def botFilter_verify_def Since_def maxDuration_def
      minDuration_def)

lemma botFilter_quiet_run:
  assumes "\<not> bf_limiting l" and "bf_blackList l = Map.empty" and "0 \<le> bf_rateCounter l"
    and "bf_rateCounter l + int (length cs) \<le> bf_rateLimit l"
    and "\<And>c. c \<in> set cs \<Longrightarrow> rq_Addr (snd c) \<noteq> None"
    and "x \<in> set (botfilter.answers cs l)"
  shows "x = Ok True"
  using assms
proof (induction cs l rule: botfilter.answers.induct)
  case (2 now req cs l)
  let ?l = "snd (botFilter_Allow now req l)"
  from 2(6) have "rq_Addr req \<noteq> None" by force
  then obtain a where a: "rq_Addr req = Some a" by blast
  have "fst (botFilter_Allow now req l) = Ok True \<and> \<not> bf_limiting ?l \<and>
    bf_blackList ?l = Map.empty \<and> 0 \<le> bf_rateCounter ?l \<and>
    bf_rateCounter ?l \<le> bf_rateCounter l + 1 \<and> bf_rateLimit ?l = bf_rateLimit l"
  proof (cases "rq_Type req = Status")
    case True
    with 2(2-5) show ?thesis by simp
  next
    case False
    let ?r = "botFilter_roll now l"
    have r: "\<not> bf_limiting ?r" "0 \<le> bf_rateCounter ?r" "bf_rateCounter ?r \<le> bf_rateCounter l"
      using 2(2,4) by (auto simp: botFilter_roll_def Let_def)
    moreover have "bf_rateCounter l + 1 \<le> bf_rateLimit l" using 2(5) by simp
    ultimately show ?thesis using 2(3) False
      by (simp add: botFilter_Allow_eq [of req "before '':'' a"] a FilterIp_Some blocked_def
          botFilter_verify_def Let_def)
  qed
  with 2 show ?case by fastforce
qed simp

text \<open>
  A filter that sees at most its limit of requests answers every one with yes.
\<close>

theorem botFilter_quiet:
  assumes "int (length cs) \<le> limit" and "\<forall>c \<in> set cs. rq_Addr (snd c) \<noteq> None"
  shows "set (botfilter.answers cs
      (NewBotFilterConnLimiter now limit cooldown clearTime unverify pk)) \<subseteq> {Ok True}"
  using botFilter_quiet_run [of "NewBotFilterConnLimiter now limit cooldown clearTime unverify pk" cs]
    assms by (auto simp: NewBotFilterConnLimiter_def)

theorem botFilter_quiet_witness:
  "set (botfilter.answers [(5, zero_request\<lparr>rq_Type := Login, rq_Addr := Some ''10.0.0.1:7''\<rparr>)]
      (NewBotFilterConnLimiter 0 1 60 10 9 empty_packet)) \<subseteq> {Ok True}"
  by (rule botFilter_quiet) simp_all

end
