(* ===== verification/Mod_Probe.thy ===== *)
theory Mod_Probe
  imports Mod_Limiter
begin

text \<open>
  The modules that reach out to the server behind the proxy (module/conn_creator.go, state_agent.go,
  status_cache.go) and the handshake modifiers (handshake_modifier.go), with the network they dial.
\<close>

section \<open>The network\<close>

text \<open>
  A \<open>net.Dialer\<close>: its timeout and the local address it binds to (the text that \<open>net.ParseIP\<close> reads).
  The network is the environment: the clock, what the \<open>k\<close>-th dial of the run returns and how much time
  the dial and the exchange on the connection take. The model logs the addresses dialled, and each
  connection the program lets go of, in the state in which it does.
\<close>

record net_dialer =
  dl_Timeout :: duration
  dl_bind :: string

record network =
  nw_now :: gotime
  nw_outcome :: "nat \<Rightarrow> net_dialer \<Rightarrow> string \<Rightarrow> net_conn res"
  nw_delay :: "nat \<Rightarrow> duration"
  nw_dials :: "string list"
  nw_left :: "net_conn list"

definition Dial :: "net_dialer \<Rightarrow> string \<Rightarrow> network \<Rightarrow> net_conn res \<times> network" where
  "Dial dialer addr n =
    (let k = length (nw_dials n)
     in (nw_outcome n k dialer addr,
         n\<lparr>nw_dials := nw_dials n @ [addr], nw_now := nw_now n + nw_delay n k\<rparr>))"

definition leave :: "net_conn \<Rightarrow> network \<Rightarrow> network" where
  "leave c n = n\<lparr>nw_left := nw_left n @ [c]\<rparr>"

text \<open>
  The header of the PROXY protocol is written by a library: \<open>pp_write src dst conn\<close>, with the
  addresses of its source (\<open>None\<close> for a nil address) and destination; \<open>pp_local\<close> is the local address
  of a connection.
\<close>

record proxyproto =
  pp_write :: "string option \<Rightarrow> string \<Rightarrow> net_conn \<Rightarrow> unit res \<times> net_conn"
  pp_local :: "net_conn \<Rightarrow> string"

text \<open>\<open>t.Unix()\<close>: seconds since 1970, from nanoseconds since the year 1.\<close>

definition Unix :: "gotime \<Rightarrow> int" where
  "Unix t = t div second - 62135596800"

text \<open>\<open>ConnectionCreatorFunc\<close>: \<open>Conn()\<close> returns the function itself.\<close>

type_synonym ConnectionCreatorFunc = "network \<Rightarrow> net_conn res \<times> network"

definition creator_Conn :: "ConnectionCreatorFunc \<Rightarrow> ConnectionCreatorFunc" where
  "creator_Conn creator = creator"

definition BasicConnCreator :: "string \<Rightarrow> net_dialer \<Rightarrow> ConnectionCreatorFunc" where
  "BasicConnCreator proxyTo dialer = (\<lambda>n. Dial dialer proxyTo n)"

section \<open>The state agent\<close>

record McServerState =
  ms_state :: ServerState
  ms_cooldown :: duration
  ms_startTime :: gotime
  ms_connCreator :: ConnectionCreatorFunc

definition NewMcServerState :: "duration \<Rightarrow> ConnectionCreatorFunc \<Rightarrow> McServerState" where
  "NewMcServerState cooldown connCreator =
    \<lparr>ms_state = Unknown, ms_cooldown = cooldown, ms_startTime = 0, ms_connCreator = connCreator\<rparr>"

definition McServerState_State ::
  "McServerState \<Rightarrow> network \<Rightarrow> ServerState res \<times> McServerState \<times> network" where
  "McServerState_State server n =
    (if Since (nw_now n) (ms_startTime server) \<le> ms_cooldown server
     then (Ok (ms_state server), server, n)
     else
       let server1 = server\<lparr>ms_startTime := nw_now n\<rparr>;
           connFunc = creator_Conn (ms_connCreator server1) in
       (case connFunc n of
          (Err e, n1) \<Rightarrow> (Ok Offline, server1\<lparr>ms_state := Offline\<rparr>, n1)
        | (Ok conn, n1) \<Rightarrow> (Ok Online, server1\<lparr>ms_state := Online\<rparr>, leave (conn_Close conn) n1)
        | (Panic, n1) \<Rightarrow> (Panic, server1, n1)))"

datatype StateAgent = McState McServerState | AlwaysOnlineState | AlwaysOfflineState

fun agent_State :: "StateAgent \<Rightarrow> network \<Rightarrow> ServerState res \<times> StateAgent \<times> network" where
  "agent_State (McState s) n = apsnd (apfst McState) (McServerState_State s n)"
| "agent_State AlwaysOnlineState n = (Ok Online, AlwaysOnlineState, n)"
| "agent_State AlwaysOfflineState n = (Ok Offline, AlwaysOfflineState, n)"

section \<open>The status cache\<close>

record statusCache =
  ca_connCreator :: ConnectionCreatorFunc
  ca_status :: Packet
  ca_cooldown :: duration
  ca_cacheTime :: gotime
  ca_handshake :: ServerBoundHandshake

definition NewStatusCache :: "go_int \<Rightarrow> duration \<Rightarrow> ConnectionCreatorFunc \<Rightarrow> statusCache" where
  "NewStatusCache protocol cooldown connCreator =
    (let handshake = \<lparr>hs_ProtocolVersion = protocol, hs_ServerAddress = ''Ultraviolet'',
           hs_ServerPort = 25565, hs_NextState = 1\<rparr>
     in \<lparr>ca_connCreator = connCreator, ca_status = empty_packet, ca_cooldown = cooldown,
         ca_cacheTime = 0, ca_handshake = handshake\<rparr>)"

text \<open>
  The dialogue of \<open>newStatus\<close> on a fresh connection: it returns the answer and the connection, which
  is closed only when every step succeeded.
\<close>

definition status_dialogue :: "ServerBoundHandshake \<Rightarrow> net_conn \<Rightarrow> Packet res \<times> net_conn" where
  "status_dialogue handshake conn =
    (case and_then (mcConn_WriteMcPacket (Handshake_Marshal handshake) (NewMcConn conn)) (\<lambda>_ m1.
          and_then (mcConn_WritePacket ServerBoundRequest_Marshal m1) (\<lambda>_ m2.
          mcConn_ReadPacket m2)) of
       (Ok pk, m) \<Rightarrow> (Ok pk, conn_Close (br_conn m))
     | (x, m) \<Rightarrow> (x, br_conn m))"

definition newStatus :: "statusCache \<Rightarrow> network \<Rightarrow> Packet res \<times> network" where
  "newStatus cache n =
    (let connFunc = creator_Conn (ca_connCreator cache) in
     case connFunc n of
       (Ok conn, n1) \<Rightarrow>
         (let (x, conn') = status_dialogue (ca_handshake cache) conn in (x, leave conn' n1))
     | (Err e, n1) \<Rightarrow> (Err e, n1)
     | (Panic, n1) \<Rightarrow> (Panic, n1))"

text \<open>
  An error \<open>ErrStatusPing\<close> would be swallowed and the zero packet cached; nothing returns that error.
\<close>

definition statusCache_Status :: "statusCache \<Rightarrow> network \<Rightarrow> Packet res \<times> statusCache \<times> network" where
  "statusCache_Status cache n =
    (if Since (nw_now n) (ca_cacheTime cache) < ca_cooldown cache then (Ok (ca_status cache), cache, n)
     else
       let (answer, n1) = newStatus cache n;
           store = (\<lambda>pk. (Ok pk, cache\<lparr>ca_cacheTime := nw_now n1, ca_status := pk\<rparr>, n1)) in
       (case answer of
          Ok pk \<Rightarrow> store pk
        | Err e \<Rightarrow> if e = ErrStatusPing then store empty_packet else (Err e, cache, n1)
        | Panic \<Rightarrow> (Panic, cache, n1)))"

section \<open>Handshake modifiers\<close>

datatype HandshakeModifier = realIPv2_4 | realIPv2_5 ecdsa_key

definition NewRealIP2_4 :: HandshakeModifier where
  "NewRealIP2_4 = realIPv2_4"

definition NewRealIP2_5 :: "ecdsa_key \<Rightarrow> HandshakeModifier" where
  "NewRealIP2_5 key = realIPv2_5 key"

text \<open>\<open>unix\<close> is the clock in seconds. The error of \<open>UpgradeToNewRealIP\<close> is dropped.\<close>

fun modifier_Modify ::
  "(ecdsa_key \<Rightarrow> byte list \<Rightarrow> byte list res) \<Rightarrow> HandshakeModifier \<Rightarrow> string \<Rightarrow> int \<Rightarrow>
    ServerBoundHandshake \<Rightarrow> ServerBoundHandshake res" where
  "modifier_Modify sign realIPv2_4 addr unix hs = Ok (UpgradeToOldRealIP_WithTime addr unix hs)"
| "modifier_Modify sign (realIPv2_5 key) addr unix hs =
    (case UpgradeToNewRealIP sign key addr unix hs of
       (hs1, Panic) \<Rightarrow> Panic
     | (hs1, x) \<Rightarrow> Ok hs1)"

section \<open>Probes with a cooldown\<close>

text \<open>
  The state agent and the status cache share a contract: while the stored answer is fresh it is
  returned and nothing else happens, and an answer that is fresh at some time is fresh earlier.
  \<open>polls ds\<close> asks repeatedly, after waiting for each of the durations \<open>ds\<close>.
\<close>

locale cooldown_probe =
  fixes get :: "'c \<Rightarrow> network \<Rightarrow> 'a res \<times> 'c \<times> network"
    and fresh :: "gotime \<Rightarrow> 'c \<Rightarrow> bool"
    and stored :: "'c \<Rightarrow> 'a"
  assumes hit: "fresh (nw_now n) c \<Longrightarrow> get c n = (Ok (stored c), c, n)"
    and fresh_earlier: "fresh t c \<Longrightarrow> t' \<le> t \<Longrightarrow> fresh t' c"
begin

fun polls :: "duration list \<Rightarrow> 'c \<Rightarrow> network \<Rightarrow> 'a res list \<times> 'c \<times> network" where
  "polls [] c n = ([], c, n)"
| "polls (d # ds) c n =
    (let (x, c1, n1) = get c (n\<lparr>nw_now := nw_now n + d\<rparr>); (xs, c2, n2) = polls ds c1 n1
     in (x # xs, c2, n2))"

lemma polls_fresh:
  assumes "\<forall>d \<in> set ds. 0 \<le> d" and "fresh (nw_now n + sum_list ds) c"
  shows "polls ds c n =
    (replicate (length ds) (Ok (stored c)), c, n\<lparr>nw_now := nw_now n + sum_list ds\<rparr>)"
  using assms
proof (induction ds arbitrary: n)
  case (Cons d ds)
  have "0 \<le> sum_list ds" using Cons.prems(1) by (simp add: sum_list_nonneg)
  then have "fresh (nw_now n + d) c"
    using fresh_earlier [OF Cons.prems(2), of "nw_now n + d"] by simp
  then have "get c (n\<lparr>nw_now := nw_now n + d\<rparr>) = (Ok (stored c), c, n\<lparr>nw_now := nw_now n + d\<rparr>)"
    using hit [of "n\<lparr>nw_now := nw_now n + d\<rparr>" c] by simp
  then show ?case using Cons.IH [of "n\<lparr>nw_now := nw_now n + d\<rparr>"] Cons.prems
    by (simp add: add.assoc)
qed simp

end

interpretation state_probe: cooldown_probe McServerState_State
  "\<lambda>t s. Since t (ms_startTime s) \<le> ms_cooldown s" ms_state
  by unfold_locales (auto simp: McServerState_State_def intro: order_trans [OF Since_mono])

interpretation status_probe: cooldown_probe statusCache_Status
  "\<lambda>t c. Since t (ca_cacheTime c) < ca_cooldown c" ca_status
  by unfold_locales (auto simp: statusCache_Status_def intro: le_less_trans [OF Since_mono])

lemma Since_le: "0 \<le> now - t \<Longrightarrow> Since now t \<le> now - t"
  by (simp add: Since_def minDuration_def)

section \<open>The dialogue with the server\<close>

lemma WriteMcPacket_eq: "mcConn_WriteMcPacket p = mcConn_WritePacket p"
  by (simp add: fun_eq_iff mcConn_WriteMcPacket_def mcConn_WritePacket_def)

lemma mcConn_ReadPacket_frame: "bufio_frame (snd (mcConn_ReadPacket m)) = bufio_frame m"
  by (simp add: mcConn_ReadPacket_def buffered.frame_ReadPacket)

lemma frame_closed: "bufio_frame m = bufio_frame m' \<Longrightarrow> nc_closed (br_conn m) = nc_closed (br_conn m')"
  by (simp add: bufio_frame_def Let_def)

lemma WritePacket_closed: "nc_closed (br_conn (snd (mcConn_WritePacket p m))) = nc_closed (br_conn m)"
  by (simp add: mcConn_WritePacket_def conn_Write_def split: option.splits)

lemma WritePacket_ok:
  "\<not> nc_closed (br_conn m) \<Longrightarrow> nc_werr (br_conn m) = None \<Longrightarrow>
   mcConn_WritePacket p m =
    (Ok (), m\<lparr>br_conn := (br_conn m)\<lparr>nc_out := nc_out (br_conn m) @ Packet_Marshal p\<rparr>\<rparr>)"
  by (simp add: mcConn_WritePacket_def conn_Write_def)

lemma mcConn_ReadPacket_Marshal:
  assumes "bufio_ok m" and "s_bytes (bufio_stream m) = Packet_Marshal pk @ rest"
    and "length (pk_Data pk) < 2 ^ 31 - 1"
  shows "\<exists>m'. mcConn_ReadPacket m = (Ok pk, m') \<and> bufio_frame m' = bufio_frame m \<and>
    bufio_stream m' = \<lparr>s_bytes = rest, s_end = s_end (bufio_stream m)\<rparr> \<and> bufio_ok m'"
proof -
  have "bufio_stream m = \<lparr>s_bytes = Packet_Marshal pk @ rest, s_end = s_end (bufio_stream m)\<rparr>"
    using assms(2) by (cases "bufio_stream m") simp
  with ReadPacket_Marshal [OF assms(3), of rest "s_end (bufio_stream m)"]
    buffered.sim_ReadPacket [OF assms(1)] buffered.frame_ReadPacket [of m]
  show ?thesis by (simp add: buffered.sim_def mcConn_ReadPacket_def prod_eq_iff)
qed

section \<open>Properties\<close>

text \<open>
  C13: After a probe of the backend all polls inside the cooldown give the probed answer without
  dialling again.
\<close>

theorem state_agent_probes_once:
  assumes "ms_cooldown s < Since (nw_now n) (ms_startTime s)"
    and "McServerState_State s n = (Ok st, s', n')"
    and "nw_now n \<le> nw_now n'" and "\<forall>d \<in> set ds. 0 \<le> d"
    and "nw_now n' + sum_list ds - nw_now n \<le> ms_cooldown s"
  shows "st = (if \<exists>c. fst (ms_connCreator s n) = Ok c then Online else Offline) \<and>
    state_probe.polls ds s' n' =
      (replicate (length ds) (Ok st), s', n'\<lparr>nw_now := nw_now n' + sum_list ds\<rparr>)"
proof -
  have s': "ms_startTime s' = nw_now n" "ms_cooldown s' = ms_cooldown s" "ms_state s' = st"
    and st: "st = (if \<exists>c. fst (ms_connCreator s n) = Ok c then Online else Offline)"
    using assms(1,2)
    by (auto simp: McServerState_State_def creator_Conn_def Let_def split: prod.splits res.splits)
  have "0 \<le> sum_list ds" using assms(4) by (simp add: sum_list_nonneg)
  then have "Since (nw_now n' + sum_list ds) (nw_now n) \<le> ms_cooldown s"
    using assms(3,5) Since_le [of "nw_now n' + sum_list ds" "nw_now n"] by simp
  then show ?thesis using state_probe.polls_fresh [OF assms(4), of n' s'] s' st by simp
qed

theorem state_agent_probes_once_witness:
  "\<exists>s' n'. McServerState_State (NewMcServerState 5 (BasicConnCreator ''b'' \<lparr>dl_Timeout = 1, dl_bind = []\<rparr>))
      \<lparr>nw_now = 100, nw_outcome = \<lambda>_ _ _. Err ErrEOF, nw_delay = \<lambda>_. 1, nw_dials = [], nw_left = []\<rparr>
      = (Ok Offline, s', n') \<and>
    state_probe.polls [2, 1] s' n' = ([Ok Offline, Ok Offline], s', n'\<lparr>nw_now := 104\<rparr>)"
  (is "\<exists>s' n'. McServerState_State ?s ?n = _ \<and> _")
proof -
  let ?s' = "?s\<lparr>ms_startTime := 100, ms_state := Offline\<rparr>"
  let ?n' = "?n\<lparr>nw_dials := [''b''], nw_now := 101\<rparr>"
  have run: "McServerState_State ?s ?n = (Ok Offline, ?s', ?n')"
    by (simp add: McServerState_State_def NewMcServerState_def BasicConnCreator_def Dial_def
        creator_Conn_def Since_def maxDuration_def minDuration_def)
  have "state_probe.polls [2, 1] ?s' ?n' =
      (replicate 2 (Ok Offline), ?s', ?n'\<lparr>nw_now := nw_now ?n' + 3\<rparr>)"
    using state_agent_probes_once [of ?s ?n Offline ?s' ?n' "[2, 1]"] run
    by (simp add: NewMcServerState_def Since_def maxDuration_def minDuration_def numeral_2_eq_2)
  with run show ?thesis by (intro exI [of _ ?s'] exI [of _ ?n']) (simp add: numeral_2_eq_2)
qed

text \<open>
  After a refresh of the status cache all polls inside the cooldown give the cached packet without
  dialling; a failed refresh leaves the cache unchanged, so that the next poll asks the backend
  again.
\<close>

theorem status_cache_polls:
  assumes "ca_cooldown c \<le> Since (nw_now n) (ca_cacheTime c)"
    and "statusCache_Status c n = (x, c', n')"
    and "\<forall>d \<in> set ds. 0 \<le> d" and "sum_list ds < ca_cooldown c"
  shows "case x of
      Ok pk \<Rightarrow> status_probe.polls ds c' n' =
        (replicate (length ds) (Ok pk), c', n'\<lparr>nw_now := nw_now n' + sum_list ds\<rparr>)
    | _ \<Rightarrow> c' = c"
proof (cases x)
  case (Ok pk)
  then have c': "ca_cacheTime c' = nw_now n'" "ca_cooldown c' = ca_cooldown c" "ca_status c' = pk"
    using assms(1,2) by (auto simp: statusCache_Status_def Let_def split: prod.splits res.splits if_splits)
  have "0 \<le> sum_list ds" using assms(3) by (simp add: sum_list_nonneg)
  then have "Since (nw_now n' + sum_list ds) (nw_now n') < ca_cooldown c"
    using assms(4) Since_le [of "nw_now n' + sum_list ds" "nw_now n'"] by simp
  then show ?thesis using status_probe.polls_fresh [OF assms(3), of n' c'] c' Ok by simp
qed (use assms(1,2) in \<open>auto simp: statusCache_Status_def Let_def split: prod.splits res.splits if_splits\<close>)

theorem status_cache_polls_witness:
  "\<exists>c' n'. statusCache_Status (NewStatusCache 755 5 (BasicConnCreator ''b'' \<lparr>dl_Timeout = 1, dl_bind = []\<rparr>))
      \<lparr>nw_now = 100, nw_outcome = \<lambda>_ _ _. Err ErrEOF, nw_delay = \<lambda>_. 1, nw_dials = [], nw_left = []\<rparr>
      = (Err ErrEOF, c', n') \<and> ca_cacheTime c' = 0"
  (is "\<exists>c' n'. statusCache_Status ?c ?n = _ \<and> _")
proof -
  let ?n' = "?n\<lparr>nw_dials := [''b''], nw_now := 101\<rparr>"
  have run: "statusCache_Status ?c ?n = (Err ErrEOF, ?c, ?n')"
    by (simp add: statusCache_Status_def newStatus_def NewStatusCache_def BasicConnCreator_def Dial_def
        creator_Conn_def Since_def maxDuration_def minDuration_def)
  have "case Err ErrEOF of Ok pk \<Rightarrow> False | _ \<Rightarrow> ?c = ?c"
    using status_cache_polls [of ?c ?n "Err ErrEOF" ?c ?n' "[]"] run
    by (simp add: NewStatusCache_def Since_def maxDuration_def minDuration_def)
  with run show ?thesis by (simp add: NewStatusCache_def)
qed

text \<open>
  Asking a backend that answers for its status sends a handshake and a status request, returns the
  answer and closes the connection.
\<close>

theorem status_dialogue_ok:
  assumes "conn_ok conn" and "\<not> nc_closed conn" and "nc_werr conn = None"
    and "concat (nc_in conn) = Packet_Marshal pk @ rest" and "length (pk_Data pk) < 2 ^ 31 - 1"
  shows "\<exists>conn'. status_dialogue hs conn = (Ok pk, conn') \<and> nc_closed conn' \<and>
    nc_out conn' = nc_out conn @ Packet_Marshal (Handshake_Marshal hs) @
      Packet_Marshal ServerBoundRequest_Marshal"
proof -
  let ?m = "(bufio_NewReader conn)\<lparr>br_conn := conn\<lparr>nc_out := nc_out conn @
    Packet_Marshal (Handshake_Marshal hs) @ Packet_Marshal ServerBoundRequest_Marshal\<rparr>\<rparr>"
  have "bufio_ok ?m" "s_bytes (bufio_stream ?m) = Packet_Marshal pk @ rest"
    using assms(1,4) by (simp_all add: bufio_ok_def conn_ok_def bufio_NewReader_def bufio_stream_def)
  from mcConn_ReadPacket_Marshal [OF this assms(5)] obtain m' where
    r: "mcConn_ReadPacket ?m = (Ok pk, m')" and f: "bufio_frame m' = bufio_frame ?m" by blast
  from f have "nc_out (br_conn m') = nc_out conn @
    Packet_Marshal (Handshake_Marshal hs) @ Packet_Marshal ServerBoundRequest_Marshal"
    by (simp add: bufio_frame_def Let_def)
  moreover have "status_dialogue hs conn = (Ok pk, conn_Close (br_conn m'))"
    using r assms(2,3)
    by (simp add: status_dialogue_def WriteMcPacket_eq WritePacket_ok NewMcConn_def bufio_NewReader_def)
  ultimately show ?thesis by (simp add: conn_Close_def)
qed

theorem status_dialogue_ok_witness:
  "\<exists>conn'. status_dialogue zero_handshake \<lparr>nc_in = [[3, 0], [7, 8]], nc_end = ErrEOF, nc_out = [],
      nc_werr = None, nc_closed = False, nc_deadline = None, nc_addr = ''b''\<rparr>
    = (Ok \<lparr>pk_ID = 0, pk_Data = [7, 8]\<rparr>, conn') \<and> nc_closed conn'"
  (is "\<exists>conn'. status_dialogue _ ?c = (Ok ?pk, conn') \<and> _")
proof -
  have "Packet_Marshal ?pk = [3, 0, 7, 8]"
    by (simp add: Packet_Marshal_def VarInt_Encode.simps Let_def)
  then have "concat (nc_in ?c) = Packet_Marshal ?pk @ []" by simp
  from status_dialogue_ok [OF _ _ _ this, of zero_handshake] show ?thesis by (auto simp: conn_ok_def)
qed

text \<open>
  The connection of a status request is closed if and only if the request succeeds: every error path
  leaves it open.
\<close>

theorem status_dialogue_closes:
  assumes "\<not> nc_closed conn"
  shows "nc_closed (snd (status_dialogue hs conn)) \<longleftrightarrow> (\<exists>pk. fst (status_dialogue hs conn) = Ok pk)"
proof -
  obtain x1 m1 where w1: "mcConn_WritePacket (Handshake_Marshal hs) (NewMcConn conn) = (x1, m1)"
    by fastforce
  obtain x2 m2 where w2: "mcConn_WritePacket ServerBoundRequest_Marshal m1 = (x2, m2)" by fastforce
  obtain x3 m3 where r: "mcConn_ReadPacket m2 = (x3, m3)" by fastforce
  have "br_conn (NewMcConn conn) = conn" by (simp add: NewMcConn_def bufio_NewReader_def)
  then have "\<not> nc_closed (br_conn m1)" "\<not> nc_closed (br_conn m2)" "\<not> nc_closed (br_conn m3)"
    using assms WritePacket_closed [of "Handshake_Marshal hs" "NewMcConn conn"]
      WritePacket_closed [of ServerBoundRequest_Marshal m1]
      frame_closed [OF mcConn_ReadPacket_frame [of m2]]
    by (simp_all add: w1 w2 r)
  then show ?thesis
    by (cases x1; cases x2; cases x3)
      (simp_all add: status_dialogue_def WriteMcPacket_eq w1 w2 r conn_Close_def)
qed

theorem status_dialogue_closes_witness:
  "\<not> nc_closed (snd (status_dialogue zero_handshake \<lparr>nc_in = [], nc_end = ErrEOF, nc_out = [],
      nc_werr = Some ErrNetClosed, nc_closed = False, nc_deadline = None, nc_addr = ''b''\<rparr>))"
  (is "\<not> nc_closed (snd (status_dialogue _ ?c))")
proof -
  have "fst (status_dialogue zero_handshake ?c) = Err ErrNetClosed"
    by (simp add: status_dialogue_def WriteMcPacket_eq mcConn_WritePacket_def conn_Write_def
        NewMcConn_def bufio_NewReader_def)
  with status_dialogue_closes [of ?c zero_handshake] show ?thesis by simp
qed

end
