(* ===== verification/Cfg_Types.thy ===== *)
theory Cfg_Types
  imports Mod_Probe
begin

text \<open>
  The configuration types (config/types.go), their defaults, and the check of the server
  configurations (config/verify.go).
\<close>

section \<open>Server configurations\<close>

record ServerConfig =
  sf_FilePath :: string
  sf_Name :: string
  sf_Domains :: "string list"
  sf_ProxyTo :: string
  sf_ProxyBind :: string
  sf_DialTimeout :: string
  sf_OldRealIP :: bool
  sf_NewRealIP :: bool
  sf_RealIPKey :: string
  sf_SendProxyProtocol :: bool
  sf_DisconnectMessage :: string
  sf_CacheStatus :: bool
  sf_CacheUpdateCooldown :: string
  sf_ValidProtocol :: go_int
  sf_OfflineStatus :: SimpleStatus
  sf_RateLimit :: int
  sf_RateDuration :: string
  sf_RateBanListCooldown :: string
  sf_RateDisconMsg :: string
  sf_CheckStateOption :: string
  sf_StateUpdateCooldown :: string

definition ServerConfig_ID :: "ServerConfig \<Rightarrow> string" where
  "ServerConfig_ID cfg = sf_FilePath cfg"

text \<open>A JSON text \<open>{"text": "..."}\<close> of a message.\<close>

definition message_text :: "string \<Rightarrow> string" where
  "message_text m = ''{'' @ [quote] @ ''text'' @ [quote] @ '': '' @ [quote] @ m @ [quote] @ ''}''"

definition zero_ServerConfig :: ServerConfig where
  "zero_ServerConfig = \<lparr>sf_FilePath = [], sf_Name = [], sf_Domains = [], sf_ProxyTo = [],
    sf_ProxyBind = [], sf_DialTimeout = [], sf_OldRealIP = False, sf_NewRealIP = False,
    sf_RealIPKey = [], sf_SendProxyProtocol = False, sf_DisconnectMessage = [],
    sf_CacheStatus = False, sf_CacheUpdateCooldown = [], sf_ValidProtocol = 0,
    sf_OfflineStatus = zero_status, sf_RateLimit = 0, sf_RateDuration = [],
    sf_RateBanListCooldown = [], sf_RateDisconMsg = [], sf_CheckStateOption = [],
    sf_StateUpdateCooldown = []\<rparr>"

definition DefaultServerConfig :: ServerConfig where
  "DefaultServerConfig = zero_ServerConfig
    \<lparr>sf_DialTimeout := ''1s'',
     sf_DisconnectMessage := message_text ''Server is offline'', sf_CacheStatus := True,
     sf_CacheUpdateCooldown := ''1m'', sf_RateLimit := 5, sf_RateDuration := ''1s'',
     sf_RateBanListCooldown := ''5m'',
     sf_RateDisconMsg := message_text ''Please reconnect to verify yourself'',
     sf_StateUpdateCooldown := ''5s''\<rparr>"

record APIServerConfig =
  ac_ID :: string
  ac_Domains :: "string list"
  ac_ProxyTo :: string
  ac_ProxyBind :: string
  ac_DialTimeout :: string
  ac_SendProxyProtocol :: bool
  ac_IsOnline :: bool
  ac_UseStatusCache :: bool
  ac_CachedStatus :: SimpleStatus
  ac_DisconnectMessage :: string
  ac_LimitBots :: bool

section \<open>The main configuration\<close>

record UltravioletConfig =
  uc_ListenTo :: string
  uc_DefaultStatus :: SimpleStatus
  uc_VerifyConnMsg :: string
  uc_NumberOfWorkers :: int
  uc_NumberOfListeners :: int
  uc_AcceptProxyProtocol :: bool
  uc_UsePrometheus :: bool
  uc_PrometheusBind :: string
  uc_APIBind :: string
  uc_UseTableflip :: bool
  uc_PidFile :: string
  uc_UseLessStableMode :: bool
  uc_IODeadline :: duration

definition VerifyConnectionPk :: "UltravioletConfig \<Rightarrow> Packet" where
  "VerifyConnectionPk cfg = ClientBoundDisconnect_Marshal (uc_VerifyConnMsg cfg)"

definition DefaultStatusPk :: "(string \<Rightarrow> string) \<Rightarrow> UltravioletConfig \<Rightarrow> Packet" where
  "DefaultStatusPk uni cfg = SimpleStatus_Marshal uni (uc_DefaultStatus cfg)"

definition DefaultUltravioletConfig :: UltravioletConfig where
  "DefaultUltravioletConfig =
    \<lparr>uc_ListenTo = '':25565'',
     uc_DefaultStatus = \<lparr>ss_Name = ''Ultraviolet'', ss_Protocol = 0,
       ss_Description = ''Some proxy didnt proxy'', ss_Favicon = []\<rparr>,
     uc_VerifyConnMsg = message_text ''Please reconnect to verify yourself'',
     uc_NumberOfWorkers = 10, uc_NumberOfListeners = 1, uc_AcceptProxyProtocol = False,
     uc_UsePrometheus = True, uc_PrometheusBind = '':9100'', uc_APIBind = ''127.0.0.1:9099'',
     uc_UseTableflip = True, uc_PidFile = [], uc_UseLessStableMode = False, uc_IODeadline = second\<rparr>"

section \<open>Worker configurations\<close>

text \<open>\<open>StateOptions\<close> is an int whose zero value is none of the named options: \<open>NO_OPTION\<close>.\<close>

datatype StateOptions = NO_OPTION | CACHE | ALWAYS_ONLINE | ALWAYS_OFFLINE

definition NewStateOption :: "string \<Rightarrow> StateOptions" where
  "NewStateOption option =
    (let o1 = CACHE in
     if option = ''online'' then ALWAYS_ONLINE
     else if option = ''offline'' then ALWAYS_OFFLINE else o1)"

record BackendWorkerConfig =
  bc_Name :: string
  bc_StateOption :: StateOptions
  bc_StateUpdateCooldown :: duration
  bc_OldRealIp :: bool
  bc_NewRealIP :: bool
  bc_RealIPKey :: ecdsa_key
  bc_CacheStatus :: bool
  bc_CacheUpdateCooldown :: duration
  bc_ValidProtocol :: go_int
  bc_OfflineStatus :: Packet
  bc_DisconnectPacket :: Packet
  bc_ProxyTo :: string
  bc_ProxyBind :: string
  bc_DialTimeout :: duration
  bc_SendProxyProtocol :: bool
  bc_RateLimit :: int
  bc_RateLimitStatus :: bool
  bc_RateLimitDuration :: duration
  bc_RateBanListCooldown :: duration
  bc_RateDisconPk :: Packet

definition zero_BackendWorkerConfig :: BackendWorkerConfig where
  "zero_BackendWorkerConfig = \<lparr>bc_Name = [], bc_StateOption = NO_OPTION,
    bc_StateUpdateCooldown = 0, bc_OldRealIp = False, bc_NewRealIP = False, bc_RealIPKey = None,
    bc_CacheStatus = False, bc_CacheUpdateCooldown = 0, bc_ValidProtocol = 0,
    bc_OfflineStatus = empty_packet, bc_DisconnectPacket = empty_packet, bc_ProxyTo = [],
    bc_ProxyBind = [], bc_DialTimeout = 0, bc_SendProxyProtocol = False, bc_RateLimit = 0,
    bc_RateLimitStatus = False, bc_RateLimitDuration = 0, bc_RateBanListCooldown = 0,
    bc_RateDisconPk = empty_packet\<rparr>"

record WorkerConfig =
  wc_NumberOfWorkers :: int
  wc_DefaultStatus :: SimpleStatus
  wc_IOTimeout :: duration

definition DefaultWorkerConfig :: WorkerConfig where
  "DefaultWorkerConfig =
    \<lparr>wc_NumberOfWorkers = 0, wc_DefaultStatus = zero_status, wc_IOTimeout = second\<rparr>"

definition NewWorkerConfig :: "UltravioletConfig \<Rightarrow> WorkerConfig" where
  "NewWorkerConfig uvCfg =
    (let uvCfg1 = (if uc_IODeadline uvCfg = 0 then uvCfg\<lparr>uc_IODeadline := second\<rparr> else uvCfg)
     in \<lparr>wc_NumberOfWorkers = 0, wc_DefaultStatus = uc_DefaultStatus uvCfg1,
         wc_IOTimeout = uc_IODeadline uvCfg1\<rparr>)"

section \<open>The check of the server configurations\<close>

datatype verify_item =
    EmptyDomains string
  | EmptyProxyTo string
  | DuplicateDomain (dd_Domain: string) (dd_Cfg1Path: string) (dd_Cfg2Path: string)

fun verify_item_Error :: "verify_item \<Rightarrow> string" where
  "verify_item_Error (EmptyDomains path) =
    [CHR 0x27] @ ''domains'' @ [CHR 0x27] @ '' is not allowed to be empty in '' @ path"
| "verify_item_Error (EmptyProxyTo path) =
    [CHR 0x27] @ ''proxyTo'' @ [CHR 0x27] @ '' is not allowed to be empty in '' @ path"
| "verify_item_Error (DuplicateDomain domain p1 p2) =
    [CHR 0x27] @ domain @ [CHR 0x27] @ '' has been found in '' @ p1 @ '' and '' @ p2"

type_synonym verifyError = "verify_item list"

definition NewVerifyError :: verifyError where
  "NewVerifyError = []"

definition verifyError_Add :: "verify_item \<Rightarrow> verifyError \<Rightarrow> verifyError" where
  "verifyError_Add err vErr = vErr @ [err]"

definition verifyError_HasErrors :: "verifyError \<Rightarrow> bool" where
  "verifyError_HasErrors err \<longleftrightarrow> 0 < length err"

definition verifyError_Error :: "verifyError \<Rightarrow> string" where
  "verifyError_Error vErr = ''The following errors have been found: '' @
    concat (map (\<lambda>err. CHR 0x0A # verify_item_Error err) vErr)"

text \<open>The inner loop, over the domains of the configuration at \<open>index\<close>, and the outer loop.\<close>

fun verify_domains ::
  "ServerConfig list \<Rightarrow> nat \<Rightarrow> ServerConfig \<Rightarrow> string list \<Rightarrow> (string \<rightharpoonup> nat) \<Rightarrow> verifyError \<Rightarrow>
    (string \<rightharpoonup> nat) \<times> verifyError" where
  "verify_domains cfgs index cfg [] domains vErrors = (domains, vErrors)"
| "verify_domains cfgs index cfg (domain # ds) domains vErrors =
    (case domains domain of
       Some otherIndex \<Rightarrow>
         verify_domains cfgs index cfg ds domains
           (verifyError_Add (DuplicateDomain domain (sf_FilePath cfg) (sf_FilePath (cfgs ! otherIndex)))
             vErrors)
     | None \<Rightarrow> verify_domains cfgs index cfg ds (domains(domain \<mapsto> index)) vErrors)"

fun verify_loop ::
  "ServerConfig list \<Rightarrow> nat \<Rightarrow> ServerConfig list \<Rightarrow> (string \<rightharpoonup> nat) \<Rightarrow> verifyError \<Rightarrow> verifyError" where
  "verify_loop cfgs index [] domains vErrors = vErrors"
| "verify_loop cfgs index (cfg # rest) domains vErrors =
    (let v1 = (if length (sf_Domains cfg) = 0
               then verifyError_Add (EmptyDomains (sf_FilePath cfg)) vErrors else vErrors);
         v2 = (if sf_ProxyTo cfg = [] then verifyError_Add (EmptyProxyTo (sf_FilePath cfg)) v1 else v1);
         (domains', v3) = verify_domains cfgs index cfg (sf_Domains cfg) domains v2
     in verify_loop cfgs (Suc index) rest domains' v3)"

text \<open>\<open>None\<close> is the nil error.\<close>

definition VerifyConfigs :: "ServerConfig list \<Rightarrow> verifyError option" where
  "VerifyConfigs cfgs =
    (let vErrors = verify_loop cfgs 0 cfgs Map.empty NewVerifyError
     in if verifyError_HasErrors vErrors then Some vErrors else None)"

section \<open>Facts about the check\<close>

lemma verify_domains_errors:
  assumes "verify_domains cfgs i cfg ds dm v = (dm', v')"
  shows "\<exists>new. v' = v @ new \<and> dom dm' = dom dm \<union> set ds \<and>
    (new = [] \<longleftrightarrow> distinct ds \<and> set ds \<inter> dom dm = {})"
  using assms
proof (induction cfgs i cfg ds dm v rule: verify_domains.induct)
  case (2 cfgs i cfg d ds dm v)
  show ?case
  proof (cases "dm d")
    case None
    with 2(3) have "verify_domains cfgs i cfg ds (dm(d \<mapsto> i)) v = (dm', v')" by simp
    from 2(1) [OF None this] obtain new where
      "v' = v @ new" "dom dm' = dom (dm(d \<mapsto> i)) \<union> set ds"
      "new = [] \<longleftrightarrow> distinct ds \<and> set ds \<inter> dom (dm(d \<mapsto> i)) = {}" by blast
    with None show ?thesis by (intro exI [of _ new]) auto
  next
    case (Some k)
    with 2(3) have "verify_domains cfgs i cfg ds dm
        (v @ [DuplicateDomain d (sf_FilePath cfg) (sf_FilePath (cfgs ! k))]) = (dm', v')"
      by (simp add: verifyError_Add_def)
    with 2(2) Some obtain new where
      "v' = (v @ [DuplicateDomain d (sf_FilePath cfg) (sf_FilePath (cfgs ! k))]) @ new"
      "dom dm' = dom dm \<union> set ds" by (metis verifyError_Add_def)
    with Some show ?thesis by auto
  qed
qed simp

definition config_ok :: "ServerConfig \<Rightarrow> bool" where
  "config_ok cfg \<longleftrightarrow> sf_Domains cfg \<noteq> [] \<and> sf_ProxyTo cfg \<noteq> []"

lemma verify_loop_errors:
  "\<exists>new. verify_loop cfgs i rest dm v = v @ new \<and>
    (new = [] \<longleftrightarrow> list_all config_ok rest \<and> distinct (concat (map sf_Domains rest)) \<and>
      set (concat (map sf_Domains rest)) \<inter> dom dm = {})"
proof (induction rest arbitrary: i dm v)
  case (Cons cfg rest)
  let ?v1 = "if length (sf_Domains cfg) = 0
    then verifyError_Add (EmptyDomains (sf_FilePath cfg)) v else v"
  let ?v2 = "if sf_ProxyTo cfg = [] then verifyError_Add (EmptyProxyTo (sf_FilePath cfg)) ?v1 else ?v1"
  obtain dm' v3 where vd: "verify_domains cfgs i cfg (sf_Domains cfg) dm ?v2 = (dm', v3)" by fastforce
  from verify_domains_errors [OF this] obtain n1 where n1: "v3 = ?v2 @ n1"
    "dom dm' = dom dm \<union> set (sf_Domains cfg)"
    "n1 = [] \<longleftrightarrow> distinct (sf_Domains cfg) \<and> set (sf_Domains cfg) \<inter> dom dm = {}" by blast
  from Cons.IH [of "Suc i" dm' v3] obtain n2 where n2: "verify_loop cfgs (Suc i) rest dm' v3 = v3 @ n2"
    "n2 = [] \<longleftrightarrow> list_all config_ok rest \<and> distinct (concat (map sf_Domains rest)) \<and>
      set (concat (map sf_Domains rest)) \<inter> dom dm' = {}" by blast
  have "\<exists>n0. ?v2 = v @ n0 \<and> (n0 = [] \<longleftrightarrow> config_ok cfg)"
    by (simp add: verifyError_Add_def config_ok_def)
  then obtain n0 where n0: "?v2 = v @ n0" "n0 = [] \<longleftrightarrow> config_ok cfg" by blast
  have "verify_loop cfgs i (cfg # rest) dm v = v @ (n0 @ n1 @ n2)"
    using vd n1(1) n2(1) n0(1) by (simp only: verify_loop.simps Let_def) simp
  moreover have "n0 @ n1 @ n2 = [] \<longleftrightarrow> list_all config_ok (cfg # rest) \<and>
      distinct (concat (map sf_Domains (cfg # rest))) \<and>
      set (concat (map sf_Domains (cfg # rest))) \<inter> dom dm = {}"
    using n0(2) n1(2,3) n2(2) by auto
  ultimately show ?case by blast
qed simp

lemma VerifyConfigs_None:
  "VerifyConfigs cfgs = None \<longleftrightarrow>
    list_all config_ok cfgs \<and> distinct (concat (map sf_Domains cfgs))"
  using verify_loop_errors [of cfgs 0 cfgs Map.empty "[]"]
  by (auto simp: VerifyConfigs_def verifyError_HasErrors_def NewVerifyError_def Let_def)

text \<open>Every duplicate reported is between two configurations that hold the domain.\<close>

definition known_domains :: "ServerConfig list \<Rightarrow> nat \<Rightarrow> (string \<rightharpoonup> nat) \<Rightarrow> bool" where
  "known_domains cfgs j dm \<longleftrightarrow> (\<forall>d k. dm d = Some k \<longrightarrow> k \<le> j \<and> d \<in> set (sf_Domains (cfgs ! k)))"

definition real_duplicate :: "ServerConfig list \<Rightarrow> verify_item \<Rightarrow> bool" where
  "real_duplicate cfgs err \<longleftrightarrow> (\<forall>d p1 p2. err = DuplicateDomain d p1 p2 \<longrightarrow>
    (\<exists>i j. i \<le> j \<and> j < length cfgs \<and> d \<in> set (sf_Domains (cfgs ! i)) \<and>
      d \<in> set (sf_Domains (cfgs ! j)) \<and> sf_FilePath (cfgs ! j) = p1 \<and> sf_FilePath (cfgs ! i) = p2))"

lemma verify_domains_real:
  assumes "verify_domains cfgs j (cfgs ! j) ds dm v = (dm', v')" and "j < length cfgs"
    and "set ds \<subseteq> set (sf_Domains (cfgs ! j))" and "known_domains cfgs j dm"
    and "list_all (real_duplicate cfgs) v"
  shows "known_domains cfgs j dm' \<and> list_all (real_duplicate cfgs) v'"
  using assms
proof (induction cfgs j "cfgs ! j" ds dm v rule: verify_domains.induct)
  case (2 cfgs j d ds dm v)
  show ?case
  proof (cases "dm d")
    case None
    with 2(3) have "verify_domains cfgs j (cfgs ! j) ds (dm(d \<mapsto> j)) v = (dm', v')" by simp
    moreover have "known_domains cfgs j (dm(d \<mapsto> j))"
      using 2(5,6) by (simp add: known_domains_def)
    ultimately show ?thesis using 2(1) [OF None] 2(4,5,7) by simp
  next
    case (Some k)
    let ?e = "DuplicateDomain d (sf_FilePath (cfgs ! j)) (sf_FilePath (cfgs ! k))"
    from Some 2(3) have run: "verify_domains cfgs j (cfgs ! j) ds dm (verifyError_Add ?e v) = (dm', v')"
      by simp
    have "k \<le> j" "d \<in> set (sf_Domains (cfgs ! k))"
      using Some 2(6) by (auto simp: known_domains_def)
    moreover have "d \<in> set (sf_Domains (cfgs ! j))" using 2(5) by simp
    ultimately have "real_duplicate cfgs ?e" using 2(4) by (auto simp: real_duplicate_def)
    with 2(7) have "list_all (real_duplicate cfgs) (verifyError_Add ?e v)"
      by (simp add: verifyError_Add_def)
    from 2(2) [OF Some run 2(4) _ 2(6) this] 2(5) show ?thesis by simp
  qed
qed simp

lemma verify_loop_real:
  assumes "rest = drop j cfgs" and "known_domains cfgs j dm" and "list_all (real_duplicate cfgs) v"
  shows "list_all (real_duplicate cfgs) (verify_loop cfgs j rest dm v)"
  using assms
proof (induction rest arbitrary: j dm v)
  case (Cons cfg rest)
  then have j: "j < length cfgs" and cfg: "cfg = cfgs ! j" and rest: "rest = drop (Suc j) cfgs"
    by (metis drop_all list.distinct(1) not_le, metis Cons.prems(1) nth_via_drop,
        metis drop_Suc list.sel(3) tl_drop)
  let ?v1 = "if length (sf_Domains cfg) = 0
    then verifyError_Add (EmptyDomains (sf_FilePath cfg)) v else v"
  let ?v2 = "if sf_ProxyTo cfg = [] then verifyError_Add (EmptyProxyTo (sf_FilePath cfg)) ?v1 else ?v1"
  obtain dm' v3 where vd: "verify_domains cfgs j cfg (sf_Domains cfg) dm ?v2 = (dm', v3)" by fastforce
  have "list_all (real_duplicate cfgs) ?v2"
    using Cons.prems(3) by (simp add: verifyError_Add_def) (simp add: real_duplicate_def)
  with verify_domains_real [of cfgs j "sf_Domains cfg" dm ?v2 dm' v3] vd j cfg Cons.prems(2)
  have "known_domains cfgs j dm'" "list_all (real_duplicate cfgs) v3" by auto
  then have "list_all (real_duplicate cfgs) (verify_loop cfgs (Suc j) rest dm' v3)"
    using rest by (intro Cons.IH) (auto simp: known_domains_def dest: le_SucI)
  with vd show ?case by (simp only: verify_loop.simps Let_def) simp
qed simp

section \<open>Properties\<close>

text \<open>
  C14: VerifyConfigs accepts a list of configurations exactly when every one has a domain and a
  target and no domain occurs twice.
\<close>

theorem VerifyConfigs_iff:
  "VerifyConfigs cfgs = None \<longleftrightarrow>
    list_all config_ok cfgs \<and> distinct (concat (map sf_Domains cfgs))"
  by (rule VerifyConfigs_None)

text \<open>
  Every duplicate that is reported is one: both files list the domain.
\<close>

theorem VerifyConfigs_duplicates_real:
  assumes "VerifyConfigs cfgs = Some errs" and "DuplicateDomain d p1 p2 \<in> set errs"
  shows "\<exists>i j. i \<le> j \<and> j < length cfgs \<and> d \<in> set (sf_Domains (cfgs ! i)) \<and>
    d \<in> set (sf_Domains (cfgs ! j)) \<and> sf_FilePath (cfgs ! j) = p1 \<and> sf_FilePath (cfgs ! i) = p2"
proof -
  have "list_all (real_duplicate cfgs) (verify_loop cfgs 0 cfgs Map.empty NewVerifyError)"
    by (rule verify_loop_real) (simp_all add: known_domains_def NewVerifyError_def)
  moreover have "verify_loop cfgs 0 cfgs Map.empty NewVerifyError = errs"
    using assms(1) by (simp add: VerifyConfigs_def Let_def split: if_splits)
  ultimately show ?thesis using assms(2) by (auto simp: list_all_iff real_duplicate_def)
qed

theorem VerifyConfigs_duplicates_real_witness:
  "\<exists>i j. i \<le> j \<and> j < 2 \<and>
    sf_FilePath ([zero_ServerConfig\<lparr>sf_FilePath := ''a'', sf_Domains := [''x''], sf_ProxyTo := ''t''\<rparr>,
      zero_ServerConfig\<lparr>sf_FilePath := ''b'', sf_Domains := [''x''], sf_ProxyTo := ''t''\<rparr>] ! j) = ''b''"
  (is "\<exists>i j. i \<le> j \<and> j < 2 \<and> sf_FilePath (?cfgs ! j) = _")
proof -
  have "VerifyConfigs ?cfgs = Some [DuplicateDomain ''x'' ''b'' ''a'']"
    by (simp add: VerifyConfigs_def verifyError_HasErrors_def NewVerifyError_def verifyError_Add_def
        zero_ServerConfig_def Let_def)
  from VerifyConfigs_duplicates_real [OF this, of "''x''" "''b''" "''a''"] show ?thesis
    by (simp add: numeral_2_eq_2) blast
qed

end
