(* ===== verification/Cfg_File.thy ===== *)
theory Cfg_File
  imports Cfg_Types
begin

text \<open>
  Reading configurations and turning them into the ones the servers use (config/file.go,
  config/file_reader.go). The operating system, the JSON codec of the configuration structs, the
  elliptic curve keys and \<open>time.ParseDuration\<close> are the parameters collected in \<open>os_env\<close>; \<open>'f\<close> is
  the state of the file system and of the random source.
\<close>

section \<open>The environment\<close>

text \<open>
  \<open>filepath.Walk\<close> calls its function for each entry with the path and the error met there.
  \<open>en_parse_duration\<close> is \<open>None\<close> on an error.
\<close>

record walk_entry =
  we_path :: string
  we_name :: string
  we_isDir :: bool
  we_err :: "go_error option"

record 'f os_env =
  en_Stat :: "string \<Rightarrow> 'f \<Rightarrow> unit res"
  en_ReadFile :: "string \<Rightarrow> 'f \<Rightarrow> byte list res"
  en_WriteFile :: "string \<Rightarrow> byte list \<Rightarrow> 'f \<Rightarrow> unit res \<times> 'f"
  en_MkdirAll :: "string \<Rightarrow> 'f \<Rightarrow> unit res \<times> 'f"
  en_Walk :: "string \<Rightarrow> 'f \<Rightarrow> walk_entry list"
  en_Join :: "string \<Rightarrow> string \<Rightarrow> string"
  en_Dir :: "string \<Rightarrow> string"
  en_marshal_uv :: "UltravioletConfig \<Rightarrow> byte list res"
  en_unmarshal_uv :: "byte list \<Rightarrow> UltravioletConfig \<Rightarrow> UltravioletConfig \<times> unit res"
  en_marshal_server :: "ServerConfig \<Rightarrow> byte list res"
  en_unmarshal_server :: "byte list \<Rightarrow> ServerConfig \<Rightarrow> ServerConfig \<times> unit res"
  en_ParseECPrivateKey :: "byte list \<Rightarrow> ecdsa_key res"
  en_MarshalECPrivateKey :: "ecdsa_key \<Rightarrow> byte list res"
  en_MarshalPublicKey :: "ecdsa_key \<Rightarrow> byte list res"
  en_GenerateKey :: "'f \<Rightarrow> ecdsa_key res \<times> 'f"
  en_parse_duration :: "string \<Rightarrow> duration option"

section \<open>The main configuration\<close>

definition MainConfigFileName :: string where
  "MainConfigFileName = ''ultraviolet.json''"

definition zero_UltravioletConfig :: UltravioletConfig where
  "zero_UltravioletConfig =
    \<lparr>uc_ListenTo = [], uc_DefaultStatus = zero_status, uc_VerifyConnMsg = [],
     uc_NumberOfWorkers = 0, uc_NumberOfListeners = 0, uc_AcceptProxyProtocol = False,
     uc_UsePrometheus = False, uc_PrometheusBind = [], uc_APIBind = [], uc_UseTableflip = False,
     uc_PidFile = [], uc_UseLessStableMode = False, uc_IODeadline = 0\<rparr>"

text \<open>
  The result is the configuration returned and the error returned with it. \<open>log.Fatal\<close> ends the
  process, as a panic does.
\<close>

definition ReadUltravioletConfig ::
  "'f os_env \<Rightarrow> string \<Rightarrow> 'f \<Rightarrow> (UltravioletConfig \<times> go_error option) res \<times> 'f" where
  "ReadUltravioletConfig env path f =
    (let cfg = DefaultUltravioletConfig; filePath = en_Join env path MainConfigFileName in
     if en_Stat env filePath f = Err ErrNotExist then
       let (made, f1) = (if en_Stat env path f = Err ErrNotExist then en_MkdirAll env path f else (Ok (), f))
       in (case made of
          Ok _ \<Rightarrow>
            (case en_marshal_uv env cfg of
               Ok bb \<Rightarrow>
                 (case en_WriteFile env filePath bb f1 of
                    (Ok _, f2) \<Rightarrow> (Ok (cfg, None), f2)
                  | (Err e, f2) \<Rightarrow> (Ok (cfg, Some e), f2)
                  | (Panic, f2) \<Rightarrow> (Panic, f2))
             | Err e \<Rightarrow> (Ok (zero_UltravioletConfig, Some e), f1)
             | Panic \<Rightarrow> (Panic, f1))
        | _ \<Rightarrow> (Panic, f1))
     else
       (case en_ReadFile env filePath f of
          Ok bb \<Rightarrow>
            (case en_unmarshal_uv env bb cfg of
               (cfg1, Ok _) \<Rightarrow> (Ok (cfg1, None), f)
             | (cfg1, Err e) \<Rightarrow> (Ok (cfg1, Some e), f)
             | (cfg1, Panic) \<Rightarrow> (Panic, f))
        | Err e \<Rightarrow> (Ok (zero_UltravioletConfig, Some e), f)
        | Panic \<Rightarrow> (Panic, f)))"

text \<open>\<open>CombineUltravioletConfigs\<close> and \<open>CombineServerConfigs\<close>: the new configuration over the old.\<close>

definition CombineUltravioletConfigs ::
  "'f os_env \<Rightarrow> UltravioletConfig \<Rightarrow> UltravioletConfig \<Rightarrow> (UltravioletConfig \<times> go_error option) res" where
  "CombineUltravioletConfigs env old new =
    (let cfg = old; failed = ErrOther ''failed to combine config structs'' in
     case en_marshal_uv env new of
       Ok bb \<Rightarrow>
         (case en_unmarshal_uv env bb cfg of
            (cfg1, Ok _) \<Rightarrow> Ok (cfg1, None)
          | (cfg1, Err _) \<Rightarrow> Ok (cfg1, Some failed)
          | (cfg1, Panic) \<Rightarrow> Panic)
     | Err _ \<Rightarrow> Ok (cfg, Some failed)
     | Panic \<Rightarrow> Panic)"

definition CombineServerConfigs ::
  "'f os_env \<Rightarrow> ServerConfig \<Rightarrow> ServerConfig \<Rightarrow> (ServerConfig \<times> go_error option) res" where
  "CombineServerConfigs env old new =
    (let cfg = old; failed = ErrOther ''failed to combine config structs'' in
     case en_marshal_server env new of
       Ok bb \<Rightarrow>
         (case en_unmarshal_server env bb cfg of
            (cfg1, Ok _) \<Rightarrow> Ok (cfg1, None)
          | (cfg1, Err _) \<Rightarrow> Ok (cfg1, Some failed)
          | (cfg1, Panic) \<Rightarrow> Panic)
     | Err _ \<Rightarrow> Ok (cfg, Some failed)
     | Panic \<Rightarrow> Panic)"

section \<open>Server configuration files\<close>

definition LoadServerCfgFromPath :: "'f os_env \<Rightarrow> string \<Rightarrow> 'f \<Rightarrow> (ServerConfig \<times> go_error option) res" where
  "LoadServerCfgFromPath env path f =
    (case en_ReadFile env path f of
       Ok bb \<Rightarrow>
         (let cfg = DefaultServerConfig in
          case en_unmarshal_server env bb cfg of
            (cfg1, Ok _) \<Rightarrow> Ok (cfg1\<lparr>sf_FilePath := path\<rparr>, None)
          | (cfg1, Err e) \<Rightarrow> Ok (cfg1, Some e)
          | (cfg1, Panic) \<Rightarrow> Panic)
     | Err e \<Rightarrow> Ok (zero_ServerConfig, Some e)
     | Panic \<Rightarrow> Panic)"

text \<open>\<open>filepath.Ext\<close>: from the last dot of the last element of the path.\<close>

definition Ext :: "string \<Rightarrow> string" where
  "Ext path =
    (let last_el = rev (takeWhile (\<lambda>c. c \<noteq> CHR ''/'') (rev path));
         after_dot = rev (takeWhile (\<lambda>c. c \<noteq> CHR ''.'') (rev last_el))
     in if CHR ''.'' \<in> set last_el then CHR ''.'' # after_dot else [])"

text \<open>The function given to \<open>filepath.Walk\<close>; the walk stops at the first error it returns.\<close>

fun walk_json :: "walk_entry list \<Rightarrow> string list \<Rightarrow> string list \<times> go_error option" where
  "walk_json [] filePaths = (filePaths, None)"
| "walk_json (w # ws) filePaths =
    (case we_err w of
       Some e \<Rightarrow> (filePaths, Some e)
     | None \<Rightarrow>
         if we_isDir w then walk_json ws filePaths
         else if Ext (we_path w) \<noteq> ''.json'' then walk_json ws filePaths
         else if we_name w = MainConfigFileName then walk_json ws filePaths
         else walk_json ws (filePaths @ [we_path w]))"

fun load_all :: "'f os_env \<Rightarrow> string list \<Rightarrow> 'f \<Rightarrow> ServerConfig list \<Rightarrow> ServerConfig list res" where
  "load_all env [] f cfgs = Ok cfgs"
| "load_all env (filePath # rest) f cfgs =
    (case LoadServerCfgFromPath env filePath f of
       Ok (cfg, None) \<Rightarrow> load_all env rest f (cfgs @ [cfg])
     | Ok (cfg, Some e) \<Rightarrow> Err e
     | Err e \<Rightarrow> Err e
     | Panic \<Rightarrow> Panic)"

definition ReadServerConfigs :: "'f os_env \<Rightarrow> string \<Rightarrow> 'f \<Rightarrow> ServerConfig list res" where
  "ReadServerConfigs env path f =
    (let (filePaths, err) = walk_json (en_Walk env path f) [] in
     if length filePaths = 0 then Err ErrNoConfigFiles
     else (case err of Some e \<Rightarrow> Err e | None \<Rightarrow> load_all env filePaths f []))"

text \<open>The error of the verifier is a \<open>verifyError\<close>, given here by its text.\<close>

record backendConfigFileReader =
  cr_path :: string
  cr_verifier :: "ServerConfig list \<Rightarrow> verifyError option"

definition NewBackendConfigFileReader ::
  "string \<Rightarrow> (ServerConfig list \<Rightarrow> verifyError option) \<Rightarrow> backendConfigFileReader" where
  "NewBackendConfigFileReader path verifier = \<lparr>cr_path = path, cr_verifier = verifier\<rparr>"

definition backendConfigFileReader_Read ::
  "'f os_env \<Rightarrow> backendConfigFileReader \<Rightarrow> 'f \<Rightarrow> ServerConfig list res" where
  "backendConfigFileReader_Read env reader f =
    res_bind (ReadServerConfigs env (cr_path reader) f) (\<lambda>cfgs.
      case cr_verifier reader cfgs of
        Some vErr \<Rightarrow> Err (ErrOther (verifyError_Error vErr))
      | None \<Rightarrow> Ok cfgs)"

section \<open>Conversions\<close>

definition ReadPrivateKey :: "'f os_env \<Rightarrow> string \<Rightarrow> 'f \<Rightarrow> ecdsa_key res" where
  "ReadPrivateKey env path f = res_bind (en_ReadFile env path f) (en_ParseECPrivateKey env)"

definition key_file :: "'f os_env \<Rightarrow> ServerConfig \<Rightarrow> string \<Rightarrow> string" where
  "key_file env cfg suffix =
    en_Join env (en_Dir env (sf_FilePath cfg)) (hd (sf_Domains cfg) @ ''-'' @ suffix)"

text \<open>\<open>cfg.Domains[0]\<close> panics when there are no domains.\<close>

definition CheckExistingGeneratedKey :: "'f os_env \<Rightarrow> ServerConfig \<Rightarrow> 'f \<Rightarrow> (ecdsa_key \<times> bool) res" where
  "CheckExistingGeneratedKey env cfg f =
    (if sf_Domains cfg = [] then Panic
     else
       let privkeyFileName = key_file env cfg ''private.key'' in
       if en_Stat env privkeyFileName f = Err ErrNotExist then Ok (None, False)
       else (case ReadPrivateKey env privkeyFileName f of
          Ok privateKey \<Rightarrow> Ok (privateKey, True)
        | Err e \<Rightarrow> Ok (None, False)
        | Panic \<Rightarrow> Panic))"

text \<open>
  Errors while encoding and writing the keys are only logged; what could not be encoded is written as
  no bytes.
\<close>

definition bytes_or_nil :: "byte list res \<Rightarrow> byte list" where
  "bytes_or_nil x = (case x of Ok bb \<Rightarrow> bb | _ \<Rightarrow> [])"

definition GenerateKeys :: "'f os_env \<Rightarrow> ServerConfig \<Rightarrow> 'f \<Rightarrow> ecdsa_key res \<times> 'f" where
  "GenerateKeys env cfg f =
    (case en_GenerateKey env f of
       (Ok privkey, f1) \<Rightarrow>
         if sf_Domains cfg = [] then (Panic, f1)
         else
           let f2 = snd (en_WriteFile env (key_file env cfg ''private.key'')
                      (bytes_or_nil (en_MarshalECPrivateKey env privkey)) f1);
               f3 = snd (en_WriteFile env (key_file env cfg ''public.key'')
                      (bytes_or_nil (en_MarshalPublicKey env privkey)) f2)
           in (Ok privkey, f3)
     | (Err e, f1) \<Rightarrow> (Ok None, f1)
     | (Panic, f1) \<Rightarrow> (Panic, f1))"

text \<open>\<open>ServerToAPIConfig\<close>; the fields it does not name have their zero values.\<close>

definition ServerToAPIConfig :: "ServerConfig \<Rightarrow> APIServerConfig res" where
  "ServerToAPIConfig cfg =
    Ok \<lparr>ac_ID = [], ac_Domains = sf_Domains cfg, ac_ProxyTo = sf_ProxyTo cfg,
       ac_ProxyBind = sf_ProxyBind cfg, ac_DialTimeout = sf_DialTimeout cfg,
       ac_SendProxyProtocol = sf_SendProxyProtocol cfg, ac_IsOnline = True,
       ac_UseStatusCache = False, ac_CachedStatus = zero_status,
       ac_DisconnectMessage = sf_DisconnectMessage cfg, ac_LimitBots = False\<rparr>"

definition duration_or :: "'f os_env \<Rightarrow> duration \<Rightarrow> string \<Rightarrow> duration" where
  "duration_or env dflt s = (case en_parse_duration env s of Some d \<Rightarrow> d | None \<Rightarrow> dflt)"

text \<open>The key of the new RealIP: the configured one, else the generated one, else a new one.\<close>

definition realip_key :: "'f os_env \<Rightarrow> ServerConfig \<Rightarrow> 'f \<Rightarrow> ecdsa_key res \<times> 'f" where
  "realip_key env cfg f =
    (case ReadPrivateKey env (sf_RealIPKey cfg) f of
       Ok privateKey \<Rightarrow> (Ok privateKey, f)
     | Err e \<Rightarrow>
         if e = ErrNotExist then
           (case CheckExistingGeneratedKey env cfg f of
              Ok (key, True) \<Rightarrow> (Ok key, f)
            | Ok (key, False) \<Rightarrow> GenerateKeys env cfg f
            | Err e \<Rightarrow> (Err e, f)
            | Panic \<Rightarrow> (Panic, f))
         else (Err e, f)
     | Panic \<Rightarrow> (Panic, f))"

definition ServerToBackendConfig ::
  "(string \<Rightarrow> string) \<Rightarrow> 'f os_env \<Rightarrow> ServerConfig \<Rightarrow> 'f \<Rightarrow> BackendWorkerConfig res \<times> 'f" where
  "ServerToBackendConfig uni env cfg f =
    and_then (if sf_Name cfg = [] then
                (case sf_Domains cfg of [] \<Rightarrow> (Panic, f) | d # _ \<Rightarrow> (Ok d, f))
              else (Ok (sf_Name cfg), f)) (\<lambda>name f1.
    let w1 = zero_BackendWorkerConfig
          \<lparr>bc_Name := name, bc_ProxyTo := sf_ProxyTo cfg, bc_ProxyBind := sf_ProxyBind cfg,
           bc_SendProxyProtocol := sf_SendProxyProtocol cfg, bc_RateLimit := sf_RateLimit cfg,
           bc_OldRealIp := sf_OldRealIP cfg, bc_NewRealIP := sf_NewRealIP cfg,
           bc_StateOption := NewStateOption (sf_CheckStateOption cfg)\<rparr> in
    and_then (if sf_NewRealIP cfg then
                and_then (realip_key env cfg f1) (\<lambda>privateKey f2.
                  (Ok (w1\<lparr>bc_NewRealIP := True, bc_RealIPKey := privateKey\<rparr>), f2))
              else (Ok w1, f1)) (\<lambda>w2 f3.
    let disconPk = ClientBoundDisconnect_Marshal (sf_DisconnectMessage cfg);
        offlineStatusPk = SimpleStatus_Marshal uni (sf_OfflineStatus cfg);
        w3 = w2\<lparr>bc_DisconnectPacket := disconPk, bc_OfflineStatus := offlineStatusPk,
               bc_StateUpdateCooldown := duration_or env second (sf_StateUpdateCooldown cfg),
               bc_DialTimeout := duration_or env second (sf_DialTimeout cfg)\<rparr>;
        w4 = (if sf_CacheStatus cfg then
                w3\<lparr>bc_CacheStatus := True,
                   bc_CacheUpdateCooldown := duration_or env second (sf_CacheUpdateCooldown cfg),
                   bc_ValidProtocol := sf_ValidProtocol cfg\<rparr>
              else w3);
        w5 = (if 0 < sf_RateLimit cfg then
                w4\<lparr>bc_RateLimitDuration := duration_or env second (sf_RateDuration cfg),
                   bc_RateBanListCooldown := duration_or env (15 * 60 * second) (sf_RateBanListCooldown cfg),
                   bc_RateDisconPk := ClientBoundDisconnect_Marshal (sf_RateDisconMsg cfg)\<rparr>
              else w4)
    in (Ok w5, f3)))"

section \<open>Readers of the main configuration\<close>

type_synonym 'f UVConfigReader = "'f \<Rightarrow> (UltravioletConfig \<times> go_error option) res \<times> 'f"

record uvConfigFileReader =
  ur_path :: string

definition uvConfigFileReader_Read ::
  "'f os_env \<Rightarrow> uvConfigFileReader \<Rightarrow> 'f \<Rightarrow> (UltravioletConfig \<times> go_error option) res \<times> 'f" where
  "uvConfigFileReader_Read env reader f = ReadUltravioletConfig env (ur_path reader) f"

definition NewUVConfigFileReader :: "'f os_env \<Rightarrow> string \<Rightarrow> 'f UVConfigReader" where
  "NewUVConfigFileReader env path = uvConfigFileReader_Read env \<lparr>ur_path = path\<rparr>"

definition NewIVConfigFileReader :: "'f os_env \<Rightarrow> string \<Rightarrow> 'f UVConfigReader" where
  "NewIVConfigFileReader env path = uvConfigFileReader_Read env \<lparr>ur_path = path\<rparr>"

definition NewUVReader :: "UltravioletConfig \<Rightarrow> 'f UVConfigReader" where
  "NewUVReader cfg = (\<lambda>f. (Ok (cfg, None), f))"

text \<open>A call of a reader of the main configuration whose caller looks at the error first.\<close>

definition uv_call :: "'f UVConfigReader \<Rightarrow> 'f \<Rightarrow> UltravioletConfig res \<times> 'f" where
  "uv_call uvReader f =
    (case uvReader f of
       (Ok (cfg, None), f1) \<Rightarrow> (Ok cfg, f1)
     | (Ok (cfg, Some e), f1) \<Rightarrow> (Err e, f1)
     | (Err e, f1) \<Rightarrow> (Err e, f1)
     | (Panic, f1) \<Rightarrow> (Panic, f1))"

section \<open>Facts about reading\<close>

definition is_server_file :: "walk_entry \<Rightarrow> bool" where
  "is_server_file w \<longleftrightarrow> \<not> we_isDir w \<and> Ext (we_path w) = ''.json'' \<and> we_name w \<noteq> MainConfigFileName"

lemma walk_json_paths:
  "walk_json ws ps = (ps', None) \<Longrightarrow> ps' = ps @ map we_path (filter is_server_file ws)"
  by (induction ws ps rule: walk_json.induct) (auto simp: is_server_file_def split: option.splits if_splits)

lemma LoadServerCfg_path:
  "LoadServerCfgFromPath env p f = Ok (cfg, None) \<Longrightarrow> sf_FilePath cfg = p"
  by (auto simp: LoadServerCfgFromPath_def split: res.splits prod.splits)

lemma load_all_paths:
  "load_all env ps f cfgs = Ok cfgs' \<Longrightarrow> map sf_FilePath cfgs' = map sf_FilePath cfgs @ ps"
  by (induction env ps f cfgs rule: load_all.induct)
    (auto dest: LoadServerCfg_path split: res.splits prod.splits option.splits)

section \<open>Facts about keys\<close>

text \<open>What the operating system promises about files: a file written is there, and others are kept.\<close>

definition files_kept :: "'f os_env \<Rightarrow> bool" where
  "files_kept env \<longleftrightarrow> (\<forall>p bb f f1. en_WriteFile env p bb f = (Ok (), f1) \<longrightarrow>
    en_ReadFile env p f1 = Ok bb \<and> en_Stat env p f1 = Ok () \<and>
    (\<forall>q. q \<noteq> p \<longrightarrow> en_ReadFile env q f1 = en_ReadFile env q f \<and> en_Stat env q f1 = en_Stat env q f))"

lemma files_keptD:
  assumes "files_kept env" and "en_WriteFile env p bb f = (Ok (), f1)"
  shows "en_ReadFile env p f1 = Ok bb" "en_Stat env p f1 = Ok ()"
    and "q \<noteq> p \<Longrightarrow> en_ReadFile env q f1 = en_ReadFile env q f"
    and "q \<noteq> p \<Longrightarrow> en_Stat env q f1 = en_Stat env q f"
  using assms unfolding files_kept_def by blast+

text \<open>Nothing the environment does panics.\<close>

definition env_calm :: "'f os_env \<Rightarrow> bool" where
  "env_calm env \<longleftrightarrow> (\<forall>p f. en_ReadFile env p f \<noteq> Panic) \<and> (\<forall>bb. en_ParseECPrivateKey env bb \<noteq> Panic) \<and>
    (\<forall>f. fst (en_GenerateKey env f) \<noteq> Panic)"

lemma ReadPrivateKey_calm: "env_calm env \<Longrightarrow> ReadPrivateKey env p f \<noteq> Panic"
  by (auto simp: ReadPrivateKey_def env_calm_def res_bind_Panic_iff)

lemma GenerateKeys_calm:
  "env_calm env \<Longrightarrow> sf_Domains cfg \<noteq> [] \<Longrightarrow> fst (GenerateKeys env cfg f) \<noteq> Panic"
  by (auto simp: GenerateKeys_def env_calm_def Let_def split: prod.splits res.splits)
    (metis fst_conv)

lemma realip_key_calm:
  assumes "env_calm env" and "sf_Domains cfg \<noteq> []"
  shows "fst (realip_key env cfg f) \<noteq> Panic"
  using assms ReadPrivateKey_calm [OF assms(1)] GenerateKeys_calm [OF assms]
  by (auto simp: realip_key_def CheckExistingGeneratedKey_def Let_def split: res.splits prod.splits bool.splits)

text \<open>
  An operating system to evaluate the conversions in: the state is the map of the files, a key is
  encoded as its bytes, and every file of a server holds the same configuration.
\<close>

definition plain_env :: "(string \<rightharpoonup> byte list) os_env" where
  "plain_env =
    \<lparr>en_Stat = \<lambda>p f. (case f p of None \<Rightarrow> Err ErrNotExist | Some _ \<Rightarrow> Ok ()),
     en_ReadFile = \<lambda>p f. (case f p of None \<Rightarrow> Err ErrNotExist | Some bb \<Rightarrow> Ok bb),
     en_WriteFile = \<lambda>p bb f. (Ok (), f(p \<mapsto> bb)), en_MkdirAll = \<lambda>p f. (Ok (), f),
     en_Walk = \<lambda>p f. [\<lparr>we_path = ''c/a.json'', we_name = ''a.json'', we_isDir = False, we_err = None\<rparr>],
     en_Join = \<lambda>a b. a @ ''/'' @ b, en_Dir = \<lambda>p. ''c'',
     en_marshal_uv = \<lambda>c. Ok [1], en_unmarshal_uv = \<lambda>bb c. (c, Ok ()),
     en_marshal_server = \<lambda>c. Ok [1],
     en_unmarshal_server = \<lambda>bb c. (c\<lparr>sf_Domains := [''uv.io''], sf_ProxyTo := ''b:1''\<rparr>, Ok ()),
     en_ParseECPrivateKey = \<lambda>bb. Ok (Some bb),
     en_MarshalECPrivateKey = \<lambda>k. (case k of None \<Rightarrow> Panic | Some bb \<Rightarrow> Ok bb),
     en_MarshalPublicKey = \<lambda>k. Ok [2], en_GenerateKey = \<lambda>f. (Ok (Some [7]), f),
     en_parse_duration = \<lambda>s. None\<rparr>"

lemma plain_env_files: "files_kept plain_env"
  by (auto simp: files_kept_def plain_env_def)

lemma plain_env_calm: "env_calm plain_env"
  by (auto simp: env_calm_def plain_env_def split: option.splits)

section \<open>Properties\<close>

lemma config_reader_Ok:
  assumes "backendConfigFileReader_Read env (NewBackendConfigFileReader path VerifyConfigs) f = Ok cfgs"
  shows "VerifyConfigs cfgs = None \<and> cfgs \<noteq> [] \<and>
    map sf_FilePath cfgs = map we_path (filter is_server_file (en_Walk env path f))"
proof -
  from assms have read: "ReadServerConfigs env path f = Ok cfgs" and "VerifyConfigs cfgs = None"
    by (auto simp: backendConfigFileReader_Read_def NewBackendConfigFileReader_def res_bind_Ok_iff
        split: option.splits)
  moreover obtain ps where ps: "walk_json (en_Walk env path f) [] = (ps, None)" "ps \<noteq> []"
    "load_all env ps f [] = Ok cfgs"
    using read by (auto simp: ReadServerConfigs_def Let_def split: prod.splits if_splits option.splits)
  ultimately show ?thesis using load_all_paths [OF ps(3)] walk_json_paths [OF ps(1)] by auto
qed



text \<open>
  Converting a verified configuration never panics, and fails only when the private key cannot be
  read or parsed.
\<close>

theorem verified_configs_convert:
  assumes "VerifyConfigs cfgs = None" and "cfg \<in> set cfgs" and "env_calm env"
  shows "case ServerToBackendConfig uni env cfg f of
      (Ok w, f') \<Rightarrow> bc_Name w = (if sf_Name cfg = [] then hd (sf_Domains cfg) else sf_Name cfg) \<and>
        bc_ProxyTo w = sf_ProxyTo cfg \<and> bc_ProxyTo w \<noteq> [] \<and> (sf_NewRealIP cfg \<or> f' = f)
    | (Err e, f') \<Rightarrow> sf_NewRealIP cfg \<and> fst (realip_key env cfg f) = Err e
    | (Panic, f') \<Rightarrow> False"
proof -
  from assms(1,2) have ok: "sf_Domains cfg \<noteq> []" "sf_ProxyTo cfg \<noteq> []"
    by (auto simp: VerifyConfigs_None config_ok_def list_all_iff)
  then obtain d ds where d: "sf_Domains cfg = d # ds" by (cases "sf_Domains cfg") auto
  obtain x f1 where key: "realip_key env cfg f = (x, f1)" by fastforce
  with realip_key_calm [OF assms(3) ok(1), of f] have "x \<noteq> Panic" by simp
  with ok(2) d key show ?thesis
    by (cases "sf_Name cfg = []"; cases "sf_NewRealIP cfg"; cases x)
      (simp_all add: ServerToBackendConfig_def Let_def zero_BackendWorkerConfig_def)
qed

theorem verified_configs_convert_witness:
  "\<exists>w f'. ServerToBackendConfig (\<lambda>s. s) plain_env
      (zero_ServerConfig\<lparr>sf_Domains := [''uv.io''], sf_ProxyTo := ''b:1'', sf_NewRealIP := True\<rparr>)
      Map.empty = (Ok w, f') \<and> bc_Name w = ''uv.io'' \<and> bc_RealIPKey w = Some [7]"
  (is "\<exists>w f'. ServerToBackendConfig ?uni _ ?cfg _ = _ \<and> _")
proof -
  have ok: "VerifyConfigs [?cfg] = None" by (simp add: VerifyConfigs_None config_ok_def)
  have key: "fst (realip_key plain_env ?cfg Map.empty) = Ok (Some [7])"
    by (simp add: realip_key_def ReadPrivateKey_def CheckExistingGeneratedKey_def GenerateKeys_def
        plain_env_def zero_ServerConfig_def Let_def)
  obtain x f' where run: "ServerToBackendConfig ?uni plain_env ?cfg Map.empty = (x, f')" by fastforce
  from verified_configs_convert [OF ok _ plain_env_calm, where cfg = ?cfg and uni = ?uni and f = Map.empty]
  obtain w where w: "x = Ok w" "bc_Name w = ''uv.io''"
    using run key by (cases x) (simp_all add: zero_ServerConfig_def)
  have "bc_RealIPKey w = Some [7]"
    using run w key by (cases "realip_key plain_env ?cfg Map.empty")
      (auto simp: ServerToBackendConfig_def Let_def zero_BackendWorkerConfig_def zero_ServerConfig_def)
  with run w show ?thesis by blast
qed

text \<open>
  A RealIP key generated at the first start is found again at the next one.
\<close>

theorem generated_key_found_again:
  assumes "files_kept env" and "\<forall>p bb f. fst (en_WriteFile env p bb f) = Ok ()"
    and "\<forall>k. \<exists>bb. en_MarshalECPrivateKey env (Some k) = Ok bb \<and> en_ParseECPrivateKey env bb = Ok (Some k)"
    and "distinct [sf_RealIPKey cfg, key_file env cfg ''private.key'', key_file env cfg ''public.key'']"
    and "en_ReadFile env (sf_RealIPKey cfg) f = Err ErrNotExist"
    and "en_Stat env (key_file env cfg ''private.key'') f = Err ErrNotExist"
    and "\<forall>f p. en_ReadFile env p (snd (en_GenerateKey env f)) = en_ReadFile env p f"
    and "realip_key env cfg f = (Ok (Some k), f')"
  shows "realip_key env cfg f' = (Ok (Some k), f')"
proof -
  let ?priv = "key_file env cfg ''private.key''" and ?pub = "key_file env cfg ''public.key''"
  have dom: "sf_Domains cfg \<noteq> []" and gen: "GenerateKeys env cfg f = (Ok (Some k), f')"
    using assms(5,6,8)
    by (auto simp: realip_key_def ReadPrivateKey_def CheckExistingGeneratedKey_def Let_def
        split: if_splits)
  obtain f1 where f1: "en_GenerateKey env f = (Ok (Some k), f1)"
    using gen dom by (auto simp: GenerateKeys_def Let_def split: prod.splits res.splits)
  obtain bb where bb: "en_MarshalECPrivateKey env (Some k) = Ok bb"
    "en_ParseECPrivateKey env bb = Ok (Some k)" using assms(3) by blast
  obtain f2 where f2: "en_WriteFile env ?priv bb f1 = (Ok (), f2)"
    using assms(2) by (metis prod.collapse)
  obtain bb' where f3: "en_WriteFile env ?pub bb' f2 = (Ok (), f')"
    using gen dom f1 f2 bb(1) assms(2)
    by (simp add: GenerateKeys_def Let_def bytes_or_nil_def) (metis prod.collapse)
  note k2 = files_keptD [OF assms(1) f2] and k3 = files_keptD [OF assms(1) f3]
  have "en_ReadFile env ?priv f' = Ok bb" "en_Stat env ?priv f' = Ok ()"
    using k2(1,2) k3(3,4) [of ?priv] assms(4) by auto
  moreover have "en_ReadFile env (sf_RealIPKey cfg) f' = Err ErrNotExist"
    using k2(3) [of "sf_RealIPKey cfg"] k3(3) [of "sf_RealIPKey cfg"] assms(4,5,7) f1
    by (metis distinct_length_2_or_more snd_conv distinct.simps(2) list.set_intros(1))
  ultimately show ?thesis using bb(2) dom
    by (simp add: realip_key_def ReadPrivateKey_def CheckExistingGeneratedKey_def Let_def)
qed

theorem generated_key_found_again_witness:
  "\<exists>f'. realip_key plain_env (zero_ServerConfig\<lparr>sf_Domains := [''uv.io'']\<rparr>) Map.empty = (Ok (Some [7]), f') \<and>
    realip_key plain_env (zero_ServerConfig\<lparr>sf_Domains := [''uv.io'']\<rparr>) f' = (Ok (Some [7]), f')"
  (is "\<exists>f'. realip_key _ ?cfg _ = _ \<and> _")
proof -
  obtain f' where run: "realip_key plain_env ?cfg Map.empty = (Ok (Some [7]), f')"
    by (simp add: realip_key_def ReadPrivateKey_def CheckExistingGeneratedKey_def GenerateKeys_def
        plain_env_def zero_ServerConfig_def Let_def)
  have "realip_key plain_env ?cfg f' = (Ok (Some [7]), f')"
    by (rule generated_key_found_again [OF plain_env_files _ _ _ _ _ _ run])
      (simp_all add: plain_env_def key_file_def zero_ServerConfig_def)
  with run show ?thesis by blast
qed

end
