(* ===== verification/UV_Basic.thy ===== *)
theory UV_Basic
  imports Cfg_File
begin

text \<open>
  The connection handling of the proxy (basic.go): reading the request of a client, looking its server
  up, answering or proxying it, and the two pipes of a proxied session, which run concurrently.
\<close>

section \<open>Reading a request\<close>

definition ConnTimeoutDuration :: duration where
  "ConnTimeoutDuration = 5 * second"

text \<open>
  \<open>errors.Is(err, os.ErrDeadlineExceeded)\<close>: the error itself; a packet body that was cut off is
  reported as \<open>ErrReadBody\<close>, which does not wrap its cause.
\<close>

fun slow_client :: "'a res \<times> 'r \<Rightarrow> 'a res \<times> 'r" where
  "slow_client (Err e, r) = (Err (if e = ErrDeadlineExceeded then ErrClientToSlow else e), r)"
| "slow_client x = x"

text \<open>
  The part of \<open>ReadStuff\<close> after the deadline is set and the reader made. The parse error of a handshake
  is only logged; the handshake is then the zero value, whose next state is not valid. The request
  data that is returned together with an error is dropped by every caller.
\<close>

definition read_request :: "(string \<Rightarrow> string) \<Rightarrow> bufio \<Rightarrow> RequestData res \<times> bufio" where
  "read_request uni m =
    and_then (slow_client (mcConn_ReadPacket m)) (\<lambda>handshakePacket m1.
    let parsed = UnmarshalServerBoundHandshake handshakePacket in
    if parsed = Panic then (Panic, m1)
    else
      let handshake = (case parsed of Ok hs \<Rightarrow> hs | _ \<Rightarrow> zero_handshake);
          reqType = RequestState (hs_NextState handshake) in
      if reqType = UnknownState then (Err ErrNotValidHandshake, m1)
      else and_then (slow_client (mcConn_ReadPacket m1)) (\<lambda>packet m2.
        let m3 = m2\<lparr>br_conn := conn_SetDeadline None (br_conn m2)\<rparr>;
            serverAddr = ToLower uni (ParseServerAddress handshake);
            reqData = \<lparr>rq_Type = reqType, rq_Handshake = handshake, rq_ServerAddr = serverAddr,
              rq_Addr = Some (nc_addr (br_conn m3)), rq_Username = []\<rparr> in
        if reqType = Login then
          (case UnmarshalServerBoundLoginStart packet of
             Ok loginStart \<Rightarrow> (Ok (reqData\<lparr>rq_Username := ls_Name loginStart\<rparr>), m3)
           | Err e \<Rightarrow> (Err e, m3)
           | Panic \<Rightarrow> (Panic, m3))
        else (Ok reqData, m3)))"

definition ReadStuff ::
  "(string \<Rightarrow> string) \<Rightarrow> gotime \<Rightarrow> net_conn \<Rightarrow> RequestData res \<times> net_conn" where
  "ReadStuff uni now conn =
    (let conn1 = conn_SetDeadline (Some (now + ConnTimeoutDuration)) conn;
         m = NewMcConn conn1
     in apsnd br_conn (read_request uni m))"

section \<open>Answering\<close>

definition LookupServer ::
  "(string \<Rightarrow> string) \<Rightarrow> RequestData \<Rightarrow> 's BasicServerCatalog \<Rightarrow> 's res" where
  "LookupServer uni req servers = catalog_Find uni servers (rq_ServerAddr req)"

text \<open>\<open>ProcessRequest\<close> returns the action, the packet and the error together.\<close>

definition ProcessRequest ::
  "(string \<Rightarrow> string) \<Rightarrow> RequestData \<Rightarrow> 'w server BasicServerCatalog \<Rightarrow> 'w \<Rightarrow>
    (ServerAction \<times> Packet \<times> go_error option) res \<times> 'w" where
  "ProcessRequest uni reqData servers w =
    (case LookupServer uni reqData servers of
       Err e \<Rightarrow>
         (Ok (CLOSE,
            (if e = ErrNoServerFound \<and> rq_Type reqData = Status
             then catalog_DefaultStatus servers else empty_packet), Some e), w)
     | Panic \<Rightarrow> (Panic, w)
     | Ok server \<Rightarrow>
         and_then (sv_ConnAction server reqData w) (\<lambda>action w1.
           if action = VERIFY_CONN then (Ok (action, catalog_VerifyConn servers, None), w1)
           else if action = STATUS then
             and_then (sv_Status server w1) (\<lambda>pk w2. (Ok (action, pk, None), w2))
           else (Ok (action, empty_packet, None), w1)))"

definition SendResponse :: "gotime \<Rightarrow> Packet \<Rightarrow> bool \<Rightarrow> net_conn \<Rightarrow> unit res \<times> net_conn" where
  "SendResponse now pk withPing conn =
    (let conn1 = conn_SetDeadline (Some (now + ConnTimeoutDuration)) conn;
         m = NewMcConn conn1
     in apsnd br_conn
       (and_then (mcConn_WritePacket pk m) (\<lambda>_ m1.
         if withPing then
           and_then (mcConn_ReadPacket m1) (\<lambda>pingPacket m2.
             (Ok (), snd (mcConn_WritePacket pingPacket m2)))
         else (Ok (), m1))))"

section \<open>Proxied sessions\<close>

text \<open>
  A pipe copies from one connection to the other in chunks of at most 65535 bytes and returns at the
  first error of either; its goroutine then closes the destination. Reading a closed connection fails.
\<close>

datatype pipe_state = Reading | Writing "byte list" | Returned | Finished

definition open_Read :: "nat \<Rightarrow> net_conn \<Rightarrow> (byte list \<times> go_error option) \<times> net_conn" where
  "open_Read n c = (if nc_closed c then (([], Some ErrNetClosed), c) else conn_Read n c)"

text \<open>One action of the goroutine that pipes from \<open>src\<close> to \<open>dst\<close> and closes \<open>dst\<close>.\<close>

inductive pipe_step ::
  "pipe_state \<times> net_conn \<times> net_conn \<Rightarrow> pipe_state \<times> net_conn \<times> net_conn \<Rightarrow> bool" where
  chunk_read: "open_Read 0xffff src = ((bb, None), src') \<Longrightarrow>
    pipe_step (Reading, src, dst) (Writing bb, src', dst)"
| read_fails: "open_Read 0xffff src = ((bb, Some e), src') \<Longrightarrow>
    pipe_step (Reading, src, dst) (Returned, src', dst)"
| chunk_written: "conn_Write bb dst = (Ok (), dst') \<Longrightarrow>
    pipe_step (Writing bb, src, dst) (Reading, src, dst')"
| write_fails: "conn_Write bb dst = (Err e, dst') \<Longrightarrow>
    pipe_step (Writing bb, src, dst) (Returned, src, dst')"
| dst_closed: "pipe_step (Returned, src, dst) (Finished, src, conn_Close dst)"

record proxy_state =
  px_down :: pipe_state
  px_up :: pipe_state
  px_client :: net_conn
  px_server :: net_conn

definition start_pipes :: "net_conn \<Rightarrow> net_conn \<Rightarrow> proxy_state" where
  "start_pipes client serverConn =
    \<lparr>px_down = Reading, px_up = Reading, px_client = client, px_server = serverConn\<rparr>"

text \<open>The two goroutines interleave.\<close>

inductive proxy_step :: "proxy_state \<Rightarrow> proxy_state \<Rightarrow> bool" where
  down: "pipe_step (px_down s, px_server s, px_client s) (p, sv, cl) \<Longrightarrow>
    proxy_step s (s\<lparr>px_down := p, px_server := sv, px_client := cl\<rparr>)"
| up: "pipe_step (px_up s, px_client s, px_server s) (p, cl, sv) \<Longrightarrow>
    proxy_step s (s\<lparr>px_up := p, px_client := cl, px_server := sv\<rparr>)"

text \<open>\<open>ProxyConnection\<close>: the session it starts, if the server can be reached.\<close>

definition ProxyConnection ::
  "net_conn \<Rightarrow> 'w server \<Rightarrow> RequestData \<Rightarrow> 'w \<Rightarrow> proxy_state res \<times> 'w" where
  "ProxyConnection client server reqData w =
    and_then (sv_CreateConn server reqData w) (\<lambda>serverConn w1.
      (Ok (start_pipes client serverConn), w1))"

section \<open>Serving a connection\<close>

text \<open>
  What has become of a connection when its handler returns: the error returned, the connection, and
  the proxied session that was started.
\<close>

record handled =
  hd_err :: "unit res"
  hd_conn :: net_conn
  hd_session :: "proxy_state option"

definition returned :: "unit res \<Rightarrow> net_conn \<Rightarrow> handled" where
  "returned err conn = \<lparr>hd_err = err, hd_conn = conn, hd_session = None\<rparr>"

text \<open>
  \<open>ProxyConnection\<close> runs in a goroutine: its error is lost, its panic is not. The packet of an action
  other than \<open>STATUS\<close> is the zero packet.
\<close>

definition ProcessServer ::
  "gotime \<Rightarrow> net_conn \<Rightarrow> 'w server \<Rightarrow> RequestData \<Rightarrow> 'w \<Rightarrow> handled \<times> 'w" where
  "ProcessServer now conn server reqData w =
    (case sv_ConnAction server reqData w of
       (Ok action, w1) \<Rightarrow>
         if action = PROXY then
           (case ProxyConnection conn server reqData w1 of
              (Ok session, w2) \<Rightarrow> (\<lparr>hd_err = Ok (), hd_conn = conn, hd_session = Some session\<rparr>, w2)
            | (Err e, w2) \<Rightarrow> (returned (Ok ()) conn, w2)
            | (Panic, w2) \<Rightarrow> (returned Panic conn, w2))
         else if action = CLOSE then (returned (Ok ()) (conn_Close conn), w1)
         else
           (case (if action = STATUS then sv_Status server w1 else (Ok empty_packet, w1)) of
              (Ok responsePk, w2) \<Rightarrow>
                (let (err, conn1) = SendResponse now responsePk (action = STATUS) conn
                 in (returned err (conn_Close conn1), w2))
            | (Err e, w2) \<Rightarrow> (returned (Err e) (conn_Close conn), w2)
            | (Panic, w2) \<Rightarrow> (returned Panic (conn_Close conn), w2))
     | (Err e, w1) \<Rightarrow> (returned (Err e) conn, w1)
     | (Panic, w1) \<Rightarrow> (returned Panic conn, w1))"

definition FullRun ::
  "(string \<Rightarrow> string) \<Rightarrow> gotime \<Rightarrow> net_conn \<Rightarrow> 'w server BasicServerCatalog \<Rightarrow> 'w \<Rightarrow> handled \<times> 'w" where
  "FullRun uni now conn servers w =
    (case ReadStuff uni now conn of
       (Ok reqData, conn1) \<Rightarrow>
         (case LookupServer uni reqData servers of
            Ok server \<Rightarrow> ProcessServer now conn1 server reqData w
          | Err e \<Rightarrow>
              if e = ErrNoServerFound \<and> rq_Type reqData = Status then
                (let (err, conn2) = SendResponse now (catalog_DefaultStatus servers) True conn1
                 in (returned err conn2, w))
              else (returned (Ok ()) (conn_Close conn1), w)
          | Panic \<Rightarrow> (returned Panic conn1, w))
     | (Err e, conn1) \<Rightarrow> (returned (Err e) conn1, w)
     | (Panic, conn1) \<Rightarrow> (returned Panic conn1, w))"

section \<open>Facts about the pipes\<close>

inductive_cases pipe_stepE: "pipe_step (p, src, dst) (p', src', dst')"
lemmas pipe_step_cases =
  pipe_stepE [consumes 1, case_names chunk_read read_fails chunk_written write_fails dst_closed]
inductive_cases proxy_stepE: "proxy_step s s'"

text \<open>What one pipe does to the parts the other one works on.\<close>

lemma open_Read_frame:
  assumes "open_Read n c = (res, c')"
  shows "nc_out c' = nc_out c" "nc_closed c' = nc_closed c" "nc_werr c' = nc_werr c"
  using assms conn_Read_frame [of n c] by (auto simp: open_Read_def split: if_splits)

lemma conn_Write_frame:
  assumes "conn_Write bb c = (res, c')"
  shows "nc_in c' = nc_in c" "nc_closed c' = nc_closed c" "nc_werr c' = nc_werr c"
  using assms by (auto simp: conn_Write_def split: if_splits option.splits)

lemma pipe_step_frame:
  assumes "pipe_step (p, src, dst) (p', src', dst')"
  shows "nc_out src' = nc_out src" "nc_closed src' = nc_closed src" "nc_werr src' = nc_werr src"
    and "nc_in dst' = nc_in dst" "nc_closed dst \<Longrightarrow> nc_closed dst'" "nc_werr dst' = nc_werr dst"
  using assms
  by (auto elim!: pipe_stepE simp: open_Read_frame conn_Write_frame conn_Close_def)

text \<open>
  What has been delivered is a prefix of what was sent, and a pipe that returns has delivered all of
  it unless a connection was closed or could not be written to.
\<close>

definition pipe_inv :: "byte list \<Rightarrow> byte list \<Rightarrow> pipe_state \<Rightarrow> net_conn \<Rightarrow> net_conn \<Rightarrow> bool" where
  "pipe_inv sent out0 p src dst \<longleftrightarrow> (\<exists>d r. nc_out dst = out0 @ d \<and> sent = d @ r \<and>
    (case p of
       Reading \<Rightarrow> r = concat (nc_in src)
     | Writing bb \<Rightarrow> r = bb @ concat (nc_in src)
     | Returned \<Rightarrow> r = [] \<or> nc_closed src \<or> nc_closed dst \<or> nc_werr dst \<noteq> None
     | Finished \<Rightarrow> nc_closed dst))"

lemma open_Read_some:
  "open_Read n src = ((bb, None), src') \<Longrightarrow> concat (nc_in src) = bb @ concat (nc_in src')"
  by (auto simp: open_Read_def conn_Read_def split: if_splits list.splits)

lemma open_Read_none:
  "open_Read n src = ((bb, Some e), src') \<Longrightarrow> src' = src \<and> (nc_closed src \<or> nc_in src = [])"
  by (auto simp: open_Read_def conn_Read_def split: if_splits list.splits)

lemma pipe_inv_step:
  assumes "pipe_step (p, src, dst) (p', src', dst')" and "pipe_inv sent out0 p src dst"
  shows "pipe_inv sent out0 p' src' dst'"
  using assms(1)
proof (cases rule: pipe_step_cases)
  case (chunk_read bb)
  with assms(2) open_Read_some [OF chunk_read(2)] show ?thesis by (auto simp: pipe_inv_def)
next
  case (read_fails bb e)
  with assms(2) open_Read_none [OF read_fails(2)] show ?thesis by (auto simp: pipe_inv_def)
next
  case (chunk_written bb)
  from assms(2) chunk_written obtain d r where "nc_out dst = out0 @ d" "sent = d @ r"
    "r = bb @ concat (nc_in src)" by (auto simp: pipe_inv_def)
  moreover have "nc_out dst' = nc_out dst @ bb"
    using chunk_written by (auto simp: conn_Write_def split: if_splits option.splits)
  ultimately show ?thesis using chunk_written unfolding pipe_inv_def
    by (intro exI [of _ "d @ bb"] exI [of _ "concat (nc_in src)"]) simp
next
  case (write_fails bb e)
  then have "dst' = dst" "nc_closed dst \<or> nc_werr dst \<noteq> None"
    by (auto simp: conn_Write_def split: if_splits option.splits)
  with assms(2) write_fails show ?thesis by (auto simp: pipe_inv_def)
next
  case dst_closed
  with assms(2) show ?thesis by (auto simp: pipe_inv_def conn_Close_def)
qed

lemma pipe_inv_other:
  assumes "pipe_inv sent out0 p src dst" and "nc_in src' = nc_in src" "nc_closed src \<Longrightarrow> nc_closed src'"
    and "nc_out dst' = nc_out dst" "nc_closed dst' = nc_closed dst" "nc_werr dst' = nc_werr dst"
  shows "pipe_inv sent out0 p src' dst'"
  using assms by (cases p) (auto simp: pipe_inv_def)

definition proxy_inv :: "net_conn \<Rightarrow> net_conn \<Rightarrow> proxy_state \<Rightarrow> bool" where
  "proxy_inv client server s \<longleftrightarrow>
    pipe_inv (concat (nc_in server)) (nc_out client) (px_down s) (px_server s) (px_client s) \<and>
    pipe_inv (concat (nc_in client)) (nc_out server) (px_up s) (px_client s) (px_server s)"

lemma proxy_inv_step: "proxy_step s s' \<Longrightarrow> proxy_inv client server s \<Longrightarrow> proxy_inv client server s'"
proof (induction rule: proxy_step.induct)
  case (down s p sv cl)
  note f = pipe_step_frame [OF down(1)]
  from down(2) have "pipe_inv (concat (nc_in server)) (nc_out client) p sv cl"
    and "pipe_inv (concat (nc_in client)) (nc_out server) (px_up s) cl sv"
    unfolding proxy_inv_def
    by (auto intro: pipe_inv_step [OF down(1)] pipe_inv_other simp: f)
  then show ?case by (simp add: proxy_inv_def)
next
  case (up s p cl sv)
  note f = pipe_step_frame [OF up(1)]
  from up(2) have "pipe_inv (concat (nc_in client)) (nc_out server) p cl sv"
    and "pipe_inv (concat (nc_in server)) (nc_out client) (px_down s) sv cl"
    unfolding proxy_inv_def
    by (auto intro: pipe_inv_step [OF up(1)] pipe_inv_other simp: f)
  then show ?case by (simp add: proxy_inv_def)
qed

lemma proxy_inv_start: "proxy_inv client server (start_pipes client server)"
  by (simp add: proxy_inv_def start_pipes_def pipe_inv_def)

lemma proxy_inv_reachable:
  "proxy_step\<^sup>*\<^sup>* (start_pipes client server) s \<Longrightarrow> proxy_inv client server s"
  by (induction rule: rtranclp_induct) (auto intro: proxy_inv_start proxy_inv_step)

text \<open>How many more actions a pipe can take.\<close>

fun pipe_fuel :: "pipe_state \<Rightarrow> net_conn \<Rightarrow> nat" where
  "pipe_fuel Reading src = 2 * (length (concat (nc_in src)) + length (nc_in src)) + 2"
| "pipe_fuel (Writing bb) src = 2 * (length (concat (nc_in src)) + length (nc_in src)) + 3"
| "pipe_fuel Returned src = 1"
| "pipe_fuel Finished src = 0"

lemma open_Read_shrinks:
  "0 < n \<Longrightarrow> open_Read n src = ((bb, None), src') \<Longrightarrow>
   length (concat (nc_in src')) + length (nc_in src') < length (concat (nc_in src)) + length (nc_in src)"
  by (auto simp: open_Read_def conn_Read_def split: if_splits list.splits)

lemma pipe_step_fuel:
  assumes "pipe_step (p, src, dst) (p', src', dst')"
  shows "pipe_fuel p' src' < pipe_fuel p src"
  using assms by (cases rule: pipe_stepE) (auto dest: open_Read_shrinks [rotated])

lemma pipe_fuel_cong: "nc_in src' = nc_in src \<Longrightarrow> pipe_fuel p src' = pipe_fuel p src"
  by (cases p) auto

definition proxy_fuel :: "proxy_state \<Rightarrow> nat" where
  "proxy_fuel s = pipe_fuel (px_down s) (px_server s) + pipe_fuel (px_up s) (px_client s)"

lemma proxy_step_fuel: "proxy_step s s' \<Longrightarrow> proxy_fuel s' < proxy_fuel s"
proof (induction rule: proxy_step.induct)
  case (down s p sv cl)
  with pipe_step_fuel [OF down] pipe_step_frame(4) [OF down] show ?case
    by (simp add: proxy_fuel_def pipe_fuel_cong [of cl "px_client s"])
next
  case (up s p cl sv)
  with pipe_step_fuel [OF up] pipe_step_frame(4) [OF up] show ?case
    by (simp add: proxy_fuel_def pipe_fuel_cong [of sv "px_server s"])
qed

lemma proxy_steps_fuel: "(proxy_step ^^ k) s s' \<Longrightarrow> k + proxy_fuel s' \<le> proxy_fuel s"
proof (induction k arbitrary: s')
  case (Suc k)
  then obtain t where "(proxy_step ^^ k) s t" "proxy_step t s'" by auto
  with Suc.IH [of t] proxy_step_fuel [of t s'] show ?case by simp
qed simp

lemma pipe_progress: "p \<noteq> Finished \<Longrightarrow> \<exists>p' src' dst'. pipe_step (p, src, dst) (p', src', dst')"
proof (cases p)
  case Reading
  obtain bb eo src' where "open_Read 0xffff src = ((bb, eo), src')" by (metis surj_pair)
  with Reading show ?thesis by (cases eo) (auto intro: chunk_read read_fails)
next
  case (Writing bb)
  obtain x dst' where "conn_Write bb dst = (x, dst')" by fastforce
  moreover from this have "x \<noteq> Panic" by (auto simp: conn_Write_def split: if_splits option.splits)
  ultimately show ?thesis using Writing by (cases x) (auto intro: chunk_written write_fails)
qed (auto intro: dst_closed)

lemma proxy_progress:
  "px_down s \<noteq> Finished \<or> px_up s \<noteq> Finished \<Longrightarrow> \<exists>s'. proxy_step s s'"
  using pipe_progress [of "px_down s" "px_server s" "px_client s"]
    pipe_progress [of "px_up s" "px_client s" "px_server s"] by (metis proxy_step.intros)

section \<open>Properties\<close>

text \<open>
  C16: In every reachable state of a proxied session, under every interleaving of the two copying
  goroutines, each side has been sent exactly a prefix of what the other has sent, nothing lost,
  changed or reordered.
\<close>

theorem proxy_transparent:
  assumes "proxy_step\<^sup>*\<^sup>* (start_pipes client server) s"
  shows "(\<exists>d r. nc_out (px_client s) = nc_out client @ d \<and> concat (nc_in server) = d @ r \<and>
      (px_down s \<noteq> Returned \<or> r = [] \<or> nc_closed (px_server s) \<or> nc_closed (px_client s) \<or>
       nc_werr (px_client s) \<noteq> None)) \<and>
    (\<exists>u r. nc_out (px_server s) = nc_out server @ u \<and> concat (nc_in client) = u @ r \<and>
      (px_up s \<noteq> Returned \<or> r = [] \<or> nc_closed (px_server s) \<or> nc_closed (px_client s) \<or>
       nc_werr (px_server s) \<noteq> None))"
  using proxy_inv_reachable [OF assms]
  unfolding proxy_inv_def pipe_inv_def
  by (cases "px_down s"; cases "px_up s") auto

theorem proxy_transparent_witness:
  "\<exists>s. nc_out (px_client s) = [1, 2] \<and> (\<exists>d r. nc_out (px_client s) = d \<and> [1, 2, 3] = d @ r) \<and>
    proxy_step\<^sup>*\<^sup>* (start_pipes
      \<lparr>nc_in = [], nc_end = ErrEOF, nc_out = [], nc_werr = None, nc_closed = False, nc_deadline = None,
       nc_addr = ''c''\<rparr>
      \<lparr>nc_in = [[1, 2], [3]], nc_end = ErrEOF, nc_out = [], nc_werr = None, nc_closed = False,
       nc_deadline = None, nc_addr = ''s''\<rparr>) s"
  (is "\<exists>s. _ \<and> _ \<and> proxy_step\<^sup>*\<^sup>* (start_pipes ?c ?sv) s")
proof -
  let ?s1 = "(start_pipes ?c ?sv)\<lparr>px_down := Writing [1, 2], px_server := ?sv\<lparr>nc_in := [[3]]\<rparr>, px_client := ?c\<rparr>"
  let ?s2 = "?s1\<lparr>px_down := Reading, px_server := ?sv\<lparr>nc_in := [[3]]\<rparr>, px_client := ?c\<lparr>nc_out := [1, 2]\<rparr>\<rparr>"
  have "proxy_step (start_pipes ?c ?sv) ?s1"
    by (rule proxy_step.down) (auto simp: start_pipes_def open_Read_def conn_Read_def intro: chunk_read)
  moreover have "proxy_step ?s1 ?s2"
    by (rule proxy_step.down) (auto simp: start_pipes_def conn_Write_def intro: chunk_written)
  ultimately have run: "proxy_step\<^sup>*\<^sup>* (start_pipes ?c ?sv) ?s2"
    by (meson converse_rtranclp_into_rtranclp rtranclp.rtrancl_refl)
  from proxy_transparent [OF this] show ?thesis
    by (intro exI [of _ ?s2]) (use run in simp)
qed

text \<open>
  C17: A proxied session takes a bounded number of steps, and when no step is possible any more both
  connections are closed.
\<close>

theorem proxy_terminates:
  assumes "(proxy_step ^^ k) (start_pipes client server) s"
  shows "k \<le> proxy_fuel (start_pipes client server) \<and>
    ((\<exists>s'. proxy_step s s') \<or> px_down s = Finished \<and> px_up s = Finished \<and>
      nc_closed (px_client s) \<and> nc_closed (px_server s))"
proof -
  have "proxy_inv client server s"
    using proxy_inv_reachable assms by (metis relpowp_imp_rtranclp)
  then have "px_down s = Finished \<Longrightarrow> nc_closed (px_client s)" "px_up s = Finished \<Longrightarrow> nc_closed (px_server s)"
    by (auto simp: proxy_inv_def pipe_inv_def)
  then show ?thesis using proxy_steps_fuel [OF assms] proxy_progress [of s] by auto
qed

theorem proxy_terminates_witness:
  "1 \<le> proxy_fuel (start_pipes
      \<lparr>nc_in = [], nc_end = ErrEOF, nc_out = [], nc_werr = None, nc_closed = False, nc_deadline = None,
       nc_addr = ''c''\<rparr>
      \<lparr>nc_in = [[1, 2]], nc_end = ErrEOF, nc_out = [], nc_werr = None, nc_closed = False,
       nc_deadline = None, nc_addr = ''s''\<rparr>)"
  (is "_ \<le> proxy_fuel (start_pipes ?c ?sv)")
proof -
  let ?s1 = "(start_pipes ?c ?sv)\<lparr>px_down := Writing [1, 2], px_server := ?sv\<lparr>nc_in := []\<rparr>, px_client := ?c\<rparr>"
  have "proxy_step (start_pipes ?c ?sv) ?s1"
    by (rule proxy_step.down) (auto simp: start_pipes_def open_Read_def conn_Read_def intro: chunk_read)
  then have "(proxy_step ^^ 1) (start_pipes ?c ?sv) ?s1" by (simp only: relpowp_1)
  from proxy_terminates [OF this] show ?thesis by simp
qed

section \<open>Facts about reading a request\<close>

lemma frame_conn:
  "bufio_frame m' = bufio_frame m \<Longrightarrow> br_conn m' = (br_conn m)\<lparr>nc_in := nc_in (br_conn m')\<rparr>"
  by (simp add: bufio_frame_def Let_def)

text \<open>Reading a packet that has arrived, in any segments.\<close>

lemma aligned_ReadPacket:
  assumes "bufio_ok m" and "aligned segs m" and "s_bytes (bufio_stream m) = Packet_Marshal pk @ rest"
    and "length (pk_Data pk) < 2 ^ 31 - 1"
  shows "\<exists>m'. mcConn_ReadPacket m = (Ok pk, m') \<and> bufio_frame m' = bufio_frame m \<and>
    s_bytes (bufio_stream m') = rest \<and> bufio_ok m' \<and> aligned segs m'"
proof -
  from mcConn_ReadPacket_Marshal [OF assms(1,3,4)] obtain m' where
    "mcConn_ReadPacket m = (Ok pk, m')" "bufio_frame m' = bufio_frame m"
    "s_bytes (bufio_stream m') = rest" "bufio_ok m'" by auto
  with aligned.sim_ReadPacket [of m segs] assms(1,2) show ?thesis
    by (auto simp: aligned.sim_def mcConn_ReadPacket_def)
qed

definition version_ok :: "go_int \<Rightarrow> bool" where
  "version_ok v \<longleftrightarrow> - (2 ^ 31) \<le> sint v \<and> sint v < 2 ^ 31"

lemma Unmarshal_Marshal_Handshake:
  "length (hs_ServerAddress hs) < 2 ^ 31 - 20 \<Longrightarrow> version_ok (hs_ProtocolVersion hs) \<Longrightarrow>
   UnmarshalServerBoundHandshake (Handshake_Marshal hs) = Ok hs"
  using UnmarshalServerBoundHandshake_Marshal [of hs] scast_ucast_32 [of "hs_ProtocolVersion hs"]
  by (simp add: version_ok_def)

text \<open>
  A client that sends a handshake and a second packet in the segments \<open>segs1\<close>: both packets are read
  and exactly these segments are consumed.
\<close>

lemma read_request_two_packets:
  assumes "nc_in c = segs1 @ segs2" and "[] \<notin> set (nc_in c)"
    and "concat segs1 = Packet_Marshal (Handshake_Marshal hs) @ Packet_Marshal pk2"
    and "length (hs_ServerAddress hs) < 2 ^ 31 - 20" and "version_ok (hs_ProtocolVersion hs)"
    and "length (pk_Data pk2) < 2 ^ 31 - 1" and "RequestState (hs_NextState hs) \<noteq> UnknownState"
  shows "apsnd br_conn (read_request uni (NewMcConn c)) =
    (let req = \<lparr>rq_Type = RequestState (hs_NextState hs), rq_Handshake = hs,
           rq_ServerAddr = ToLower uni (ParseServerAddress hs), rq_Addr = Some (nc_addr c),
           rq_Username = []\<rparr>;
         c' = c\<lparr>nc_in := segs2, nc_deadline := None\<rparr>
     in if rq_Type req = Login then
          (case UnmarshalServerBoundLoginStart pk2 of
             Ok l \<Rightarrow> (Ok (req\<lparr>rq_Username := ls_Name l\<rparr>), c')
           | Err e \<Rightarrow> (Err e, c')
           | Panic \<Rightarrow> (Panic, c'))
        else (Ok req, c'))"
proof -
  let ?m = "NewMcConn c"
  have m: "bufio_ok ?m" "aligned (segs1 @ segs2) ?m" "s_bytes (bufio_stream ?m) =
      Packet_Marshal (Handshake_Marshal hs) @ (Packet_Marshal pk2 @ concat segs2)"
    using assms(1-3) aligned_start [of ?m]
    by (simp_all add: NewMcConn_def conn_ok_def bufio_NewReader_def bufio_ok_def bufio_stream_def)
  from aligned_ReadPacket [OF m Handshake_Marshal_length [OF assms(4)]] obtain m1 where
    r1: "mcConn_ReadPacket ?m = (Ok (Handshake_Marshal hs), m1)" "bufio_frame m1 = bufio_frame ?m"
    "s_bytes (bufio_stream m1) = Packet_Marshal pk2 @ concat segs2" "bufio_ok m1"
    "aligned (segs1 @ segs2) m1" by blast
  from aligned_ReadPacket [OF r1(4,5,3) assms(6)] obtain m2 where
    r2: "mcConn_ReadPacket m1 = (Ok pk2, m2)" "bufio_frame m2 = bufio_frame m1"
    "s_bytes (bufio_stream m2) = concat segs2" "aligned (segs1 @ segs2) m2" by blast
  have "nc_in (br_conn m2) = segs2"
    using aligned_end [OF r2(4) _ r2(3)] assms(1,2) by simp
  moreover have "br_conn m2 = (br_conn ?m)\<lparr>nc_in := nc_in (br_conn m2)\<rparr>"
    using r1(2) r2(2) by (intro frame_conn) simp
  ultimately have c: "br_conn m2 = c\<lparr>nc_in := segs2\<rparr>"
    by (simp add: NewMcConn_def bufio_NewReader_def)
  show ?thesis
    using r1(1) r2(1) Unmarshal_Marshal_Handshake [OF assms(4,5)] assms(7)
    by (simp add: read_request_def Let_def c conn_SetDeadline_def split: res.splits)
qed


lemma ReadStuff_eq:
  "ReadStuff uni now c =
    apsnd br_conn (read_request uni (NewMcConn (conn_SetDeadline (Some (now + ConnTimeoutDuration)) c)))"
  by (simp add: ReadStuff_def Let_def)

lemma SetDeadline_simps [simp]:
  "nc_in (conn_SetDeadline d c) = nc_in c" "nc_addr (conn_SetDeadline d c) = nc_addr c"
  "nc_out (conn_SetDeadline d c) = nc_out c" "nc_closed (conn_SetDeadline d c) = nc_closed c"
  "nc_werr (conn_SetDeadline d c) = nc_werr c"
  "(conn_SetDeadline d c)\<lparr>nc_in := x, nc_deadline := d'\<rparr> = c\<lparr>nc_in := x, nc_deadline := d'\<rparr>"
  by (simp_all add: conn_SetDeadline_def)

lemma length_LoginStart:
  "length name < 2 ^ 31 - 10 \<Longrightarrow>
   length (pk_Data (ServerLoginStart_Marshal \<lparr>ls_Name = name\<rparr>)) < 2 ^ 31 - 1"
  using length_VarInt_Encode_le5 [of "word_of_nat (length name)"]
  by (simp add: ServerLoginStart_Marshal_def String_Encode_def Let_def)

text \<open>The status answer and the ping that comes back, on a connection that can be written to.\<close>

lemma SendResponse_ping:
  assumes "conn_ok c" and "concat (nc_in c) = Packet_Marshal ping @ rest"
    and "length (pk_Data ping) < 2 ^ 31 - 1" and "\<not> nc_closed c" and "nc_werr c = None"
  shows "\<exists>c'. SendResponse now pk True c = (Ok (), c') \<and> \<not> nc_closed c' \<and>
    nc_out c' = nc_out c @ Packet_Marshal pk @ Packet_Marshal ping"
proof -
  let ?c1 = "conn_SetDeadline (Some (now + ConnTimeoutDuration)) c"
  let ?m = "(bufio_NewReader ?c1)\<lparr>br_conn := ?c1\<lparr>nc_out := nc_out c @ Packet_Marshal pk\<rparr>\<rparr>"
  have "bufio_ok ?m" "s_bytes (bufio_stream ?m) = Packet_Marshal ping @ rest"
    using assms(1,2) by (simp_all add: bufio_ok_def conn_ok_def bufio_NewReader_def bufio_stream_def)
  from mcConn_ReadPacket_Marshal [OF this assms(3)] obtain m' where
    r: "mcConn_ReadPacket ?m = (Ok ping, m')" and f: "bufio_frame m' = bufio_frame ?m" by blast
  from f assms(4,5) have "nc_out (br_conn m') = nc_out c @ Packet_Marshal pk"
    "\<not> nc_closed (br_conn m')" "nc_werr (br_conn m') = None"
    by (simp_all add: bufio_frame_def Let_def)
  with r assms(4,5) show ?thesis
    by (simp add: SendResponse_def Let_def WritePacket_ok NewMcConn_def bufio_NewReader_def)
qed

text \<open>Reading a request neither writes to the connection nor closes it.\<close>

lemma slow_client_snd [simp]: "snd (slow_client x) = snd x"
  by (cases x rule: slow_client.cases) auto

definition write_side :: "bufio \<Rightarrow> bool \<times> byte list" where
  "write_side m = (nc_closed (br_conn m), nc_out (br_conn m))"

lemma write_side_ReadPacket: "write_side (snd (mcConn_ReadPacket m)) = write_side m"
  using mcConn_ReadPacket_frame [of m] by (simp add: write_side_def bufio_frame_def Let_def)

lemma write_side_and_then:
  assumes "write_side (snd m) = f" and "\<And>a r. write_side r = f \<Longrightarrow> write_side (snd (k a r)) = f"
  shows "write_side (snd (and_then m k)) = f"
  using assms by (cases "(m, k)" rule: and_then.cases) auto

lemma write_side_read_request: "write_side (snd (read_request uni m)) = write_side m"
proof -
  have deadline: "write_side (m\<lparr>br_conn := conn_SetDeadline d (br_conn m)\<rparr>) = write_side m" for m d
    by (simp add: write_side_def)
  show ?thesis unfolding read_request_def
    by (intro write_side_and_then)
      (auto simp: Let_def deadline write_side_ReadPacket intro!: write_side_and_then split: res.splits)
qed

lemma ReadStuff_frame:
  "nc_closed (snd (ReadStuff uni now c)) = nc_closed c \<and> nc_out (snd (ReadStuff uni now c)) = nc_out c"
  using write_side_read_request [of uni "NewMcConn (conn_SetDeadline (Some (now + ConnTimeoutDuration)) c)"]
  by (simp add: ReadStuff_eq write_side_def NewMcConn_def bufio_NewReader_def)

text \<open>A login.\<close>

lemma ReadStuff_login_packets:
  assumes "nc_in c = segs1 @ segs2" and "[] \<notin> set (nc_in c)"
    and "concat segs1 = Packet_Marshal (Handshake_Marshal hs) @
      Packet_Marshal (ServerLoginStart_Marshal \<lparr>ls_Name = name\<rparr>)"
    and "length (hs_ServerAddress hs) < 2 ^ 31 - 20" and "length name < 2 ^ 31 - 10"
    and "version_ok (hs_ProtocolVersion hs)" and "hs_NextState hs = 2"
  shows "ReadStuff uni now c =
    (Ok \<lparr>rq_Type = Login, rq_Handshake = hs, rq_ServerAddr = ToLower uni (ParseServerAddress hs),
       rq_Addr = Some (nc_addr c), rq_Username = name\<rparr>,
     c\<lparr>nc_in := segs2, nc_deadline := None\<rparr>)"
proof -
  have "RequestState (hs_NextState hs) = Login" using assms(7) by (simp add: RequestState_def)
  then show ?thesis
    using read_request_two_packets [of "conn_SetDeadline (Some (now + ConnTimeoutDuration)) c" segs1 segs2
        hs "ServerLoginStart_Marshal \<lparr>ls_Name = name\<rparr>" uni] assms length_LoginStart [OF assms(5)]
      UnmarshalServerBoundLoginStart_Marshal [of name]
    by (simp add: ReadStuff_eq Let_def)
qed

text \<open>The bytes of a small login, for concrete runs.\<close>

lemma login_bytes:
  "Packet_Marshal (Handshake_Marshal \<lparr>hs_ProtocolVersion = 47, hs_ServerAddress = [ch],
     hs_ServerPort = 25565, hs_NextState = 2\<rparr>) = [7, 0, 47, 1, word_of_nat (of_char ch), 99, 221, 2]"
  "Packet_Marshal (ServerLoginStart_Marshal \<lparr>ls_Name = ''b''\<rparr>) = [3, 0, 1, 98]"
  by (simp_all add: Packet_Marshal_def Handshake_Marshal_def ServerLoginStart_Marshal_def MarshalPacket_def
      String_Encode_def str_bytes_def UnsignedShort_Encode_def VarInt_Encode.simps Let_def)

section \<open>Properties of requests\<close>

text \<open>
  A login in any segments is read into the request.
\<close>

theorem ReadStuff_login:
  assumes "nc_in c = segs1 @ segs2" and "[] \<notin> set (nc_in c)"
    and "concat segs1 = Packet_Marshal (Handshake_Marshal hs) @
      Packet_Marshal (ServerLoginStart_Marshal \<lparr>ls_Name = name\<rparr>)"
    and "length (hs_ServerAddress hs) < 2 ^ 31 - 20" and "length name < 2 ^ 31 - 10"
    and "version_ok (hs_ProtocolVersion hs)" and "hs_NextState hs = 2"
  shows "ReadStuff uni now c =
    (Ok \<lparr>rq_Type = Login, rq_Handshake = hs, rq_ServerAddr = ToLower uni (ParseServerAddress hs),
       rq_Addr = Some (nc_addr c), rq_Username = name\<rparr>,
     c\<lparr>nc_in := segs2, nc_deadline := None\<rparr>)"
  using assms by (rule ReadStuff_login_packets)

theorem ReadStuff_login_witness:
  "ReadStuff (\<lambda>s. s) 5 \<lparr>nc_in = [[7, 0, 47], [1, 65, 99, 221, 2, 3], [0, 1, 98], [5]], nc_end = ErrEOF,
      nc_out = [], nc_werr = None, nc_closed = False, nc_deadline = None, nc_addr = ''c''\<rparr>
    = (Ok \<lparr>rq_Type = Login, rq_Handshake = \<lparr>hs_ProtocolVersion = 47, hs_ServerAddress = ''A'',
         hs_ServerPort = 25565, hs_NextState = 2\<rparr>, rq_ServerAddr = ''a'', rq_Addr = Some ''c'',
         rq_Username = ''b''\<rparr>,
       \<lparr>nc_in = [[5]], nc_end = ErrEOF, nc_out = [], nc_werr = None, nc_closed = False,
        nc_deadline = None, nc_addr = ''c''\<rparr>)"
  (is "ReadStuff _ _ ?c = (Ok \<lparr>rq_Type = _, rq_Handshake = ?hs, rq_ServerAddr = _, rq_Addr = _,
    rq_Username = _\<rparr>, _)")
proof -
  have "ToLower (\<lambda>s. s) (ParseServerAddress ?hs) = ''a''"
    by (simp add: ParseServerAddress_before before_def ForgeSeparator_def RealIPSeparator_def
        ToLower_def is_ascii_def lower_char_def is_upper_def char_of_def bit_0)
  then show ?thesis
    using ReadStuff_login [of ?c "[[7, 0, 47], [1, 65, 99, 221, 2, 3], [0, 1, 98]]" "[[5]]" ?hs "''b''"
        "\<lambda>s. s" 5] by (simp add: login_bytes version_ok_def)
qed

text \<open>
  A status request for an unknown host is answered with the default status and the echo of the
  client's ping packet, and the connection is left open.
\<close>

theorem FullRun_unknown_status:
  assumes "nc_in c = segs1 @ segs2" and "[] \<notin> set (nc_in c)"
    and "\<not> nc_closed c" and "nc_werr c = None"
    and "concat segs1 = Packet_Marshal (Handshake_Marshal hs) @ Packet_Marshal request"
    and "length (hs_ServerAddress hs) < 2 ^ 31 - 20" and "length (pk_Data request) < 2 ^ 31 - 1"
    and "version_ok (hs_ProtocolVersion hs)" and "hs_NextState hs = 1"
    and "catalog_Find uni servers (ToLower uni (ParseServerAddress hs)) = Err ErrNoServerFound"
    and "concat segs2 = Packet_Marshal ping @ rest" and "length (pk_Data ping) < 2 ^ 31 - 1"
  shows "\<exists>c'. FullRun uni now c servers w = (returned (Ok ()) c', w) \<and> \<not> nc_closed c' \<and>
    nc_out c' = nc_out c @ Packet_Marshal (catalog_DefaultStatus servers) @ Packet_Marshal ping"
proof -
  let ?c = "c\<lparr>nc_in := segs2, nc_deadline := None\<rparr>"
  have "RequestState (hs_NextState hs) = Status" using assms(9) by (simp add: RequestState_def)
  then have "ReadStuff uni now c =
    (Ok \<lparr>rq_Type = Status, rq_Handshake = hs, rq_ServerAddr = ToLower uni (ParseServerAddress hs),
       rq_Addr = Some (nc_addr c), rq_Username = []\<rparr>, ?c)"
    using read_request_two_packets [of "conn_SetDeadline (Some (now + ConnTimeoutDuration)) c" segs1 segs2
        hs request uni] assms(1,2,5-8)
    by (simp add: ReadStuff_eq Let_def)
  moreover obtain c' where "SendResponse now (catalog_DefaultStatus servers) True ?c = (Ok (), c')"
    "\<not> nc_closed c'"
    "nc_out c' = nc_out c @ Packet_Marshal (catalog_DefaultStatus servers) @ Packet_Marshal ping"
    using SendResponse_ping [of ?c ping rest now "catalog_DefaultStatus servers"] assms(1-4,11,12)
    by (auto simp: conn_ok_def)
  ultimately show ?thesis using assms(10)
    by (intro exI [of _ c']) (simp add: FullRun_def LookupServer_def)
qed

theorem FullRun_unknown_status_witness:
  "\<exists>c'. FullRun (\<lambda>s. s) 5 \<lparr>nc_in = [[7, 0, 47, 1], [97, 99, 221, 1, 1, 0], [2, 1, 9]], nc_end = ErrEOF,
      nc_out = [], nc_werr = None, nc_closed = False, nc_deadline = None, nc_addr = ''c''\<rparr>
      (NewEmptyServerCatalog \<lparr>pk_ID = 0, pk_Data = [8]\<rparr> empty_packet) ()
    = (returned (Ok ()) c', ()) \<and> nc_out c' = [2, 0, 8, 2, 1, 9]"
  (is "\<exists>c'. FullRun _ _ ?c ?servers _ = _ \<and> _")
proof -
  let ?hs = "\<lparr>hs_ProtocolVersion = 47, hs_ServerAddress = ''a'', hs_ServerPort = 25565,
    hs_NextState = 1\<rparr>"
  have hs: "Packet_Marshal (Handshake_Marshal ?hs) = [7, 0, 47, 1, 97, 99, 221, 1]"
    by (simp add: Packet_Marshal_def Handshake_Marshal_def MarshalPacket_def String_Encode_def
        str_bytes_def UnsignedShort_Encode_def VarInt_Encode.simps Let_def)
  have pks: "Packet_Marshal \<lparr>pk_ID = 0, pk_Data = []\<rparr> = [1, 0]"
    "Packet_Marshal \<lparr>pk_ID = 0, pk_Data = [8]\<rparr> = [2, 0, 8]"
    "Packet_Marshal \<lparr>pk_ID = 1, pk_Data = [9]\<rparr> = [2, 1, 9]"
    by (simp_all add: Packet_Marshal_def VarInt_Encode.simps Let_def)
  have "catalog_Find (\<lambda>s. s) ?servers a = Err ErrNoServerFound" for a
    by (simp add: catalog_Find_def NewEmptyServerCatalog_def)
  then show ?thesis
    using FullRun_unknown_status [of ?c "[[7, 0, 47, 1], [97, 99, 221, 1, 1, 0]]" "[[2, 1, 9]]" ?hs
        "\<lparr>pk_ID = 0, pk_Data = []\<rparr>" "\<lambda>s. s" ?servers "\<lparr>pk_ID = 1, pk_Data = [9]\<rparr>" "[]" 5 "()"]
    by (auto simp: hs pks version_ok_def catalog_DefaultStatus_def NewEmptyServerCatalog_def)
qed

text \<open>
  Nine bytes from a client, a handshake with a negative address length, make the handler panic,
  whatever the catalog holds.
\<close>

theorem FullRun_crash:
  "hd_err (fst (FullRun uni now
     (c\<lparr>nc_in := [[8, 0, 47, 0xFF, 0xFF, 0xFF, 0xFF, 0x0F, 0]]\<rparr>) servers w)) = Panic"
proof -
  let ?pk = "\<lparr>pk_ID = 0, pk_Data = [47, 0xFF, 0xFF, 0xFF, 0xFF, 0x0F, 0]\<rparr>"
  let ?m = "NewMcConn (conn_SetDeadline (Some (now + ConnTimeoutDuration))
    (c\<lparr>nc_in := [[8, 0, 47, 0xFF, 0xFF, 0xFF, 0xFF, 0x0F, 0]]\<rparr>))"
  have "Packet_Marshal ?pk = [8, 0, 47, 0xFF, 0xFF, 0xFF, 0xFF, 0x0F, 0]"
    by (simp add: Packet_Marshal_def VarInt_Encode.simps Let_def)
  then have "bufio_ok ?m" "s_bytes (bufio_stream ?m) = Packet_Marshal ?pk @ []"
    by (simp_all add: NewMcConn_def conn_ok_def)
  from mcConn_ReadPacket_Marshal [OF this] obtain m' where "mcConn_ReadPacket ?m = (Ok ?pk, m')" by auto
  moreover have "UnmarshalServerBoundHandshake ?pk = Panic"
    by (simp add: UnmarshalServerBoundHandshake_def Scan_def handshake_types_def bytes_NewReader_def
        VarInt_Decode_flat flat_VarInt_def Let_def continues_def String_Decode_def ReadNBytes_def)
  ultimately show ?thesis
    by (simp add: FullRun_def ReadStuff_eq read_request_def Let_def returned_def)
qed

text \<open>
  For every action other than PROXY, CLOSE and STATUS the client is sent the zero packet and closed.
\<close>

theorem ProcessServer_other_actions:
  assumes "fst (sv_ConnAction server req w) = Ok action" and "action \<notin> {PROXY, CLOSE, STATUS}"
    and "\<not> nc_closed c" and "nc_werr c = None"
  shows "nc_out (hd_conn (fst (ProcessServer now c server req w))) = nc_out c @ [1, 0] \<and>
    nc_closed (hd_conn (fst (ProcessServer now c server req w))) \<and>
    hd_session (fst (ProcessServer now c server req w)) = None"
proof -
  obtain w1 where "sv_ConnAction server req w = (Ok action, w1)"
    using assms(1) by (metis prod.collapse)
  moreover have "Packet_Marshal empty_packet = [1, 0]"
    by (simp add: Packet_Marshal_def empty_packet_def VarInt_Encode.simps Let_def)
  ultimately show ?thesis using assms(2-4)
    by (simp add: ProcessServer_def SendResponse_def WritePacket_ok NewMcConn_def bufio_NewReader_def
        Let_def returned_def conn_Close_def)
qed

theorem ProcessServer_other_actions_witness:
  "nc_out (hd_conn (fst (ProcessServer 5 \<lparr>nc_in = [], nc_end = ErrEOF, nc_out = [], nc_werr = None,
      nc_closed = False, nc_deadline = None, nc_addr = ''c''\<rparr>
      \<lparr>sv_ConnAction = \<lambda>_ w. (Ok VERIFY_CONN, w), sv_CreateConn = \<lambda>_ w. (Err ErrEOF, w),
       sv_Status = \<lambda>w. (Ok empty_packet, w)\<rparr> zero_request ()))) = [1, 0]"
  (is "nc_out (hd_conn (fst (ProcessServer _ ?c ?server _ _))) = _")
  using ProcessServer_other_actions [of ?server zero_request "()" VERIFY_CONN ?c 5] by simp

text \<open>
  When the request cannot be read, the handler returns the error with nothing written and the
  connection not closed.
\<close>

theorem FullRun_read_error:
  assumes "ReadStuff uni now c = (Err e, c')"
  shows "FullRun uni now c servers w = (returned (Err e) c', w) \<and>
    nc_closed c' = nc_closed c \<and> nc_out c' = nc_out c"
  using assms ReadStuff_frame [of uni now c] by (simp add: FullRun_def)

theorem FullRun_read_error_witness:
  "\<exists>c'. FullRun (\<lambda>s. s) 5 \<lparr>nc_in = [], nc_end = ErrDeadlineExceeded, nc_out = [], nc_werr = None,
      nc_closed = False, nc_deadline = None, nc_addr = ''c''\<rparr>
      (NewEmptyServerCatalog empty_packet empty_packet) ()
    = (returned (Err ErrClientToSlow) c', ()) \<and> \<not> nc_closed c'"
  (is "\<exists>c'. FullRun _ _ ?c ?servers _ = _ \<and> _")
proof -
  let ?m = "NewMcConn (conn_SetDeadline (Some (5 + ConnTimeoutDuration)) ?c)"
  have "bufio_ok ?m" by (simp add: NewMcConn_def conn_ok_def)
  from buffered.sim_ReadPacket [OF this] have "fst (mcConn_ReadPacket ?m) = Err ErrDeadlineExceeded"
    by (simp add: buffered.sim_def mcConn_ReadPacket_def ReadPacket_def ReadVarInt_flat flat_VarInt_def
        NewMcConn_def conn_SetDeadline_def)
  then obtain m' where "mcConn_ReadPacket ?m = (Err ErrDeadlineExceeded, m')"
    by (metis prod.collapse)
  then have "ReadStuff (\<lambda>s. s) 5 ?c = (Err ErrClientToSlow, br_conn m')"
    by (simp add: ReadStuff_eq read_request_def)
  from FullRun_read_error [OF this, of ?servers "()"] show ?thesis by auto
qed

end
