(* ===== verification/UV_Server.thy ===== *)
theory UV_Server
  imports UV_Basic
begin

text \<open>
  The servers of the lean proxy (server.go) and the proxy itself (proxy.go): the decision for a
  request, the catalog built from the configurations, and the accept loop with its bound on the number
  of connections handled at the same time.
\<close>

section \<open>API servers\<close>

text \<open>
  The state the servers share: the network and the bot filter, a global variable.
\<close>

record uv_world =
  uw_bot :: botFilterConnLimiter
  uw_net :: network

definition botLimiter :: "gotime \<Rightarrow> botFilterConnLimiter" where
  "botLimiter now =
    NewBotFilterConnLimiter now 5 (60 * second) (3600 * second) (5 * second) empty_packet"

record APIServer =
  as_sendProxyProtocol :: bool
  as_disconnectPacket :: Packet
  as_dialer :: net_dialer
  as_proxyTo :: string
  as_useBotLimiter :: bool
  as_useStatusCache :: bool
  as_serverStatusPk :: Packet
  as_serverStatus :: ServerState

definition NewAPIServer :: "(string \<Rightarrow> string) \<Rightarrow> 'f os_env \<Rightarrow> APIServerConfig \<Rightarrow> APIServer" where
  "NewAPIServer uni env cfg =
    (let dialTimeout = duration_or env second (ac_DialTimeout cfg);
         dialer = \<lparr>dl_Timeout = dialTimeout, dl_bind = ac_ProxyBind cfg\<rparr>;
         disconnectPacket = ClientBoundDisconnect_Marshal (ac_DisconnectMessage cfg);
         cachedStatusPk = SimpleStatus_Marshal uni (ac_CachedStatus cfg);
         serverState = (if ac_IsOnline cfg then Online else Offline)
     in \<lparr>as_sendProxyProtocol = ac_SendProxyProtocol cfg, as_disconnectPacket = disconnectPacket,
         as_dialer = dialer, as_proxyTo = [], as_useBotLimiter = ac_LimitBots cfg,
         as_useStatusCache = ac_UseStatusCache cfg, as_serverStatusPk = cachedStatusPk,
         as_serverStatus = serverState\<rparr>)"

definition serverOffline :: "RequestData \<Rightarrow> ServerAction" where
  "serverOffline req = (if rq_Type req = Status then STATUS else CLOSE)"

definition serverOnline :: "APIServer \<Rightarrow> RequestData \<Rightarrow> ServerAction" where
  "serverOnline server req =
    (if rq_Type req = Login then PROXY
     else if rq_Type req = Status then (if as_useStatusCache server then STATUS else PROXY)
     else CLOSE)"

definition APIServer_ConnAction ::
  "APIServer \<Rightarrow> RequestData \<Rightarrow> uv_world \<Rightarrow> ServerAction res \<times> uv_world" where
  "APIServer_ConnAction server req w =
    and_then (if as_useBotLimiter server then
                (case botFilter_Allow (nw_now (uw_net w)) req (uw_bot w) of
                   (x, limiter) \<Rightarrow> (x, w\<lparr>uw_bot := limiter\<rparr>))
              else (Ok True, w)) (\<lambda>allowed w1.
      if \<not> allowed then (Ok VERIFY_CONN, w1)
      else (case as_serverStatus server of
              Offline \<Rightarrow> (Ok (serverOffline req), w1)
            | Online \<Rightarrow> (Ok (serverOnline server req), w1)
            | Unknown \<Rightarrow> (Ok CLOSE, w1)))"

text \<open>A header that could not be written is returned as the error, with the connection left open.\<close>

definition APIServer_CreateConn ::
  "proxyproto \<Rightarrow> APIServer \<Rightarrow> RequestData \<Rightarrow> uv_world \<Rightarrow> net_conn res \<times> uv_world" where
  "APIServer_CreateConn pp server req w =
    (case Dial (as_dialer server) (as_proxyTo server) (uw_net w) of
       (Ok conn, n1) \<Rightarrow>
         if as_sendProxyProtocol server then
           (case pp_write pp (Some (pp_local pp conn)) (nc_addr conn) conn of
              (Ok _, conn1) \<Rightarrow> (Ok conn1, w\<lparr>uw_net := n1\<rparr>)
            | (Err e, conn1) \<Rightarrow> (Err e, w\<lparr>uw_net := leave conn1 n1\<rparr>)
            | (Panic, conn1) \<Rightarrow> (Panic, w\<lparr>uw_net := n1\<rparr>))
         else (Ok conn, w\<lparr>uw_net := n1\<rparr>)
     | (x, n1) \<Rightarrow> (x, w\<lparr>uw_net := n1\<rparr>))"

definition APIServer_Status :: "APIServer \<Rightarrow> uv_world \<Rightarrow> Packet res \<times> uv_world" where
  "APIServer_Status server w = (Ok (as_serverStatusPk server), w)"

text \<open>An \<open>APIServer\<close> as a value of the interface \<open>core.Server\<close>.\<close>

definition api_server :: "proxyproto \<Rightarrow> APIServer \<Rightarrow> uv_world server" where
  "api_server pp server =
    \<lparr>sv_ConnAction = APIServer_ConnAction server, sv_CreateConn = APIServer_CreateConn pp server,
     sv_Status = APIServer_Status server\<rparr>"

definition ProxyAllServer_ConnAction :: "RequestData \<Rightarrow> ServerAction" where
  "ProxyAllServer_ConnAction req = PROXY"

text \<open>
  \<open>&net.TCPConn{}\<close> is a connection without a socket: all its operations return \<open>syscall.EINVAL\<close>.
\<close>

definition unconnected :: net_conn where
  "unconnected = \<lparr>nc_in = [], nc_end = ErrOther ''invalid argument'', nc_out = [],
    nc_werr = Some (ErrOther ''invalid argument''), nc_closed = False, nc_deadline = None, nc_addr = []\<rparr>"

definition ProxyAllServer_CreateConn :: "RequestData \<Rightarrow> net_conn res" where
  "ProxyAllServer_CreateConn req = Ok unconnected"

definition ProxyAllServer_Status :: Packet where
  "ProxyAllServer_Status = empty_packet"

definition proxy_all_server :: "'w server" where
  "proxy_all_server =
    \<lparr>sv_ConnAction = (\<lambda>req w. (Ok (ProxyAllServer_ConnAction req), w)),
     sv_CreateConn = (\<lambda>req w. (ProxyAllServer_CreateConn req, w)),
     sv_Status = (\<lambda>w. (Ok ProxyAllServer_Status, w))\<rparr>"

section \<open>The catalog of the proxy\<close>

text \<open>
  The inner and the outer loop of \<open>ReloadServerCatalog\<close>. \<open>cfg\<close> and \<open>newCfgs\<close> are what the two
  configuration readers return; with an error the catalog is left as it was, at first nil.
\<close>

fun register_domains :: "string list \<Rightarrow> 's \<Rightarrow> (string \<rightharpoonup> 's) \<Rightarrow> (string \<rightharpoonup> 's)" where
  "register_domains [] server servers = servers"
| "register_domains (domain # ds) server servers =
    register_domains ds server (servers(domain \<mapsto> server))"

fun build_servers ::
  "(string \<Rightarrow> string) \<Rightarrow> 'f os_env \<Rightarrow> ServerConfig list \<Rightarrow> (string \<rightharpoonup> APIServer) \<Rightarrow>
    (string \<rightharpoonup> APIServer) res" where
  "build_servers uni env [] servers = Ok servers"
| "build_servers uni env (newCfg # rest) servers =
    res_bind (ServerToAPIConfig newCfg) (\<lambda>apiCfg.
      build_servers uni env rest
        (register_domains (sf_Domains newCfg) (NewAPIServer uni env apiCfg) servers))"

definition ReloadServerCatalog ::
  "(string \<Rightarrow> string) \<Rightarrow> 'f os_env \<Rightarrow> UltravioletConfig res \<Rightarrow> ServerConfig list res \<Rightarrow>
    APIServer BasicServerCatalog option \<Rightarrow> unit res \<times> APIServer BasicServerCatalog option" where
  "ReloadServerCatalog uni env uvCfg cfgReader serverCatalog =
    (case res_bind uvCfg (\<lambda>cfg. res_bind cfgReader (\<lambda>newCfgs.
            res_bind (build_servers uni env newCfgs Map.empty) (\<lambda>servers.
              Ok (NewServerCatalog servers (DefaultStatusPk uni cfg) (VerifyConnectionPk cfg))))) of
       Ok catalog \<Rightarrow> (Ok (), Some catalog)
     | Err e \<Rightarrow> (Err e, serverCatalog)
     | Panic \<Rightarrow> (Panic, serverCatalog))"

section \<open>The accept loop\<close>

text \<open>
  \<open>maxConnParallelProcessing\<close> is a channel of capacity 100000: sending a token claims a place and
  blocks while it is full, and every handler takes a token out when it is done.
\<close>

definition maxConnParallelProcessing :: nat where
  "maxConnParallelProcessing = 100000"

definition claimParallelRun :: "nat \<Rightarrow> nat option" where
  "claimParallelRun tokens = (if tokens < maxConnParallelProcessing then Some (tokens + 1) else None)"

definition unclaimParallelRun :: "nat \<Rightarrow> nat option" where
  "unclaimParallelRun tokens = (if tokens = 0 then None else Some (tokens - 1))"

datatype accept_state = Accepting | Claiming net_conn | Stopped

record speedy_state =
  sp_loop :: accept_state
  sp_tokens :: nat
  sp_running :: "net_conn list"

definition speedy_start :: speedy_state where
  "speedy_start = \<lparr>sp_loop = Accepting, sp_tokens = 0, sp_running = []\<rparr>"

inductive speedy_step :: "speedy_state \<Rightarrow> speedy_state \<Rightarrow> bool" where
  accept_ok: "sp_loop s = Accepting \<Longrightarrow> speedy_step s (s\<lparr>sp_loop := Claiming conn\<rparr>)"
| accept_error: "sp_loop s = Accepting \<Longrightarrow> e \<noteq> ErrNetClosed \<Longrightarrow> speedy_step s s"
| listener_closed: "sp_loop s = Accepting \<Longrightarrow> speedy_step s (s\<lparr>sp_loop := Stopped\<rparr>)"
| claim: "sp_loop s = Claiming conn \<Longrightarrow> claimParallelRun (sp_tokens s) = Some n \<Longrightarrow>
    speedy_step s \<lparr>sp_loop = Accepting, sp_tokens = n, sp_running = conn # sp_running s\<rparr>"
| handler_done: "conn \<in> set (sp_running s) \<Longrightarrow> unclaimParallelRun (sp_tokens s) = Some n \<Longrightarrow>
    speedy_step s (s\<lparr>sp_tokens := n, sp_running := remove1 conn (sp_running s)\<rparr>)"

inductive_cases speedy_stepE: "speedy_step s s'"

section \<open>Facts\<close>

lemma register_domains_apply:
  "register_domains ds server servers d = (if d \<in> set ds then Some server else servers d)"
  by (induction ds arbitrary: servers) auto

definition speedy_inv :: "speedy_state \<Rightarrow> bool" where
  "speedy_inv s \<longleftrightarrow> sp_tokens s = length (sp_running s) \<and> sp_tokens s \<le> maxConnParallelProcessing"

lemma speedy_inv_step: "speedy_step s s' \<Longrightarrow> speedy_inv s \<Longrightarrow> speedy_inv s'"
  by (induction rule: speedy_step.induct)
    (auto simp: speedy_inv_def claimParallelRun_def unclaimParallelRun_def length_remove1 split: if_splits)

lemma speedy_inv_reachable: "speedy_step\<^sup>*\<^sup>* speedy_start s \<Longrightarrow> speedy_inv s"
proof (induction rule: rtranclp_induct)
  case base
  show ?case by (simp add: speedy_inv_def speedy_start_def)
next
  case (step s t)
  then show ?case by (blast intro: speedy_inv_step)
qed

text \<open>The servers of the catalog are those of the configurations, under their domains.\<close>

definition api_of :: "(string \<Rightarrow> string) \<Rightarrow> 'f os_env \<Rightarrow> ServerConfig \<Rightarrow> APIServer" where
  "api_of uni env cfg =
    NewAPIServer uni env (case ServerToAPIConfig cfg of Ok a \<Rightarrow> a)"

lemma build_servers_Cons:
  "build_servers uni env (cfg # cfgs) servers =
    build_servers uni env cfgs (register_domains (sf_Domains cfg) (api_of uni env cfg) servers)"
  by (simp add: ServerToAPIConfig_def api_of_def)

lemma build_servers_ok:
  "\<exists>servers'. build_servers uni env cfgs servers = Ok servers' \<and>
    (case servers' d of
       Some s \<Rightarrow> (\<exists>cfg \<in> set cfgs. d \<in> set (sf_Domains cfg) \<and> s = api_of uni env cfg) \<or> servers d = Some s
     | None \<Rightarrow> (\<forall>cfg \<in> set cfgs. d \<notin> set (sf_Domains cfg)) \<and> servers d = None)"
proof (induction cfgs arbitrary: servers)
  case Nil
  then show ?case by (simp split: option.splits)
next
  case (Cons cfg cfgs)
  from Cons.IH [of "register_domains (sf_Domains cfg) (api_of uni env cfg) servers"] show ?case
    unfolding build_servers_Cons register_domains_apply
    by (elim exE, rule_tac x = servers' in exI) (auto split: option.splits if_splits)
qed

lemma ReloadServerCatalog_ok:
  "\<exists>catalog. ReloadServerCatalog uni env (Ok uvCfg) (Ok cfgs) old = (Ok (), Some catalog) \<and>
    build_servers uni env cfgs Map.empty = Ok (sc_ServerDict catalog)"
proof -
  obtain servers where "build_servers uni env cfgs Map.empty = Ok servers"
    using build_servers_ok [of uni env cfgs Map.empty] by blast
  then show ?thesis by (simp add: ReloadServerCatalog_def NewServerCatalog_def)
qed

lemma api_of_action:
  "rq_Type req = Login \<or> rq_Type req = Status \<Longrightarrow>
   APIServer_ConnAction (api_of uni env cfg) req w = (Ok PROXY, w)"
  by (auto simp: api_of_def NewAPIServer_def ServerToAPIConfig_def APIServer_ConnAction_def
      serverOnline_def Let_def)

section \<open>Properties\<close>

text \<open>
  C18: After a reload an address resolves exactly when its lower-case form is a domain of some
  configuration, and then to the server of a configuration that lists it; otherwise
  ErrNoServerFound.
\<close>

theorem ReloadServerCatalog_lookup:
  "\<exists>catalog. ReloadServerCatalog uni env (Ok uvCfg) (Ok cfgs) old = (Ok (), Some catalog) \<and>
    (case catalog_Find uni catalog a of
       Ok server \<Rightarrow> (\<exists>cfg \<in> set cfgs. ToLower uni a \<in> set (sf_Domains cfg) \<and> server = api_of uni env cfg)
     | Err e \<Rightarrow> e = ErrNoServerFound \<and> ToLower uni a \<notin> (\<Union>cfg \<in> set cfgs. set (sf_Domains cfg))
     | Panic \<Rightarrow> False)"
proof -
  obtain catalog where c: "ReloadServerCatalog uni env (Ok uvCfg) (Ok cfgs) old = (Ok (), Some catalog)"
    "build_servers uni env cfgs Map.empty = Ok (sc_ServerDict catalog)"
    using ReloadServerCatalog_ok by blast
  with build_servers_ok [of uni env cfgs Map.empty "ToLower uni a"] show ?thesis
    by (intro exI [of _ catalog]) (auto simp: catalog_Find_def Let_def split: option.splits)
qed

text \<open>
  A server all of whose configured domains contain an upper-case letter is reached by no ASCII
  address, because domains are registered as they are written and looked up in lower case.
\<close>

theorem uppercase_domains_unreachable:
  assumes "list_all is_ascii a" and "\<forall>cfg \<in> set cfgs. \<forall>d \<in> set (sf_Domains cfg). \<exists>c \<in> set d. is_upper c"
  shows "\<exists>catalog. ReloadServerCatalog uni env (Ok uvCfg) (Ok cfgs) old = (Ok (), Some catalog) \<and>
    catalog_Find uni catalog a = Err ErrNoServerFound"
proof -
  obtain catalog where c: "ReloadServerCatalog uni env (Ok uvCfg) (Ok cfgs) old = (Ok (), Some catalog)"
    "build_servers uni env cfgs Map.empty = Ok (sc_ServerDict catalog)"
    using ReloadServerCatalog_ok by blast
  have "\<forall>cfg \<in> set cfgs. ToLower uni a \<notin> set (sf_Domains cfg)"
    using assms ToLower_no_upper [OF assms(1)] by blast
  with c build_servers_ok [of uni env cfgs Map.empty "ToLower uni a"]
  have "sc_ServerDict catalog (ToLower uni a) = None" by (auto split: option.splits)
  with c(1) show ?thesis by (auto simp: catalog_Find_simps)
qed

theorem uppercase_domains_unreachable_witness:
  "\<exists>catalog. ReloadServerCatalog (\<lambda>s. s) plain_env (Ok DefaultUltravioletConfig)
      (Ok [zero_ServerConfig\<lparr>sf_Domains := [''Uv.io'']\<rparr>]) None = (Ok (), Some catalog) \<and>
    catalog_Find (\<lambda>s. s) catalog ''Uv.io'' = Err ErrNoServerFound"
  by (rule uppercase_domains_unreachable) (simp_all add: is_ascii_def is_upper_def)

text \<open>
  Every server of a reloaded catalog dials the empty address.
\<close>

theorem speedy_servers_dial_nowhere:
  assumes "ReloadServerCatalog uni env (Ok uvCfg) (Ok cfgs) old = (Ok (), Some catalog)"
    and "catalog_Find uni catalog a = Ok server"
    and "rq_Type req = Login \<or> rq_Type req = Status"
  shows "APIServer_ConnAction server req w = (Ok PROXY, w) \<and>
    nw_dials (uw_net (snd (APIServer_CreateConn pp server req w))) = nw_dials (uw_net w) @ [[]]"
proof -
  have "build_servers uni env cfgs Map.empty = Ok (sc_ServerDict catalog)"
    using assms(1) ReloadServerCatalog_ok [of uni env uvCfg cfgs old] by auto
  with assms(2) build_servers_ok [of uni env cfgs Map.empty "ToLower uni a"]
  obtain cfg where server: "server = api_of uni env cfg"
    by (auto simp: catalog_Find_Ok_iff split: option.splits)
  moreover have "as_proxyTo server = []"
    by (simp add: server api_of_def NewAPIServer_def Let_def)
  ultimately show ?thesis using assms(3)
    by (auto simp: api_of_action APIServer_CreateConn_def Dial_def Let_def leave_def
        split: prod.splits res.splits)
qed

theorem speedy_servers_dial_nowhere_witness:
  "\<exists>catalog server. ReloadServerCatalog (\<lambda>s. s) plain_env (Ok DefaultUltravioletConfig)
      (Ok [zero_ServerConfig\<lparr>sf_Domains := [''uv.io''], sf_ProxyTo := ''b:1''\<rparr>]) None = (Ok (), Some catalog) \<and>
    catalog_Find (\<lambda>s. s) catalog ''uv.io'' = Ok server \<and>
    nw_dials (uw_net (snd (APIServer_CreateConn \<lparr>pp_write = \<lambda>_ _ c. (Ok (), c), pp_local = nc_addr\<rparr>
      server (zero_request\<lparr>rq_Type := Login\<rparr>)
      \<lparr>uw_bot = botLimiter 0, uw_net = \<lparr>nw_now = 100, nw_outcome = \<lambda>_ _ _. Err ErrEOF,
        nw_delay = \<lambda>_. 1, nw_dials = [], nw_left = []\<rparr>\<rparr>))) = [[]]"
  (is "\<exists>catalog server. ReloadServerCatalog ?uni _ _ (Ok [?cfg]) _ = _ \<and> _ \<and>
    nw_dials (uw_net (snd (APIServer_CreateConn ?pp server ?req ?w))) = _")
proof -
  obtain catalog where c: "ReloadServerCatalog ?uni plain_env (Ok DefaultUltravioletConfig) (Ok [?cfg]) None
      = (Ok (), Some catalog)" and b: "build_servers ?uni plain_env [?cfg] Map.empty = Ok (sc_ServerDict catalog)"
    using ReloadServerCatalog_ok by blast
  have "ToLower ?uni ''uv.io'' = ''uv.io''"
    by (simp add: ToLower_def is_ascii_def lower_char_def is_upper_def)
  moreover have "sc_ServerDict catalog = [''uv.io'' \<mapsto> api_of ?uni plain_env ?cfg]"
    using b unfolding build_servers_Cons by simp
  ultimately obtain server where f: "catalog_Find ?uni catalog ''uv.io'' = Ok server"
    by (auto simp: catalog_Find_def)
  from speedy_servers_dial_nowhere [OF c f, of ?req ?w ?pp] c f show ?thesis by auto
qed



text \<open>
  A login that is proxied loses its handshake and login packets: the backend is sent only what the
  client sends after them.
\<close>

theorem speedy_proxy_drops_packets:
  assumes "nc_in c = segs1 @ segs2" and "[] \<notin> set (nc_in c)"
    and "concat segs1 = Packet_Marshal (Handshake_Marshal hs) @
      Packet_Marshal (ServerLoginStart_Marshal \<lparr>ls_Name = name\<rparr>)"
    and "length (hs_ServerAddress hs) < 2 ^ 31 - 20" and "length name < 2 ^ 31 - 10"
    and "version_ok (hs_ProtocolVersion hs)" and "hs_NextState hs = 2"
    and "catalog_Find uni servers (ToLower uni (ParseServerAddress hs)) = Ok (api_server pp (api_of uni env cfg))"
    and "sf_SendProxyProtocol cfg = False"
    and "fst (Dial (as_dialer (api_of uni env cfg)) [] (uw_net w)) = Ok backend"
  shows "\<exists>session. hd_session (fst (FullRun uni now c servers w)) = Some session \<and>
    (\<forall>s. proxy_step\<^sup>*\<^sup>* session s \<longrightarrow>
      (\<exists>u r. nc_out (px_server s) = nc_out backend @ u \<and> concat segs2 = u @ r))"
proof -
  let ?server = "api_server pp (api_of uni env cfg)" and ?c = "c\<lparr>nc_in := segs2, nc_deadline := None\<rparr>"
  let ?req = "\<lparr>rq_Type = Login, rq_Handshake = hs, rq_ServerAddr = ToLower uni (ParseServerAddress hs),
    rq_Addr = Some (nc_addr c), rq_Username = name\<rparr>"
  have read: "ReadStuff uni now c = (Ok ?req, ?c)"
    using ReadStuff_login_packets [OF assms(1-7)] .
  have "as_proxyTo (api_of uni env cfg) = []" "\<not> as_sendProxyProtocol (api_of uni env cfg)"
    using assms(9) by (simp_all add: api_of_def NewAPIServer_def ServerToAPIConfig_def Let_def)
  then have "fst (sv_CreateConn ?server ?req w) = Ok backend"
    using assms(10) by (cases "Dial (as_dialer (api_of uni env cfg)) [] (uw_net w)")
      (simp add: api_server_def APIServer_CreateConn_def)
  moreover have "sv_ConnAction ?server ?req w = (Ok PROXY, w)"
    by (simp add: api_server_def api_of_action)
  ultimately have "hd_session (fst (FullRun uni now c servers w)) = Some (start_pipes ?c backend)"
    using read assms(8)
    by (cases "sv_CreateConn ?server ?req w")
      (simp add: FullRun_def LookupServer_def ProcessServer_def ProxyConnection_def)
  moreover have "\<exists>u r. nc_out (px_server s) = nc_out backend @ u \<and> concat segs2 = u @ r"
    if "proxy_step\<^sup>*\<^sup>* (start_pipes ?c backend) s" for s
    using proxy_inv_reachable [OF that] by (auto simp: proxy_inv_def pipe_inv_def)
  ultimately show ?thesis by blast
qed

theorem speedy_proxy_drops_packets_witness:
  "\<exists>session. hd_session (fst (FullRun (\<lambda>s. s) 5
      \<lparr>nc_in = [[7, 0, 47], [1, 97, 99, 221, 2, 3], [0, 1, 98], [5]], nc_end = ErrEOF, nc_out = [],
       nc_werr = None, nc_closed = False, nc_deadline = None, nc_addr = ''c''\<rparr>
      (NewServerCatalog [''a'' \<mapsto> api_server \<lparr>pp_write = \<lambda>_ _ c. (Ok (), c), pp_local = nc_addr\<rparr>
        (api_of (\<lambda>s. s) plain_env zero_ServerConfig)] empty_packet empty_packet)
      \<lparr>uw_bot = botLimiter 0, uw_net = \<lparr>nw_now = 100, nw_outcome = \<lambda>_ _ _. Ok
        \<lparr>nc_in = [], nc_end = ErrEOF, nc_out = [], nc_werr = None, nc_closed = False, nc_deadline = None,
         nc_addr = ''b''\<rparr>, nw_delay = \<lambda>_. 1, nw_dials = [], nw_left = []\<rparr>\<rparr>)) = Some session \<and>
    (\<exists>u r. nc_out (px_server session) = u \<and> [5] = u @ r)"
  (is "\<exists>session. hd_session (fst (FullRun ?uni ?now ?c ?servers ?w)) = _ \<and> _")
proof -
  let ?hs = "\<lparr>hs_ProtocolVersion = 47, hs_ServerAddress = ''a'', hs_ServerPort = 25565,
    hs_NextState = 2\<rparr>"
  have addr: "ToLower ?uni (ParseServerAddress ?hs) = ''a''" "ToLower ?uni ''a'' = ''a''"
    by (simp_all add: ParseServerAddress_before before_def ForgeSeparator_def RealIPSeparator_def
        ToLower_def is_ascii_def lower_char_def is_upper_def)
  obtain session where s: "hd_session (fst (FullRun ?uni ?now ?c ?servers ?w)) = Some session"
    "\<And>s. proxy_step\<^sup>*\<^sup>* session s \<Longrightarrow> \<exists>u r. nc_out (px_server s) = u \<and> concat [[5]] = u @ r"
    using speedy_proxy_drops_packets [of ?c "[[7, 0, 47], [1, 97, 99, 221, 2, 3], [0, 1, 98]]" "[[5]]" ?hs
        "''b''" ?uni ?servers "\<lparr>pp_write = \<lambda>_ _ c. (Ok (), c), pp_local = nc_addr\<rparr>" plain_env
        zero_ServerConfig ?w "\<lparr>nc_in = [], nc_end = ErrEOF, nc_out = [], nc_werr = None,
          nc_closed = False, nc_deadline = None, nc_addr = ''b''\<rparr>" ?now]
    by (auto simp: login_bytes version_ok_def addr catalog_Find_def NewServerCatalog_def Dial_def Let_def
        zero_ServerConfig_def)
  from s(2) [OF rtranclp.rtrancl_refl] s(1) show ?thesis by auto
qed

end
