(* ===== verification/Wrk_Backend.thy ===== *)
theory Wrk_Backend
  imports UV_Server
begin

text \<open>
  Backend workers (worker/type.go, worker/backend.go): the goroutine that answers the requests for one
  server, its configuration, and the \<open>core.Server\<close> in front of it.
\<close>

section \<open>Answers\<close>

datatype BackendAction = Error | Proxy | Disconnect | SendStatus | Close

datatype ProxyAction = ProxyOpen | ProxyClose

text \<open>\<open>ba_serverConnFunc\<close> is nil, and \<open>ba_hasProxyCh\<close> false, in all answers but proxy answers.\<close>

record BackendAnswer =
  ba_ServerName :: string
  ba_serverConnFunc :: "ConnectionCreatorFunc option"
  ba_action :: BackendAction
  ba_hasProxyCh :: bool
  ba_firstPacket :: Packet
  ba_secondPacket :: Packet

definition zero_answer :: BackendAnswer where
  "zero_answer = \<lparr>ba_ServerName = [], ba_serverConnFunc = None, ba_action = Error,
    ba_hasProxyCh = False, ba_firstPacket = empty_packet, ba_secondPacket = empty_packet\<rparr>"

definition NewDisconnectAnswer :: "Packet \<Rightarrow> BackendAnswer" where
  "NewDisconnectAnswer p = zero_answer\<lparr>ba_action := Disconnect, ba_firstPacket := p\<rparr>"

definition NewStatusAnswer :: "Packet \<Rightarrow> BackendAnswer" where
  "NewStatusAnswer p = zero_answer\<lparr>ba_action := SendStatus, ba_firstPacket := p\<rparr>"

definition NewProxyAnswer :: "Packet \<Rightarrow> Packet \<Rightarrow> ConnectionCreatorFunc \<Rightarrow> BackendAnswer" where
  "NewProxyAnswer p1 p2 connFunc =
    zero_answer\<lparr>ba_action := Proxy, ba_serverConnFunc := Some connFunc, ba_firstPacket := p1,
      ba_secondPacket := p2, ba_hasProxyCh := True\<rparr>"

definition NewCloseAnswer :: BackendAnswer where
  "NewCloseAnswer = zero_answer\<lparr>ba_action := Close\<rparr>"

text \<open>\<open>ServerConn()\<close> calls the function; a nil function panics.\<close>

definition answer_ServerConn :: "BackendAnswer \<Rightarrow> ConnectionCreatorFunc" where
  "answer_ServerConn ans n =
    (case ba_serverConnFunc ans of None \<Rightarrow> (Panic, n) | Some f \<Rightarrow> f n)"

definition answer_Response :: "BackendAnswer \<Rightarrow> Packet" where
  "answer_Response ans = ba_firstPacket ans"

definition answer_Response2 :: "BackendAnswer \<Rightarrow> Packet" where
  "answer_Response2 ans = ba_secondPacket ans"

definition answer_ProxyCh :: "BackendAnswer \<Rightarrow> bool" where
  "answer_ProxyCh ans = ba_hasProxyCh ans"

definition answer_Action :: "BackendAnswer \<Rightarrow> BackendAction" where
  "answer_Action ans = ba_action ans"

section \<open>Configurations\<close>

record BackendConfig =
  bk_Name :: string
  bk_UpdateProxyProtocol :: bool
  bk_SendProxyProtocol :: bool
  bk_DisconnectPacket :: Packet
  bk_OfflineStatusPacket :: Packet
  bk_HsModifier :: "HandshakeModifier option"
  bk_ConnCreator :: "ConnectionCreatorFunc option"
  bk_ConnLimiter :: "ConnectionLimiter option"
  bk_ServerState :: "StateAgent option"
  bk_StatusCache :: "statusCache option"

definition NewBackendConfig :: "gotime \<Rightarrow> BackendWorkerConfig \<Rightarrow> BackendConfig" where
  "NewBackendConfig now cfg =
    (let dialer = \<lparr>dl_Timeout = bc_DialTimeout cfg, dl_bind = bc_ProxyBind cfg\<rparr>;
         connCreator = BasicConnCreator (bc_ProxyTo cfg) dialer;
         rateLimiter =
           (if 0 < bc_RateLimit cfg then
              let unverifyCooldown = 10 * bc_RateLimitDuration cfg
              in BotFilter (NewBotFilterConnLimiter now (bc_RateLimit cfg) (bc_RateLimitDuration cfg)
                   unverifyCooldown (bc_RateBanListCooldown cfg) (bc_RateDisconPk cfg))
            else AlwaysAllowConnection);
         statusCache =
           (if bc_CacheStatus cfg
            then Some (NewStatusCache (bc_ValidProtocol cfg) (bc_CacheUpdateCooldown cfg) connCreator)
            else None);
         serverState =
           (case bc_StateOption cfg of
              ALWAYS_ONLINE \<Rightarrow> AlwaysOnlineState
            | ALWAYS_OFFLINE \<Rightarrow> AlwaysOfflineState
            | _ \<Rightarrow> McState (NewMcServerState (bc_StateUpdateCooldown cfg) connCreator));
         hsModifier =
           (if bc_OldRealIp cfg then Some NewRealIP2_4
            else if bc_NewRealIP cfg then Some (NewRealIP2_5 (bc_RealIPKey cfg)) else None)
     in \<lparr>bk_Name = bc_Name cfg, bk_UpdateProxyProtocol = True,
         bk_SendProxyProtocol = bc_SendProxyProtocol cfg,
         bk_DisconnectPacket = bc_DisconnectPacket cfg, bk_OfflineStatusPacket = bc_OfflineStatus cfg,
         bk_HsModifier = hsModifier, bk_ConnCreator = Some connCreator,
         bk_ConnLimiter = Some rateLimiter, bk_ServerState = Some serverState,
         bk_StatusCache = statusCache\<rparr>)"

section \<open>The worker\<close>

text \<open>The gauge \<open>playersConnected\<close>, shared by all workers: its value for each host.\<close>

type_synonym gauge = "string \<rightharpoonup> int"

definition gauge_Add :: "string \<Rightarrow> int \<Rightarrow> gauge \<Rightarrow> gauge" where
  "gauge_Add host x g = g(host \<mapsto> (case g host of None \<Rightarrow> 0 | Some v \<Rightarrow> v) + x)"

definition gauge_Delete :: "string \<Rightarrow> gauge \<Rightarrow> gauge" where
  "gauge_Delete host g = g(host := None)"

record BackendWorker =
  bw_activeConns :: int
  bw_Name :: string
  bw_SendProxyProtocol :: bool
  bw_OfflineStatusPacket :: Packet
  bw_DisconnectPacket :: Packet
  bw_HsModifier :: "HandshakeModifier option"
  bw_ConnCreator :: "ConnectionCreatorFunc option"
  bw_ConnLimiter :: "ConnectionLimiter option"
  bw_ServerState :: "StateAgent option"
  bw_StatusCache :: "statusCache option"

definition NewEmptyBackendWorker :: BackendWorker where
  "NewEmptyBackendWorker = \<lparr>bw_activeConns = 0, bw_Name = [], bw_SendProxyProtocol = False,
    bw_OfflineStatusPacket = empty_packet, bw_DisconnectPacket = empty_packet,
    bw_HsModifier = None, bw_ConnCreator = None, bw_ConnLimiter = None, bw_ServerState = None,
    bw_StatusCache = None\<rparr>"

text \<open>\<open>if new != nil { field = new }\<close>.\<close>

definition set_if :: "'a option \<Rightarrow> 'a option \<Rightarrow> 'a option" where
  "set_if new old = (case new of None \<Rightarrow> old | Some x \<Rightarrow> Some x)"

definition UpdateSameGoroutine ::
  "BackendConfig \<Rightarrow> BackendWorker \<times> gauge \<Rightarrow> BackendWorker \<times> gauge" where
  "UpdateSameGoroutine wCfg wg =
    (let (w, g) = wg;
         (w1, g1) =
           (if bk_Name wCfg \<noteq> [] then
              let w' = w\<lparr>bw_Name := bk_Name wCfg\<rparr>
              in (w', gauge_Add (bw_Name w') (bw_activeConns w') (gauge_Delete (bw_Name w) g))
            else (w, g));
         w2 = (if bk_UpdateProxyProtocol wCfg
               then w1\<lparr>bw_SendProxyProtocol := bk_SendProxyProtocol wCfg\<rparr> else w1);
         w3 = (if 0 < length (pk_Data (bk_DisconnectPacket wCfg))
               then w2\<lparr>bw_DisconnectPacket := bk_DisconnectPacket wCfg\<rparr> else w2);
         w4 = (if 0 < length (pk_Data (bk_OfflineStatusPacket wCfg))
               then w3\<lparr>bw_OfflineStatusPacket := bk_OfflineStatusPacket wCfg\<rparr> else w3)
     in (w4\<lparr>bw_HsModifier := set_if (bk_HsModifier wCfg) (bw_HsModifier w4),
            bw_ConnCreator := set_if (bk_ConnCreator wCfg) (bw_ConnCreator w4),
            bw_ConnLimiter := set_if (bk_ConnLimiter wCfg) (bw_ConnLimiter w4),
            bw_ServerState := set_if (bk_ServerState wCfg) (bw_ServerState w4),
            bw_StatusCache := set_if (bk_StatusCache wCfg) (bw_StatusCache w4)\<rparr>, g1))"

definition NewBackendWorker ::
  "gotime \<Rightarrow> BackendWorkerConfig \<Rightarrow> gauge \<Rightarrow> BackendWorker \<times> gauge" where
  "NewBackendWorker now cfgServer g =
    (let cfg = (NewBackendConfig now cfgServer)\<lparr>bk_UpdateProxyProtocol := True\<rparr>
     in UpdateSameGoroutine cfg (NewEmptyBackendWorker, g))"

definition proxyRequest :: "ProxyAction \<Rightarrow> BackendWorker \<times> gauge \<Rightarrow> BackendWorker \<times> gauge" where
  "proxyRequest proxyAction wg =
    (let (w, g) = wg in
     case proxyAction of
       ProxyOpen \<Rightarrow> (w\<lparr>bw_activeConns := bw_activeConns w + 1\<rparr>, gauge_Add (bw_Name w) 1 g)
     | ProxyClose \<Rightarrow> (w\<lparr>bw_activeConns := bw_activeConns w - 1\<rparr>, gauge_Add (bw_Name w) (- 1) g))"

section \<open>Requests\<close>

text \<open>The connection function of a worker that sends the PROXY protocol.\<close>

definition proxy_protocol_conn ::
  "proxyproto \<Rightarrow> string option \<Rightarrow> ConnectionCreatorFunc \<Rightarrow> ConnectionCreatorFunc" where
  "proxy_protocol_conn pp addr creator n =
    (case creator_Conn creator n of
       (Ok serverConn, n1) \<Rightarrow>
         (case pp_write pp addr (nc_addr serverConn) serverConn of
            (Ok _, c1) \<Rightarrow> (Ok c1, n1)
          | (Err e, c1) \<Rightarrow> (Err e, leave c1 n1)
          | (Panic, c1) \<Rightarrow> (Panic, n1))
     | x \<Rightarrow> x)"

text \<open>
  The parameters of the environment: the signature of the new RealIP and the PROXY protocol. The steps
  of \<open>HandleRequest\<close>: the check of the state agent, the status cache, the limiter, and the proxy
  answer. \<open>None\<close> means that the step falls through to the next.
\<close>

record backend_env =
  be_sign :: "ecdsa_key \<Rightarrow> byte list \<Rightarrow> byte list res"
  be_pp :: proxyproto

definition handle_state ::
  "RequestData \<Rightarrow> BackendWorker \<times> network \<Rightarrow> BackendAnswer option res \<times> BackendWorker \<times> network" where
  "handle_state req wn =
    (let (w, n) = wn in
     case bw_ServerState w of
       None \<Rightarrow> (Ok None, w, n)
     | Some agent \<Rightarrow>
         (let (x, agent1, n1) = agent_State agent n; w1 = w\<lparr>bw_ServerState := Some agent1\<rparr> in
          case x of
            Ok st \<Rightarrow>
              if st = Offline then
                (case rq_Type req of
                   Status \<Rightarrow> (Ok (Some (NewStatusAnswer (bw_OfflineStatusPacket w1))), w1, n1)
                 | Login \<Rightarrow> (Ok (Some (NewDisconnectAnswer (bw_DisconnectPacket w1))), w1, n1)
                 | UnknownState \<Rightarrow> (Ok None, w1, n1))
              else (Ok None, w1, n1)
          | Err e \<Rightarrow> (Err e, w1, n1)
          | Panic \<Rightarrow> (Panic, w1, n1)))"

definition handle_cache ::
  "RequestData \<Rightarrow> BackendWorker \<times> network \<Rightarrow> BackendAnswer option res \<times> BackendWorker \<times> network" where
  "handle_cache req wn =
    (let (w, n) = wn in
     if rq_Type req = Status then
       (case bw_StatusCache w of
          None \<Rightarrow> (Ok None, w, n)
        | Some cache \<Rightarrow>
            (let (x, cache1, n1) = statusCache_Status cache n; w1 = w\<lparr>bw_StatusCache := Some cache1\<rparr> in
             case x of
               Ok ans \<Rightarrow> (Ok (Some (NewStatusAnswer ans)), w1, n1)
             | Err _ \<Rightarrow> (Ok (Some (NewStatusAnswer (bw_OfflineStatusPacket w1))), w1, n1)
             | Panic \<Rightarrow> (Panic, w1, n1)))
     else (Ok None, w, n))"

definition handle_limit ::
  "RequestData \<Rightarrow> BackendWorker \<times> network \<Rightarrow> BackendAnswer option res \<times> BackendWorker \<times> network" where
  "handle_limit req wn =
    (let (w, n) = wn in
     case bw_ConnLimiter w of
       None \<Rightarrow> (Ok None, w, n)
     | Some limiter \<Rightarrow>
         (let (x, limiter1) = limiter_Allow (nw_now n) req limiter;
              w1 = w\<lparr>bw_ConnLimiter := Some limiter1\<rparr> in
          case x of
            Ok pass \<Rightarrow> (Ok (if pass then None else Some zero_answer), w1, n)
          | Err e \<Rightarrow> (Err e, w1, n)
          | Panic \<Rightarrow> (Panic, w1, n)))"

definition second_packet :: "RequestData \<Rightarrow> Packet" where
  "second_packet req =
    (case rq_Type req of
       Status \<Rightarrow> ServerBoundRequest_Marshal
     | Login \<Rightarrow> ServerLoginStart_Marshal \<lparr>ls_Name = rq_Username req\<rparr>
     | UnknownState \<Rightarrow> empty_packet)"

text \<open>A nil connection creator panics, and so does asking a nil address for its text.\<close>

definition handle_proxy ::
  "backend_env \<Rightarrow> RequestData \<Rightarrow> BackendWorker \<times> network \<Rightarrow> BackendAnswer res \<times> BackendWorker \<times> network" where
  "handle_proxy env req wn =
    (let (w, n) = wn in
     case bw_ConnCreator w of
       None \<Rightarrow> (Panic, w, n)
     | Some creator \<Rightarrow>
         (let connFunc = (if bw_SendProxyProtocol w
                          then proxy_protocol_conn (be_pp env) (rq_Addr req) creator
                          else creator_Conn creator);
              modified = (case bw_HsModifier w of
                 None \<Rightarrow> Ok (rq_Handshake req)
               | Some m \<Rightarrow>
                   (case rq_Addr req of
                      None \<Rightarrow> Panic
                    | Some addr \<Rightarrow>
                        modifier_Modify (be_sign env) m addr (Unix (nw_now n)) (rq_Handshake req)))
          in (res_bind modified (\<lambda>hs.
                let hsPk = Handshake_Marshal hs in
                Ok (NewProxyAnswer hsPk (second_packet req) connFunc)), w, n)))"

text \<open>A step that has not answered is followed by the next.\<close>

fun or_else ::
  "BackendAnswer option res \<times> 's \<Rightarrow> ('s \<Rightarrow> BackendAnswer res \<times> 's) \<Rightarrow> BackendAnswer res \<times> 's" where
  "or_else (Ok (Some ans), s) k = (Ok ans, s)"
| "or_else (Ok None, s) k = k s"
| "or_else (Err e, s) k = (Err e, s)"
| "or_else (Panic, s) k = (Panic, s)"

definition HandleRequest ::
  "backend_env \<Rightarrow> RequestData \<Rightarrow> BackendWorker \<times> network \<Rightarrow> BackendAnswer res \<times> BackendWorker \<times> network" where
  "HandleRequest env req wn =
    or_else (handle_state req wn) (\<lambda>wn1.
    or_else (handle_cache req wn1) (\<lambda>wn2.
    or_else (handle_limit req wn2) (\<lambda>wn3.
      handle_proxy env req wn3)))"

section \<open>The goroutine\<close>

text \<open>
  The channels of the worker as events, with what is sent back. After \<open>Close\<close> the request channel is
  closed, and sending on it panics; nobody receives from the other channels any more.
\<close>

datatype backend_event =
    EvRequest RequestData
  | EvProxy ProxyAction
  | EvCheck
  | EvUpdate BackendConfig
  | EvClose

datatype backend_reply = Answer BackendAnswer | ActiveConns bool | NoReply

record backend_state =
  bs_worker :: BackendWorker
  bs_net :: network
  bs_gauge :: gauge
  bs_open :: bool

definition Work_event ::
  "backend_env \<Rightarrow> backend_event \<Rightarrow> backend_state \<Rightarrow> backend_reply res \<times> backend_state" where
  "Work_event env ev s =
    (case ev of
       EvRequest req \<Rightarrow>
         (case HandleRequest env req (bs_worker s, bs_net s) of
            (x, w, n) \<Rightarrow>
              (res_bind x (\<lambda>ans. Ok (Answer (ans\<lparr>ba_ServerName := bw_Name w\<rparr>))),
               s\<lparr>bs_worker := w, bs_net := n\<rparr>))
     | EvProxy proxyAction \<Rightarrow>
         (case proxyRequest proxyAction (bs_worker s, bs_gauge s) of
            (w, g) \<Rightarrow> (Ok NoReply, s\<lparr>bs_worker := w, bs_gauge := g\<rparr>))
     | EvCheck \<Rightarrow> (Ok (ActiveConns (0 < bw_activeConns (bs_worker s))), s)
     | EvUpdate cfg \<Rightarrow>
         (case UpdateSameGoroutine cfg (bs_worker s, bs_gauge s) of
            (w, g) \<Rightarrow> (Ok NoReply, s\<lparr>bs_worker := w, bs_gauge := g\<rparr>))
     | EvClose \<Rightarrow> (Ok NoReply, s\<lparr>bs_open := False\<rparr>))"

text \<open>The loop \<open>Work\<close>: an event is received while the worker is open.\<close>

inductive Work_step :: "backend_env \<Rightarrow> backend_state \<Rightarrow> backend_event \<Rightarrow> backend_reply \<Rightarrow> backend_state \<Rightarrow> bool"
  for env :: backend_env where
  received: "bs_open s \<Longrightarrow> Work_event env ev s = (Ok reply, s') \<Longrightarrow> Work_step env s ev reply s'"

inductive Work_run :: "backend_env \<Rightarrow> backend_state \<Rightarrow> backend_event list \<Rightarrow> backend_state \<Rightarrow> bool"
  for env :: backend_env where
  run_nil: "Work_run env s [] s"
| run_step: "Work_run env s evs s1 \<Longrightarrow> Work_step env s1 ev reply s2 \<Longrightarrow> Work_run env s (evs @ [ev]) s2"

inductive_cases Work_stepE: "Work_step env s ev reply s'"

section \<open>The server in front of the worker\<close>

text \<open>
  \<open>BackendServer.HandleRequest\<close> builds its own request, of which only the type \<open>Status\<close> is set, and
  sends it to the worker. The state is the state of the worker.
\<close>

definition BackendServer_HandleRequest ::
  "backend_env \<Rightarrow> RequestData \<Rightarrow> backend_state \<Rightarrow> BackendAnswer res \<times> backend_state" where
  "BackendServer_HandleRequest env req s =
    (let backendReq = zero_request\<lparr>rq_Type := Status\<rparr> in
     if \<not> bs_open s then (Panic, s)
     else (case Work_event env (EvRequest backendReq) s of
        (Ok (Answer ans), s1) \<Rightarrow> (Ok ans, s1)
      | (Ok _, s1) \<Rightarrow> (Panic, s1)
      | (Err e, s1) \<Rightarrow> (Err e, s1)
      | (Panic, s1) \<Rightarrow> (Panic, s1)))"

definition action_of_answer :: "BackendAction \<Rightarrow> ServerAction" where
  "action_of_answer a =
    (case a of Disconnect \<Rightarrow> DISCONNECT | Proxy \<Rightarrow> PROXY | Close \<Rightarrow> CLOSE | Error \<Rightarrow> CLOSE
     | SendStatus \<Rightarrow> PROXY)"

definition BackendServer_ConnAction ::
  "backend_env \<Rightarrow> RequestData \<Rightarrow> backend_state \<Rightarrow> ServerAction res \<times> backend_state" where
  "BackendServer_ConnAction env req s =
    and_then (BackendServer_HandleRequest env req s) (\<lambda>ans s1. (Ok (action_of_answer (ba_action ans)), s1))"

definition BackendServer_CreateConn ::
  "backend_env \<Rightarrow> RequestData \<Rightarrow> backend_state \<Rightarrow> net_conn res \<times> backend_state" where
  "BackendServer_CreateConn env req s =
    and_then (BackendServer_HandleRequest env req s) (\<lambda>ans s1.
      if ba_action ans \<noteq> Proxy then (Err ErrNoServerConn, s1)
      else (case answer_ServerConn ans (bs_net s1) of (x, n) \<Rightarrow> (x, s1\<lparr>bs_net := n\<rparr>)))"

definition BackendServer_Status :: "backend_env \<Rightarrow> backend_state \<Rightarrow> Packet res \<times> backend_state" where
  "BackendServer_Status env s =
    and_then (BackendServer_HandleRequest env (zero_request\<lparr>rq_Type := Status\<rparr>) s) (\<lambda>ans s1.
      if ba_action ans \<noteq> SendStatus then (Ok empty_packet, s1) else (Ok (ba_firstPacket ans), s1))"

definition backend_server :: "backend_env \<Rightarrow> backend_state server" where
  "backend_server env =
    \<lparr>sv_ConnAction = BackendServer_ConnAction env, sv_CreateConn = BackendServer_CreateConn env,
     sv_Status = BackendServer_Status env\<rparr>"

section \<open>Facts about the worker\<close>

lemmas handle_defs = handle_state_def handle_cache_def handle_limit_def handle_proxy_def

lemma or_else_eq:
  "or_else x k = (case x of (Ok (Some ans), s) \<Rightarrow> (Ok ans, s) | (Ok None, s) \<Rightarrow> k s
    | (Err e, s) \<Rightarrow> (Err e, s) | (Panic, s) \<Rightarrow> (Panic, s))"
  by (cases "(x, k)" rule: or_else.cases) simp_all

text \<open>What a worker keeps while it answers a request.\<close>

definition same_identity :: "BackendWorker \<Rightarrow> BackendWorker \<Rightarrow> bool" where
  "same_identity w w' \<longleftrightarrow> bw_Name w' = bw_Name w \<and> bw_activeConns w' = bw_activeConns w"

lemma same_identity_trans: "same_identity w w1 \<Longrightarrow> same_identity w1 w2 \<Longrightarrow> same_identity w w2"
  by (simp add: same_identity_def)

lemma handle_identity:
  "handle_state req (w, n) = (x, w', n') \<Longrightarrow> same_identity w w'"
  "handle_cache req (w, n) = (x, w', n') \<Longrightarrow> same_identity w w'"
  "handle_limit req (w, n) = (x, w', n') \<Longrightarrow> same_identity w w'"
  "handle_proxy env req (w, n) = (y, w', n') \<Longrightarrow> same_identity w w'"
  by (auto simp: handle_defs same_identity_def Let_def
      split: option.splits prod.splits res.splits if_splits HandshakeState.splits)

lemma HandleRequest_identity:
  "HandleRequest env req (w, n) = (x, w', n') \<Longrightarrow> same_identity w w'"
  by (auto simp: HandleRequest_def or_else_eq split: prod.splits res.splits option.splits
      dest!: handle_identity intro: same_identity_trans)

text \<open>The gauge of a worker that is the only one.\<close>

definition counts_alone :: "backend_state \<Rightarrow> bool" where
  "counts_alone s \<longleftrightarrow>
    bs_gauge s = [bw_Name (bs_worker s) \<mapsto> bw_activeConns (bs_worker s)]"

fun players :: "backend_event list \<Rightarrow> int" where
  "players [] = 0"
| "players (EvProxy ProxyOpen # evs) = 1 + players evs"
| "players (EvProxy ProxyClose # evs) = players evs - 1"
| "players (ev # evs) = players evs"

lemma players_append: "players (evs @ evs') = players evs + players evs'"
  by (induction evs rule: players.induct) simp_all

lemma UpdateSameGoroutine_name:
  assumes "UpdateSameGoroutine cfg (w, g) = (w', g')"
  shows "bw_activeConns w' = bw_activeConns w"
    and "bw_Name w' = (if bk_Name cfg = [] then bw_Name w else bk_Name cfg)"
    and "g' = (if bk_Name cfg = [] then g
       else gauge_Add (bk_Name cfg) (bw_activeConns w) (gauge_Delete (bw_Name w) g))"
  using assms by (auto simp: UpdateSameGoroutine_def Let_def split: if_splits)

lemma Work_event_counts:
  assumes "Work_event env ev s = (x, s')"
  shows "bw_activeConns (bs_worker s') = bw_activeConns (bs_worker s) + players [ev]"
    and "counts_alone s \<Longrightarrow> counts_alone s'"
proof -
  have "bw_activeConns (bs_worker s') = bw_activeConns (bs_worker s) + players [ev] \<and>
    (counts_alone s \<longrightarrow> counts_alone s')"
  proof (cases ev)
    case (EvRequest req)
    then show ?thesis using assms
      by (auto simp: Work_event_def counts_alone_def same_identity_def
          dest!: HandleRequest_identity split: prod.splits)
  next
    case (EvProxy a)
    then show ?thesis using assms
      by (cases a) (auto simp: Work_event_def proxyRequest_def counts_alone_def gauge_Add_def)
  next
    case (EvUpdate cfg)
    obtain w g where u: "UpdateSameGoroutine cfg (bs_worker s, bs_gauge s) = (w, g)" by force
    from UpdateSameGoroutine_name [OF u] assms EvUpdate show ?thesis
      by (auto simp: Work_event_def u counts_alone_def gauge_Add_def gauge_Delete_def)
  qed (use assms in \<open>auto simp: Work_event_def counts_alone_def\<close>)
  then show "bw_activeConns (bs_worker s') = bw_activeConns (bs_worker s) + players [ev]"
    and "counts_alone s \<Longrightarrow> counts_alone s'" by auto
qed

lemma Work_run_counts:
  "Work_run env s evs s' \<Longrightarrow> counts_alone s \<Longrightarrow>
    bw_activeConns (bs_worker s') = bw_activeConns (bs_worker s) + players evs \<and> counts_alone s'"
  by (induction rule: Work_run.induct)
    (auto simp: players_append elim!: Work_stepE dest: Work_event_counts)

section \<open>Properties of the worker\<close>

text \<open>An environment in which every dial fails, for concrete runs.\<close>

definition plain_backend_env :: backend_env where
  "plain_backend_env = \<lparr>be_sign = (\<lambda>k bb. Ok bb),
    be_pp = \<lparr>pp_write = (\<lambda>src dst c. (Ok (), c)), pp_local = nc_addr\<rparr>\<rparr>"

definition dead_network :: network where
  "dead_network = \<lparr>nw_now = 0, nw_outcome = (\<lambda>k dl addr. Err ErrEOF), nw_delay = (\<lambda>k. 0),
    nw_dials = [], nw_left = []\<rparr>"



text \<open>
  The server in front of a backend worker does not look at the request.
\<close>

theorem backend_server_ignores_request:
  "sv_ConnAction (backend_server env) req s = sv_ConnAction (backend_server env) req' s \<and>
    sv_CreateConn (backend_server env) req s = sv_CreateConn (backend_server env) req' s"
  by (simp add: backend_server_def BackendServer_ConnAction_def BackendServer_CreateConn_def
      BackendServer_HandleRequest_def)



text \<open>
  An update replaces the modules the new configuration has and keeps the old RealIP modifier and
  status cache where it has none.
\<close>

theorem update_cannot_remove_modules:
  assumes "UpdateSameGoroutine (NewBackendConfig now cfg) (w, g) = (w', g')"
  shows "bw_HsModifier w' = (if bc_OldRealIp cfg then Some NewRealIP2_4
        else if bc_NewRealIP cfg then Some (NewRealIP2_5 (bc_RealIPKey cfg)) else bw_HsModifier w) \<and>
    bw_StatusCache w' = (if bc_CacheStatus cfg
      then bk_StatusCache (NewBackendConfig now cfg) else bw_StatusCache w) \<and>
    bw_SendProxyProtocol w' = bc_SendProxyProtocol cfg \<and>
    bw_ConnCreator w' = bk_ConnCreator (NewBackendConfig now cfg) \<and>
    bw_ConnLimiter w' = bk_ConnLimiter (NewBackendConfig now cfg) \<and>
    bw_ServerState w' = bk_ServerState (NewBackendConfig now cfg)"
  using assms by (auto simp: UpdateSameGoroutine_def NewBackendConfig_def Let_def set_if_def split: if_splits)

theorem update_cannot_remove_modules_witness:
  "\<exists>w g. UpdateSameGoroutine (NewBackendConfig 0 zero_BackendWorkerConfig)
      (NewEmptyBackendWorker\<lparr>bw_HsModifier := Some NewRealIP2_4\<rparr>, Map.empty) = (w, g) \<and>
    bw_HsModifier w = Some NewRealIP2_4"
proof -
  obtain w g where u: "UpdateSameGoroutine (NewBackendConfig 0 zero_BackendWorkerConfig)
      (NewEmptyBackendWorker\<lparr>bw_HsModifier := Some NewRealIP2_4\<rparr>, Map.empty) = (w, g)" by force
  with update_cannot_remove_modules [OF u] show ?thesis
    by (auto simp: zero_BackendWorkerConfig_def)
qed

end
