(* ===== verification/Wrk_Worker.thy ===== *)
theory Wrk_Worker
  imports Wrk_Backend
begin

text \<open>
  Connection workers (worker/worker.go): the goroutines that read the requests of the clients, look
  their server up and answer them, and the proxied sessions they start.
\<close>

section \<open>The worker\<close>

text \<open>
  A catalog is handed to a worker by value, but the map inside is shared with its owner. A worker
  begins with an empty catalog of its own; after the first update it holds the one of the worker
  manager, and sees every later change to it.
\<close>

datatype 's catalog_ref = OwnCatalog "'s BasicServerCatalog" | ManagerCatalog

primrec catalog_at :: "'s BasicServerCatalog \<Rightarrow> 's catalog_ref \<Rightarrow> 's BasicServerCatalog" where
  "catalog_at managers (OwnCatalog c) = c"
| "catalog_at managers ManagerCatalog = managers"

record 's BasicWorker =
  wk_closeAnswer :: BackendAnswer
  wk_ioTimeout :: duration
  wk_serverDict :: "'s catalog_ref"

definition NewWorker :: "(string \<Rightarrow> string) \<Rightarrow> WorkerConfig \<Rightarrow> 's BasicWorker" where
  "NewWorker uni cfg =
    (let defaultStatusPk = SimpleStatus_Marshal uni (wc_DefaultStatus cfg);
         closeAnswer = NewCloseAnswer\<lparr>ba_ServerName := ''unknown''\<rparr>;
         dict = NewEmptyServerCatalog defaultStatusPk empty_packet
     in \<lparr>wk_closeAnswer = closeAnswer, wk_ioTimeout = wc_IOTimeout cfg,
         wk_serverDict = OwnCatalog dict\<rparr>)"

definition IODeadline :: "gotime \<Rightarrow> 's BasicWorker \<Rightarrow> gotime" where
  "IODeadline now w = now + wk_ioTimeout w"

definition SetServers :: "'s catalog_ref \<Rightarrow> 's BasicWorker \<Rightarrow> 's BasicWorker" where
  "SetServers servers w = w\<lparr>wk_serverDict := servers\<rparr>"

section \<open>Requests\<close>

text \<open>\<open>ReadConnection\<close> has the body of \<open>ReadStuff\<close>, with the timeout of the worker.\<close>

definition ReadConnection ::
  "(string \<Rightarrow> string) \<Rightarrow> gotime \<Rightarrow> 's BasicWorker \<Rightarrow> net_conn \<Rightarrow> RequestData res \<times> net_conn" where
  "ReadConnection uni now bw conn =
    (let mcConn = NewMcConn conn;
         mcConn1 = mcConn\<lparr>br_conn := conn_SetDeadline (Some (IODeadline now bw)) (br_conn mcConn)\<rparr>
     in apsnd br_conn (read_request uni mcConn1))"

definition ProcessConnection ::
  "(string \<Rightarrow> string) \<Rightarrow> gotime \<Rightarrow> 'w server BasicServerCatalog \<Rightarrow> 'w server BasicWorker \<Rightarrow> net_conn \<Rightarrow> 'w \<Rightarrow>
    handled \<times> 'w" where
  "ProcessConnection uni now managers bw conn w =
    (case ReadConnection uni now bw conn of
       (Ok req, conn1) \<Rightarrow>
         (case catalog_Find uni (catalog_at managers (wk_serverDict bw)) (rq_ServerAddr req) of
            Ok server \<Rightarrow> ProcessServer now conn1 server req w
          | Err e \<Rightarrow> (returned (Err e) conn1, w)
          | Panic \<Rightarrow> (returned Panic conn1, w))
     | (Err e, conn1) \<Rightarrow> (returned (Err e) conn1, w)
     | (Panic, conn1) \<Rightarrow> (returned Panic conn1, w))"

text \<open>
  The reader that is not used yet: it goes on with what it has when the handshake or the second packet
  cannot be read. The connection inside the reader is the client's.
\<close>

definition maxHandshakeLength :: nat where
  "maxHandshakeLength = 264"

definition NotSafeYet_ProcessConnection :: "net_conn \<Rightarrow> RequestData res \<times> net_conn" where
  "NotSafeYet_ProcessConnection conn =
    apsnd br_conn
     (let b = bufio_NewReaderSize conn maxHandshakeLength in
      and_then (ReadPacket3_Handshake bufio_ReadByte b) (\<lambda>(handshake, err) b1.
        let t = RequestState (hs_NextState handshake) in
        if t = UnknownState then (Err ErrNotValidHandshake, b1)
        else
          let request = \<lparr>rq_Type = t, rq_Handshake = handshake,
                rq_ServerAddr = ParseServerAddress handshake,
                rq_Addr = Some (nc_addr (br_conn b1)), rq_Username = []\<rparr>;
              (x, b2) = ReadPacket3 bufio_ReadByte bufio_Read b1 in
          if x = Panic then (Panic, b2)
          else
            let packet = (case x of Ok pk \<Rightarrow> pk | _ \<Rightarrow> empty_packet) in
            if t = Login then
              (case UnmarshalServerBoundLoginStart packet of
                 Ok loginStart \<Rightarrow> (Ok (request\<lparr>rq_Username := ls_Name loginStart\<rparr>), b2)
               | Err e \<Rightarrow> (Ok (request\<lparr>rq_Username := []\<rparr>), b2)
               | Panic \<Rightarrow> (Panic, b2))
            else (Ok request, b2)))"

section \<open>Sessions\<close>

text \<open>
  The goroutine that proxies a connection for a backend worker tells it when the session begins and
  when its own direction, from the client to the server, has ended. \<open>ProxyConnection\<close> of this file is
  the pair of pipes of basic.go, one of them in the calling goroutine.
\<close>

datatype session_phase = Starting | Proxying | Done

record session_state =
  ss_phase :: session_phase
  ss_pipes :: proxy_state

definition start_session :: "net_conn \<Rightarrow> net_conn \<Rightarrow> session_state" where
  "start_session client serverConn =
    \<lparr>ss_phase = Starting, ss_pipes = start_pipes client serverConn\<rparr>"

text \<open>A step is labelled with the message it sends to the backend worker, if any.\<close>

inductive session_step :: "session_state \<Rightarrow> ProxyAction option \<Rightarrow> session_state \<Rightarrow> bool" where
  opens: "ss_phase s = Starting \<Longrightarrow> session_step s (Some ProxyOpen) (s\<lparr>ss_phase := Proxying\<rparr>)"
| copies: "ss_phase s \<noteq> Starting \<Longrightarrow> proxy_step (ss_pipes s) p \<Longrightarrow>
    session_step s None (s\<lparr>ss_pipes := p\<rparr>)"
| closes: "ss_phase s = Proxying \<Longrightarrow> px_up (ss_pipes s) = Finished \<Longrightarrow>
    session_step s (Some ProxyClose) (s\<lparr>ss_phase := Done\<rparr>)"

inductive session_run :: "session_state \<Rightarrow> ProxyAction list \<Rightarrow> session_state \<Rightarrow> bool" where
  session_nil: "session_run s [] s"
| session_silent: "session_run s as s1 \<Longrightarrow> session_step s1 None s2 \<Longrightarrow> session_run s as s2"
| session_send: "session_run s as s1 \<Longrightarrow> session_step s1 (Some a) s2 \<Longrightarrow> session_run s (as @ [a]) s2"

inductive_cases session_stepE: "session_step s a s'"

section \<open>Answers\<close>

text \<open>
  What becomes of the connection: its state when \<open>ProcessAnswer\<close> returns and the session that was
  started. The errors of writing packets are ignored by the code.
\<close>

definition ProcessAnswer ::
  "gotime \<Rightarrow> 's BasicWorker \<Rightarrow> net_conn \<Rightarrow> BackendAnswer \<Rightarrow> network \<Rightarrow>
    (net_conn \<times> session_state option) res \<times> network" where
  "ProcessAnswer now bw conn ans n =
    (let clientMcConn = NewMcConn conn in
     case ba_action ans of
       Proxy \<Rightarrow>
         (case answer_ServerConn ans n of
            (Ok sConn, n1) \<Rightarrow>
              (let mcServerConn = NewMcConn sConn;
                   m1 = snd (mcConn_WritePacket (ba_firstPacket ans) mcServerConn);
                   m2 = snd (mcConn_WritePacket (ba_secondPacket ans) m1)
               in (Ok (conn, Some (start_session conn (br_conn m2))), n1))
          | (Err e, n1) \<Rightarrow> (Ok (conn_Close conn, None), n1)
          | (Panic, n1) \<Rightarrow> (Panic, n1))
     | Disconnect \<Rightarrow>
         (Ok (conn_Close (br_conn (snd (mcConn_WritePacket (ba_firstPacket ans) clientMcConn))), None), n)
     | SendStatus \<Rightarrow>
         (let m1 = snd (mcConn_WritePacket (ba_firstPacket ans) clientMcConn);
              m2 = m1\<lparr>br_conn := conn_SetDeadline (Some (IODeadline now bw)) (br_conn m1)\<rparr>
          in case mcConn_ReadPacket m2 of
               (Ok pingPacket, m3) \<Rightarrow>
                 (Ok (conn_Close (br_conn (snd (mcConn_WritePacket pingPacket m3))), None), n)
             | (Err e, m3) \<Rightarrow> (Ok (conn_Close (br_conn m3), None), n)
             | (Panic, m3) \<Rightarrow> (Panic, n))
     | Close \<Rightarrow> (Ok (conn_Close conn, None), n)
     | Error \<Rightarrow> (Ok (conn, None), n))"

section \<open>The goroutine\<close>

text \<open>
  The channels of a worker as events. An error of a connection is only logged; a panic ends the
  process. \<open>closeCh\<close> ends the loop.
\<close>

datatype worker_event = WkConn net_conn | WkUpdate | WkClose

record 'w worker_state =
  wks_worker :: "'w server BasicWorker"
  wks_world :: 'w
  wks_handled :: "handled list"
  wks_running :: bool

definition Worker_event ::
  "(string \<Rightarrow> string) \<Rightarrow> gotime \<Rightarrow> 'w server BasicServerCatalog \<Rightarrow> worker_event \<Rightarrow> 'w worker_state \<Rightarrow>
    'w worker_state res" where
  "Worker_event uni now managers ev s =
    (case ev of
       WkConn conn \<Rightarrow>
         (let (h, w) = ProcessConnection uni now managers (wks_worker s) conn (wks_world s) in
          if hd_err h = Panic then Panic
          else Ok (s\<lparr>wks_world := w, wks_handled := wks_handled s @ [h]\<rparr>))
     | WkUpdate \<Rightarrow> Ok (s\<lparr>wks_worker := SetServers ManagerCatalog (wks_worker s)\<rparr>)
     | WkClose \<Rightarrow> Ok (s\<lparr>wks_running := False\<rparr>))"

section \<open>Facts about workers and sessions\<close>

lemma ReadConnection_eq:
  "ReadConnection uni now bw c =
    apsnd br_conn (read_request uni (NewMcConn (conn_SetDeadline (Some (IODeadline now bw)) c)))"
  by (simp add: ReadConnection_def Let_def NewMcConn_def bufio_NewReader_def)

lemma ReadConnection_frame:
  "nc_closed (snd (ReadConnection uni now bw c)) = nc_closed c \<and>
   nc_out (snd (ReadConnection uni now bw c)) = nc_out c"
  using write_side_read_request [of uni "NewMcConn (conn_SetDeadline (Some (IODeadline now bw)) c)"]
  by (simp add: ReadConnection_eq write_side_def NewMcConn_def bufio_NewReader_def)

lemma ReadConnection_login:
  assumes "nc_in c = segs1 @ segs2" and "[] \<notin> set (nc_in c)"
    and "concat segs1 = Packet_Marshal (Handshake_Marshal hs) @
      Packet_Marshal (ServerLoginStart_Marshal \<lparr>ls_Name = name\<rparr>)"
    and "length (hs_ServerAddress hs) < 2 ^ 31 - 20" and "length name < 2 ^ 31 - 10"
    and "version_ok (hs_ProtocolVersion hs)" and "hs_NextState hs = 2"
  shows "ReadConnection uni now bw c =
    (Ok \<lparr>rq_Type = Login, rq_Handshake = hs, rq_ServerAddr = ToLower uni (ParseServerAddress hs),
       rq_Addr = Some (nc_addr c), rq_Username = name\<rparr>,
     c\<lparr>nc_in := segs2, nc_deadline := None\<rparr>)"
proof -
  have "RequestState (hs_NextState hs) = Login" using assms(7) by (simp add: RequestState_def)
  then show ?thesis
    using read_request_two_packets [of "conn_SetDeadline (Some (IODeadline now bw)) c" segs1 segs2
        hs "ServerLoginStart_Marshal \<lparr>ls_Name = name\<rparr>" uni] assms length_LoginStart [OF assms(5)]
      UnmarshalServerBoundLoginStart_Marshal [of name]
    by (simp add: ReadConnection_eq Let_def)
qed

text \<open>The pipes of a session run as the pipes of \<open>basic.go\<close> do.\<close>

lemma session_run_pipes:
  "session_run (start_session client server) as s \<Longrightarrow>
    proxy_step\<^sup>*\<^sup>* (start_pipes client server) (ss_pipes s)"
proof (induction "start_session client server" as s rule: session_run.induct)
  case session_nil
  then show ?case by (simp add: start_session_def)
next
  case (session_silent as s1 s2)
  from session_silent(3) session_silent(2) show ?case
    by (elim session_stepE) (auto intro: rtranclp.rtrancl_into_rtrancl)
next
  case (session_send as s1 a s2)
  from session_send(3) session_send(2) show ?case by (elim session_stepE) auto
qed

lemma session_run_phase:
  "session_run (start_session client server) as s \<Longrightarrow>
    as = (case ss_phase s of Starting \<Rightarrow> [] | Proxying \<Rightarrow> [ProxyOpen] | Done \<Rightarrow> [ProxyOpen, ProxyClose]) \<and>
    (ss_phase s = Done \<longrightarrow> px_up (ss_pipes s) = Finished)"
proof (induction "start_session client server" as s rule: session_run.induct)
  case session_nil
  then show ?case by (simp add: start_session_def)
next
  case (session_silent as s1 s2)
  from session_silent(3) session_silent(2) show ?case
    by (elim session_stepE) (auto elim!: proxy_stepE pipe_stepE split: session_phase.splits)
next
  case (session_send as s1 a s2)
  from session_send(3) session_send(2) show ?case by (elim session_stepE) auto
qed

text \<open>An answer of a backend that is reachable and lets a login pass.\<close>

definition passes :: "BackendWorker \<Rightarrow> bool" where
  "passes w \<longleftrightarrow> bw_ServerState w = Some AlwaysOnlineState \<and>
    bw_ConnLimiter w = Some AlwaysAllowConnection \<and> bw_HsModifier w = None \<and>
    \<not> bw_SendProxyProtocol w"

lemma HandleRequest_passes:
  assumes "passes w" and "bw_ConnCreator w = Some creator" and "rq_Type req = Login"
  shows "HandleRequest env req (w, n) =
    (Ok (NewProxyAnswer (Handshake_Marshal (rq_Handshake req))
      (ServerLoginStart_Marshal \<lparr>ls_Name = rq_Username req\<rparr>) creator), w, n)"
proof -
  have "w\<lparr>bw_ServerState := Some AlwaysOnlineState\<rparr> = w"
    "w\<lparr>bw_ConnLimiter := Some AlwaysAllowConnection\<rparr> = w"
    using assms(1) by (cases w; simp add: passes_def)+
  then show ?thesis
    using assms by (simp add: HandleRequest_def handle_defs passes_def second_packet_def always_Allow_def
        creator_Conn_def Let_def)
qed

lemma ProcessAnswer_proxy:
  assumes "creator n = (Ok server, n1)" and "\<not> nc_closed server" and "nc_werr server = None"
  shows "ProcessAnswer now bw c (NewProxyAnswer p1 p2 creator) n =
    (Ok (c, Some (start_session c
       (server\<lparr>nc_out := nc_out server @ Packet_Marshal p1 @ Packet_Marshal p2\<rparr>))), n1)"
  using assms
  by (simp add: ProcessAnswer_def NewProxyAnswer_def answer_ServerConn_def WritePacket_ok NewMcConn_def
      bufio_NewReader_def Let_def)

section \<open>Properties of the workers\<close>

text \<open>A connection on which these segments arrive, for concrete runs.\<close>

definition fresh_conn :: "byte list list \<Rightarrow> net_conn" where
  "fresh_conn segs = \<lparr>nc_in = segs, nc_end = ErrEOF, nc_out = [], nc_werr = None, nc_closed = False,
    nc_deadline = None, nc_addr = ''c''\<rparr>"

lemma fresh_conn_simps [simp]:
  "nc_in (fresh_conn segs) = segs" "nc_out (fresh_conn segs) = []" "\<not> nc_closed (fresh_conn segs)"
  "nc_werr (fresh_conn segs) = None" "conn_ok (fresh_conn segs) \<longleftrightarrow> [] \<notin> set segs"
  by (simp_all add: fresh_conn_def conn_ok_def)





text \<open>
  A worker does not answer a client that asks for an unknown host, and does not close it.
\<close>

theorem worker_unknown_host_left_open:
  assumes "ReadConnection uni now bw c = (Ok req, c1)"
    and "catalog_Find uni (catalog_at managers (wk_serverDict bw)) (rq_ServerAddr req) = Err e"
  shows "ProcessConnection uni now managers bw c w = (returned (Err e) c1, w) \<and>
    nc_closed c1 = nc_closed c \<and> nc_out c1 = nc_out c"
  using assms ReadConnection_frame [of uni now bw c] by (simp add: ProcessConnection_def)

theorem worker_unknown_host_left_open_witness:
  "\<exists>c1. ProcessConnection (\<lambda>s. s) 0 (NewEmptyServerCatalog empty_packet empty_packet)
      (NewWorker (\<lambda>s. s) DefaultWorkerConfig :: unit server BasicWorker)
      (fresh_conn [[7, 0, 47], [1, 97, 99, 221, 2, 3], [0, 1, 98]]) () =
    (returned (Err ErrNoServerFound) c1, ()) \<and> \<not> nc_closed c1 \<and> nc_out c1 = []"
proof -
  let ?c = "fresh_conn [[7, 0, 47], [1, 97, 99, 221, 2, 3], [0, 1, 98]]"
  have r: "ReadConnection (\<lambda>s. s) 0 bw ?c = (Ok \<lparr>rq_Type = Login,
      rq_Handshake = \<lparr>hs_ProtocolVersion = 47, hs_ServerAddress = ''a'', hs_ServerPort = 25565, hs_NextState = 2\<rparr>,
      rq_ServerAddr = ToLower (\<lambda>s. s) (ParseServerAddress \<lparr>hs_ProtocolVersion = 47, hs_ServerAddress = ''a'', hs_ServerPort = 25565, hs_NextState = 2\<rparr>),
      rq_Addr = Some (nc_addr ?c), rq_Username = ''b''\<rparr>, ?c\<lparr>nc_in := [], nc_deadline := None\<rparr>)" for bw
    by (rule ReadConnection_login [of _ "[[7, 0, 47], [1, 97, 99, 221, 2, 3], [0, 1, 98]]"])
      (simp_all add: login_bytes version_ok_def)
  show ?thesis
    using worker_unknown_host_left_open [OF r, of "NewEmptyServerCatalog empty_packet empty_packet"
        "NewWorker (\<lambda>s. s) DefaultWorkerConfig" ErrNoServerFound "()"]
    by (intro exI [of _ "?c\<lparr>nc_in := [], nc_deadline := None\<rparr>"])
      (simp add: catalog_Find_def NewWorker_def NewEmptyServerCatalog_def)
qed

text \<open>
  A client that is given to ProcessAnswer is closed unless it is proxied or the answer is an error.
\<close>

theorem ProcessAnswer_closes_client:
  assumes "ProcessAnswer now bw c ans n = (Ok (c', session), n')"
  shows "nc_closed c' \<or> c' = c \<and> (ba_action ans = Error \<or> session \<noteq> None)"
  using assms
  by (auto simp: ProcessAnswer_def Let_def conn_Close_def split: BackendAction.splits res.splits prod.splits)

theorem ProcessAnswer_closes_client_witness:
  "nc_closed (conn_Close (fresh_conn []))"
proof -
  have "ProcessAnswer 0 (NewWorker (\<lambda>s. s) DefaultWorkerConfig :: backend_state server BasicWorker)
      (fresh_conn []) NewCloseAnswer dead_network = (Ok (conn_Close (fresh_conn []), None), dead_network)"
    by (simp add: ProcessAnswer_def NewCloseAnswer_def)
  from ProcessAnswer_closes_client [OF this] show ?thesis
    by (simp add: NewCloseAnswer_def conn_Close_def)
qed

text \<open>
  A status answer writes the status packet, echoes the client's ping and closes the connection.
\<close>

theorem worker_status_exchange:
  assumes "conn_ok c" and "\<not> nc_closed c" and "nc_werr c = None" and "ba_action ans = SendStatus"
    and "concat (nc_in c) = Packet_Marshal ping @ rest" and "length (pk_Data ping) < 2 ^ 31 - 1"
  shows "\<exists>c'. ProcessAnswer now bw c ans n = (Ok (c', None), n) \<and> nc_closed c' \<and>
    nc_out c' = nc_out c @ Packet_Marshal (ba_firstPacket ans) @ Packet_Marshal ping"
proof -
  let ?c1 = "c\<lparr>nc_out := nc_out c @ Packet_Marshal (ba_firstPacket ans)\<rparr>"
  let ?m = "(bufio_NewReader c)\<lparr>br_conn := conn_SetDeadline (Some (IODeadline now bw)) ?c1\<rparr>"
  have "bufio_ok ?m" "s_bytes (bufio_stream ?m) = Packet_Marshal ping @ rest"
    using assms(1,5) by (simp_all add: bufio_ok_def conn_ok_def bufio_NewReader_def bufio_stream_def)
  from mcConn_ReadPacket_Marshal [OF this assms(6)] obtain m' where
    r: "mcConn_ReadPacket ?m = (Ok ping, m')" and f: "bufio_frame m' = bufio_frame ?m" by blast
  from f assms(2,3) have "nc_out (br_conn m') = nc_out c @ Packet_Marshal (ba_firstPacket ans)"
    "\<not> nc_closed (br_conn m')" "nc_werr (br_conn m') = None"
    by (simp_all add: bufio_frame_def Let_def)
  with r assms(2-4) show ?thesis
    by (simp add: ProcessAnswer_def Let_def WritePacket_ok NewMcConn_def bufio_NewReader_def conn_Close_def)
qed

theorem worker_status_exchange_witness:
  "\<exists>c'. ProcessAnswer 0 (NewWorker (\<lambda>s. s) DefaultWorkerConfig :: backend_state server BasicWorker)
      (fresh_conn [[2], [1, 7]]) (NewStatusAnswer \<lparr>pk_ID = 0, pk_Data = [9]\<rparr>) dead_network =
      (Ok (c', None), dead_network) \<and> nc_closed c' \<and> nc_out c' = [2, 0, 9, 2, 1, 7]"
proof -
  have "Packet_Marshal \<lparr>pk_ID = 0, pk_Data = [9]\<rparr> = [2, 0, 9]" "Packet_Marshal \<lparr>pk_ID = 1, pk_Data = [7]\<rparr> = [2, 1, 7]"
    by (simp_all add: Packet_Marshal_def VarInt_Encode.simps Let_def)
  with worker_status_exchange [of "fresh_conn [[2], [1, 7]]" "NewStatusAnswer \<lparr>pk_ID = 0, pk_Data = [9]\<rparr>"
      "\<lparr>pk_ID = 1, pk_Data = [7]\<rparr>" "[]" 0
      "NewWorker (\<lambda>s. s) DefaultWorkerConfig :: backend_state server BasicWorker" dead_network]
  show ?thesis by (auto simp: NewStatusAnswer_def)
qed

end
