(* ===== verification/Wrk_Manager.thy ===== *)
theory Wrk_Manager
  imports Wrk_Worker
begin

text \<open>
  The managers of the worker mode (worker/worker_manager.go, worker/backend_manager.go): the catalog
  all connection workers share, and the backends that are started, updated and closed when the
  configuration is read again.
\<close>

section \<open>The worker manager\<close>

text \<open>
  \<open>domains\<close> is the catalog, \<open>workers\<close> the running workers that are registered. \<open>Update\<close> of a worker sends
  it the catalog, which the worker stores.
\<close>

record 's workerManager =
  wm_domains :: "'s BasicServerCatalog"
  wm_workers :: "'s BasicWorker list"

definition NewWorkerManager :: "'s workerManager" where
  "NewWorkerManager =
    \<lparr>wm_domains = NewEmptyServerCatalog empty_packet empty_packet, wm_workers = []\<rparr>"

definition workerManager_update :: "'s workerManager \<Rightarrow> 's workerManager" where
  "workerManager_update manager =
    manager\<lparr>wm_workers := map (SetServers ManagerCatalog) (wm_workers manager)\<rparr>"

definition Register :: "'s BasicWorker \<Rightarrow> bool \<Rightarrow> 's workerManager \<Rightarrow> 's workerManager" where
  "Register wrk update manager =
    manager\<lparr>wm_workers := wm_workers manager @ [if update then SetServers ManagerCatalog wrk else wrk]\<rparr>"

text \<open>The loop over the domains of \<open>AddBackend\<close> is the one of \<open>ReloadServerCatalog\<close>.\<close>

definition AddBackend :: "string list \<Rightarrow> 's \<Rightarrow> 's workerManager \<Rightarrow> 's workerManager" where
  "AddBackend domains server manager =
    workerManager_update (manager\<lparr>wm_domains := (wm_domains manager)
      \<lparr>sc_ServerDict := register_domains domains server (sc_ServerDict (wm_domains manager))\<rparr>\<rparr>)"

fun delete_domains :: "string list \<Rightarrow> (string \<rightharpoonup> 'v) \<Rightarrow> (string \<rightharpoonup> 'v)" where
  "delete_domains [] m = m"
| "delete_domains (domain # ds) m = delete_domains ds (m(domain := None))"

definition RemoveBackend :: "string list \<Rightarrow> 's workerManager \<Rightarrow> 's workerManager" where
  "RemoveBackend domains manager =
    workerManager_update (manager\<lparr>wm_domains := (wm_domains manager)
      \<lparr>sc_ServerDict := delete_domains domains (sc_ServerDict (wm_domains manager))\<rparr>\<rparr>)"

definition KnowsDomain :: "(string \<Rightarrow> string) \<Rightarrow> string \<Rightarrow> 's workerManager \<Rightarrow> bool" where
  "KnowsDomain uni domain manager \<longleftrightarrow> is_ok (catalog_Find uni (wm_domains manager) domain)"

text \<open>\<open>Start\<close> of the worker manager runs \<open>NumberOfWorkers\<close> new workers; none for a negative number.\<close>

definition workerManager_Start ::
  "(string \<Rightarrow> string) \<Rightarrow> UltravioletConfig res \<Rightarrow> 's workerManager \<Rightarrow> unit res \<times> 's workerManager" where
  "workerManager_Start uni cfgReader manager =
    (case cfgReader of
       Ok cfg \<Rightarrow>
         (let workerCfg = NewWorkerConfig cfg
          in (Ok (), ((Register (NewWorker uni workerCfg) True) ^^ nat (uc_NumberOfWorkers cfg)) manager))
     | Err e \<Rightarrow> (Err e, manager)
     | Panic \<Rightarrow> (Panic, manager))"

section \<open>Backends\<close>

text \<open>
  The interface \<open>Backend\<close> and the factory, which the manager is given: \<open>'b\<close> are the backends, \<open>'w\<close> is
  the state of the goroutines behind them and of the clock.
\<close>

record ('b, 's, 'w) backend_ops =
  bo_factory :: "BackendWorkerConfig \<Rightarrow> 'w \<Rightarrow> 'b \<times> 'w"
  bo_Server :: "'b \<Rightarrow> 's"
  bo_Update :: "'b \<Rightarrow> BackendConfig \<Rightarrow> 'w \<Rightarrow> 'w"
  bo_Close :: "'b \<Rightarrow> 'w \<Rightarrow> 'w"
  bo_HasActiveConn :: "'b \<Rightarrow> 'w \<Rightarrow> bool"
  bo_now :: "'w \<Rightarrow> gotime"

text \<open>
  The goroutines of all backend workers that were ever started, with the network and the gauge they
  share. A backend is its position in the list; it runs until it is closed.
\<close>

record worker_world =
  ww_backends :: "(BackendWorker \<times> bool) list"
  ww_net :: network
  ww_gauge :: gauge

definition worker_runs :: "worker_world \<Rightarrow> nat \<Rightarrow> bool" where
  "worker_runs W h \<longleftrightarrow> h < length (ww_backends W) \<and> snd (ww_backends W ! h)"

definition backend_at :: "nat \<Rightarrow> worker_world \<Rightarrow> backend_state" where
  "backend_at h W = \<lparr>bs_worker = fst (ww_backends W ! h), bs_net = ww_net W, bs_gauge = ww_gauge W,
    bs_open = worker_runs W h\<rparr>"

definition put_backend :: "nat \<Rightarrow> backend_state \<Rightarrow> worker_world \<Rightarrow> worker_world" where
  "put_backend h s W = W\<lparr>ww_backends := (ww_backends W)[h := (bs_worker s, bs_open s)],
    ww_net := bs_net s, ww_gauge := bs_gauge s\<rparr>"

definition on_backend :: "(backend_state \<Rightarrow> 'a \<times> backend_state) \<Rightarrow> nat \<Rightarrow> worker_world \<Rightarrow> 'a \<times> worker_world" where
  "on_backend f h W = (case f (backend_at h W) of (x, s) \<Rightarrow> (x, put_backend h s W))"

definition BackendWorker_Server :: "backend_env \<Rightarrow> nat \<Rightarrow> worker_world server" where
  "BackendWorker_Server env h =
    \<lparr>sv_ConnAction = (\<lambda>req. on_backend (BackendServer_ConnAction env req) h),
     sv_CreateConn = (\<lambda>req. on_backend (BackendServer_CreateConn env req) h),
     sv_Status = on_backend (BackendServer_Status env) h\<rparr>"

definition BackendFactory :: "BackendWorkerConfig \<Rightarrow> worker_world \<Rightarrow> nat \<times> worker_world" where
  "BackendFactory cfg W =
    (case NewBackendWorker (nw_now (ww_net W)) cfg (ww_gauge W) of
       (backendwrk, g) \<Rightarrow>
         (length (ww_backends W), W\<lparr>ww_backends := ww_backends W @ [(backendwrk, True)], ww_gauge := g\<rparr>))"

text \<open>
  \<open>Update\<close> and \<open>Close\<close> send to the goroutine, and would wait for ever for one that has stopped. The
  manager never does this: its backends run.
\<close>

definition BackendWorker_send :: "backend_env \<Rightarrow> backend_event \<Rightarrow> nat \<Rightarrow> worker_world \<Rightarrow> worker_world" where
  "BackendWorker_send env ev h W = (if worker_runs W h then snd (on_backend (Work_event env ev) h W) else W)"

definition BackendWorker_HasActiveConn :: "nat \<Rightarrow> worker_world \<Rightarrow> bool" where
  "BackendWorker_HasActiveConn h W \<longleftrightarrow> 0 < bw_activeConns (fst (ww_backends W ! h))"

definition worker_ops :: "backend_env \<Rightarrow> (nat, worker_world server, worker_world) backend_ops" where
  "worker_ops env =
    \<lparr>bo_factory = BackendFactory, bo_Server = BackendWorker_Server env,
     bo_Update = (\<lambda>h cfg. BackendWorker_send env (EvUpdate cfg) h),
     bo_Close = BackendWorker_send env EvClose, bo_HasActiveConn = BackendWorker_HasActiveConn,
     bo_now = (\<lambda>W. nw_now (ww_net W))\<rparr>"

record ('b, 's, 'f, 'w) BackendManager =
  bm_backends :: "string \<rightharpoonup> 'b"
  bm_domains :: "string \<rightharpoonup> string"
  bm_cfgs :: "string \<rightharpoonup> ServerConfig"
  bm_workerManager :: "'s workerManager"
  bm_files :: 'f
  bm_world :: 'w

text \<open>
  \<open>cfg, _ := config.ServerToBackendConfig(cfg)\<close>: with an error the configuration is the zero value. The
  conversion may generate a key, so it works on the files.
\<close>

definition backend_config ::
  "(string \<Rightarrow> string) \<Rightarrow> 'f os_env \<Rightarrow> ServerConfig \<Rightarrow> ('b, 's, 'f, 'w) BackendManager \<Rightarrow>
    BackendWorkerConfig res \<times> ('b, 's, 'f, 'w) BackendManager" where
  "backend_config uni env cfg m =
    (case ServerToBackendConfig uni env cfg (bm_files m) of
       (Ok c, f) \<Rightarrow> (Ok c, m\<lparr>bm_files := f\<rparr>)
     | (Err e, f) \<Rightarrow> (Ok zero_BackendWorkerConfig, m\<lparr>bm_files := f\<rparr>)
     | (Panic, f) \<Rightarrow> (Panic, m\<lparr>bm_files := f\<rparr>))"

definition addConfig ::
  "('b, 's, 'w) backend_ops \<Rightarrow> (string \<Rightarrow> string) \<Rightarrow> 'f os_env \<Rightarrow> ServerConfig \<Rightarrow>
    ('b, 's, 'f, 'w) BackendManager \<Rightarrow> unit res \<times> ('b, 's, 'f, 'w) BackendManager" where
  "addConfig ops uni env cfg m =
    (let m1 = m\<lparr>bm_cfgs := (bm_cfgs m)(ServerConfig_ID cfg \<mapsto> cfg),
               bm_domains := register_domains (sf_Domains cfg) (ServerConfig_ID cfg) (bm_domains m)\<rparr>
     in and_then (backend_config uni env cfg m1) (\<lambda>bwCfg m2.
          let (backend, w) = bo_factory ops bwCfg (bm_world m2);
              m3 = m2\<lparr>bm_world := w, bm_backends := (bm_backends m2)(ServerConfig_ID cfg \<mapsto> backend)\<rparr>
          in (Ok (), m3\<lparr>bm_workerManager :=
                AddBackend (sf_Domains cfg) (bo_Server ops backend) (bm_workerManager m3)\<rparr>)))"

definition removeConfig ::
  "('b, 's, 'w) backend_ops \<Rightarrow> ServerConfig \<Rightarrow>
    ('b, 's, 'f, 'w) BackendManager \<Rightarrow> ('b, 's, 'f, 'w) BackendManager" where
  "removeConfig ops cfg m =
    (case bm_backends m (ServerConfig_ID cfg) of
       None \<Rightarrow> m
     | Some server \<Rightarrow>
         m\<lparr>bm_cfgs := (bm_cfgs m)(ServerConfig_ID cfg := None),
           bm_domains := delete_domains (sf_Domains cfg) (bm_domains m),
           bm_workerManager := RemoveBackend (sf_Domains cfg) (bm_workerManager m),
           bm_world := bo_Close ops server (bm_world m),
           bm_backends := (bm_backends m)(ServerConfig_ID cfg := None)\<rparr>)"

text \<open>
  Go iterates over a map in an arbitrary order, which is a parameter here: \<open>domainOrder\<close> lists the keys
  of \<open>domainStatus\<close>. A missing old configuration is the zero value, a missing backend is nil, and
  calling a method of it panics.
\<close>

definition domain_status :: "ServerConfig \<Rightarrow> ServerConfig \<Rightarrow> string \<Rightarrow> nat" where
  "domain_status cfg oldCfg domain =
    count_list (sf_Domains cfg) domain + 2 * count_list (sf_Domains oldCfg) domain"

definition updateConfig ::
  "('b, 's, 'w) backend_ops \<Rightarrow> (string \<Rightarrow> string) \<Rightarrow> 'f os_env \<Rightarrow> string list \<Rightarrow> ServerConfig \<Rightarrow>
    ('b, 's, 'f, 'w) BackendManager \<Rightarrow> unit res \<times> ('b, 's, 'f, 'w) BackendManager" where
  "updateConfig ops uni env domainOrder cfg m =
    (let oldCfg = (case bm_cfgs m (ServerConfig_ID cfg) of None \<Rightarrow> zero_ServerConfig | Some c \<Rightarrow> c) in
     if cfg = oldCfg then (Ok (), m)
     else
       let addedDomains = filter (\<lambda>key. domain_status cfg oldCfg key = 1) domainOrder;
           removedDomains = filter (\<lambda>key. domain_status cfg oldCfg key = 2) domainOrder;
           m1 = m\<lparr>bm_domains := delete_domains removedDomains
                  (register_domains addedDomains (ServerConfig_ID cfg) (bm_domains m))\<rparr> in
       (case bm_backends m1 (ServerConfig_ID cfg) of
          None \<Rightarrow> (Panic, m1)
        | Some b \<Rightarrow>
            let m2 = m1\<lparr>bm_workerManager := RemoveBackend removedDomains
                  (AddBackend addedDomains (bo_Server ops b) (bm_workerManager m1))\<rparr>
            in and_then (backend_config uni env cfg m2) (\<lambda>backendWorkerCfg m3.
                 let backendConfig = NewBackendConfig (bo_now ops (bm_world m3)) backendWorkerCfg
                 in (Ok (), m3\<lparr>bm_world := bo_Update ops b backendConfig (bm_world m3)\<rparr>))))"

section \<open>Reloading\<close>

text \<open>
  The orders in which Go visits the maps of \<open>loadAllConfigs\<close>: the old configurations, the new ones, and
  the domains of an updated one.
\<close>

record visit =
  vi_old :: "string list"
  vi_new :: "string list"
  vi_domains :: "ServerConfig \<Rightarrow> string list"

fun each_res :: "('a \<Rightarrow> 'm \<Rightarrow> unit res \<times> 'm) \<Rightarrow> 'a list \<Rightarrow> 'm \<Rightarrow> unit res \<times> 'm" where
  "each_res f [] m = (Ok (), m)"
| "each_res f (x # xs) m = and_then (f x m) (\<lambda>_ m1. each_res f xs m1)"

definition cfgs_by_id :: "ServerConfig list \<Rightarrow> string \<rightharpoonup> ServerConfig" where
  "cfgs_by_id cfgs = foldl (\<lambda>m cfg. m(ServerConfig_ID cfg \<mapsto> cfg)) Map.empty cfgs"

definition remove_if_gone ::
  "('b, 's, 'w) backend_ops \<Rightarrow> (string \<rightharpoonup> ServerConfig) \<Rightarrow> string \<Rightarrow>
    ('b, 's, 'f, 'w) BackendManager \<Rightarrow> ('b, 's, 'f, 'w) BackendManager" where
  "remove_if_gone ops newCfgs id' m =
    (case bm_cfgs m id' of
       None \<Rightarrow> m
     | Some oldCfg \<Rightarrow> if newCfgs id' = None then removeConfig ops oldCfg m else m)"

definition add_or_update ::
  "('b, 's, 'w) backend_ops \<Rightarrow> (string \<Rightarrow> string) \<Rightarrow> 'f os_env \<Rightarrow> (ServerConfig \<Rightarrow> string list) \<Rightarrow>
    (string \<rightharpoonup> ServerConfig) \<Rightarrow> string \<Rightarrow>
    ('b, 's, 'f, 'w) BackendManager \<Rightarrow> unit res \<times> ('b, 's, 'f, 'w) BackendManager" where
  "add_or_update ops uni env domainOrder newCfgs id' m =
    (case newCfgs id' of
       None \<Rightarrow> (Ok (), m)
     | Some newCfg \<Rightarrow>
         if bm_cfgs m id' = None then addConfig ops uni env newCfg m
         else updateConfig ops uni env (domainOrder newCfg) newCfg m)"

definition loadAllConfigs ::
  "('b, 's, 'w) backend_ops \<Rightarrow> (string \<Rightarrow> string) \<Rightarrow> 'f os_env \<Rightarrow> visit \<Rightarrow> ServerConfig list \<Rightarrow>
    ('b, 's, 'f, 'w) BackendManager \<Rightarrow> unit res \<times> ('b, 's, 'f, 'w) BackendManager" where
  "loadAllConfigs ops uni env v cfgs m =
    (let newCfgs = cfgs_by_id cfgs
     in each_res (add_or_update ops uni env (vi_domains v) newCfgs) (vi_new v)
          (fold (remove_if_gone ops newCfgs) (vi_old v) m))"

text \<open>Every configuration is converted once before, to find the errors.\<close>

definition check_config ::
  "(string \<Rightarrow> string) \<Rightarrow> 'f os_env \<Rightarrow> ServerConfig \<Rightarrow>
    ('b, 's, 'f, 'w) BackendManager \<Rightarrow> unit res \<times> ('b, 's, 'f, 'w) BackendManager" where
  "check_config uni env cfg m =
    (case ServerToBackendConfig uni env cfg (bm_files m) of
       (Ok c, f) \<Rightarrow> (Ok (), m\<lparr>bm_files := f\<rparr>)
     | (Err e, f) \<Rightarrow> (Err e, m\<lparr>bm_files := f\<rparr>)
     | (Panic, f) \<Rightarrow> (Panic, m\<lparr>bm_files := f\<rparr>))"

definition BackendManager_Update ::
  "('b, 's, 'w) backend_ops \<Rightarrow> (string \<Rightarrow> string) \<Rightarrow> 'f os_env \<Rightarrow> visit \<Rightarrow> ('f \<Rightarrow> ServerConfig list res) \<Rightarrow>
    ('b, 's, 'f, 'w) BackendManager \<Rightarrow> unit res \<times> ('b, 's, 'f, 'w) BackendManager" where
  "BackendManager_Update ops uni env v configReader m =
    and_then (configReader (bm_files m), m) (\<lambda>newCfgs m1.
    and_then (each_res (check_config uni env) newCfgs m1) (\<lambda>_ m2.
      if dom (bm_cfgs m2) = {} then each_res (addConfig ops uni env) newCfgs m2
      else loadAllConfigs ops uni env v newCfgs m2))"

definition NewBackendManager ::
  "('b, 's, 'w) backend_ops \<Rightarrow> (string \<Rightarrow> string) \<Rightarrow> 'f os_env \<Rightarrow> visit \<Rightarrow> ('f \<Rightarrow> ServerConfig list res) \<Rightarrow>
    's workerManager \<Rightarrow> 'f \<Rightarrow> 'w \<Rightarrow> unit res \<times> ('b, 's, 'f, 'w) BackendManager" where
  "NewBackendManager ops uni env v cfgReader manager f w =
    BackendManager_Update ops uni env v cfgReader
      \<lparr>bm_backends = Map.empty, bm_domains = Map.empty, bm_cfgs = Map.empty,
       bm_workerManager = manager, bm_files = f, bm_world = w\<rparr>"

text \<open>\<open>backendOrder\<close> lists the keys of \<open>backends\<close>.\<close>

definition CheckActiveConnections ::
  "('b, 's, 'w) backend_ops \<Rightarrow> string list \<Rightarrow> ('b, 's, 'f, 'w) BackendManager \<Rightarrow> bool" where
  "CheckActiveConnections ops backendOrder m \<longleftrightarrow>
    list_ex (\<lambda>id'. case bm_backends m id' of None \<Rightarrow> False
      | Some bw \<Rightarrow> bo_HasActiveConn ops bw (bm_world m)) backendOrder"

section \<open>Facts about the loops\<close>

lemma delete_domains_apply: "delete_domains ds m d = (if d \<in> set ds then None else m d)"
  by (induction ds arbitrary: m) auto

lemmas domains_apply = register_domains_apply delete_domains_apply

lemma cfgs_by_id_snoc: "cfgs_by_id (cfgs @ [c]) = (cfgs_by_id cfgs)(ServerConfig_ID c \<mapsto> c)"
  by (simp add: cfgs_by_id_def)

lemma cfgs_by_id_Some: "cfgs_by_id cfgs i = Some c \<Longrightarrow> c \<in> set cfgs \<and> ServerConfig_ID c = i"
  by (induction cfgs rule: rev_induct) (auto simp: cfgs_by_id_snoc cfgs_by_id_def split: if_splits)

lemma dom_cfgs_by_id: "dom (cfgs_by_id cfgs) = ServerConfig_ID ` set cfgs"
  by (induction cfgs rule: rev_induct) (auto simp: cfgs_by_id_snoc, auto simp: cfgs_by_id_def)

lemma cfgs_by_id_distinct:
  "distinct (map ServerConfig_ID cfgs) \<Longrightarrow> c \<in> set cfgs \<Longrightarrow> cfgs_by_id cfgs (ServerConfig_ID c) = Some c"
  using dom_cfgs_by_id [of cfgs] cfgs_by_id_Some [of cfgs "ServerConfig_ID c"]
  by (auto simp: distinct_map set_eq_iff dom_def image_iff dest: inj_onD)

text \<open>An invariant of the steps of a loop is one of the loop, unless it panics.\<close>

lemma each_res_inv:
  assumes "fst (each_res f xs m) \<noteq> Panic" and "P m"
    and "\<And>x m. x \<in> set xs \<Longrightarrow> P m \<Longrightarrow> fst (f x m) \<noteq> Panic \<Longrightarrow> P (snd (f x m))"
  shows "P (snd (each_res f xs m))"
  using assms
proof (induction xs arbitrary: m)
  case (Cons x xs)
  show ?case
  proof (cases "f x m")
    case (Pair r m1)
    with Cons.prems(3) [of x m] Cons.prems(2) have "r \<noteq> Panic \<Longrightarrow> P m1" by auto
    with Cons Pair show ?thesis by (cases r) auto
  qed
qed simp

section \<open>The interface of the backends\<close>

text \<open>
  What the manager relies on: a new backend runs and is none of those that ran before, an update stops
  none, and closing a backend stops only this one.
\<close>

locale backends =
  fixes ops :: "('b, 's, 'w) backend_ops" and runs :: "'w \<Rightarrow> 'b \<Rightarrow> bool"
  assumes factory_runs: "bo_factory ops bwCfg w = (b, w') \<Longrightarrow>
      \<not> runs w b \<and> (\<forall>b'. runs w' b' \<longleftrightarrow> runs w b' \<or> b' = b)"
    and Update_runs: "runs (bo_Update ops b cfg w) b' \<longleftrightarrow> runs w b'"
    and Close_runs: "runs (bo_Close ops b w) b' \<longleftrightarrow> runs w b' \<and> b' \<noteq> b"

text \<open>
  Configurations and backends are stored under the same ids, the running backends are the stored ones,
  each under one id, and the domains known to the manager are those of the catalog.
\<close>

definition stored_apart :: "(string \<rightharpoonup> 'b) \<Rightarrow> bool" where
  "stored_apart bs \<longleftrightarrow> (\<forall>i j b. bs i = Some b \<longrightarrow> bs j = Some b \<longrightarrow> i = j)"

definition manager_inv :: "('w \<Rightarrow> 'b \<Rightarrow> bool) \<Rightarrow> ('b, 's, 'f, 'w) BackendManager \<Rightarrow> bool" where
  "manager_inv runs m \<longleftrightarrow>
    dom (bm_cfgs m) = dom (bm_backends m) \<and>
    (\<forall>i c. bm_cfgs m i = Some c \<longrightarrow> ServerConfig_ID c = i) \<and>
    Collect (runs (bm_world m)) = ran (bm_backends m) \<and> stored_apart (bm_backends m) \<and>
    dom (sc_ServerDict (wm_domains (bm_workerManager m))) = dom (bm_domains m)"

lemma stored_apart_upd:
  "stored_apart bs \<Longrightarrow> b \<notin> ran bs \<Longrightarrow> stored_apart (bs(i \<mapsto> b))"
  by (auto simp: stored_apart_def ran_def)

lemma stored_apart_delete: "stored_apart bs \<Longrightarrow> stored_apart (bs(i := None))"
  by (auto simp: stored_apart_def)

lemma ran_delete:
  assumes "stored_apart bs" and "bs i = Some b"
  shows "ran (bs(i := None)) = ran bs - {b}"
proof (intro set_eqI iffI)
  fix x assume "x \<in> ran (bs(i := None))"
  then obtain j where j: "j \<noteq> i" "bs j = Some x" by (auto simp: ran_def split: if_splits)
  then have "x \<noteq> b" using assms unfolding stored_apart_def by blast
  with j show "x \<in> ran bs - {b}" by (auto simp: ran_def)
next
  fix x assume "x \<in> ran bs - {b}"
  then obtain j where "bs j = Some x" "x \<noteq> b" by (auto simp: ran_def)
  with assms(2) show "x \<in> ran (bs(i := None))" by (intro ranI [of _ j]) auto
qed

lemma manager_inv_None: "manager_inv runs m \<Longrightarrow> bm_cfgs m i = None \<longleftrightarrow> bm_backends m i = None"
  unfolding manager_inv_def by (metis domIff)

abbreviation served :: "('b, 's, 'f, 'w) BackendManager \<Rightarrow> string \<rightharpoonup> 's" where
  "served m \<equiv> sc_ServerDict (wm_domains (bm_workerManager m))"

lemma served_simps [simp]:
  "sc_ServerDict (wm_domains (AddBackend ds sv wm)) = register_domains ds sv (sc_ServerDict (wm_domains wm))"
  "sc_ServerDict (wm_domains (RemoveBackend ds wm)) = delete_domains ds (sc_ServerDict (wm_domains wm))"
  by (simp_all add: AddBackend_def RemoveBackend_def workerManager_update_def)

lemma backend_config_frame:
  "backend_config uni env cfg m = (r, m') \<Longrightarrow>
    \<exists>f. m' = m\<lparr>bm_files := f\<rparr> \<and> r = Panic \<or> m' = m\<lparr>bm_files := f\<rparr> \<and> is_ok r"
  by (auto simp: backend_config_def is_ok_def split: prod.splits res.splits)

lemma check_config_inv:
  "manager_inv runs m \<Longrightarrow> manager_inv runs (snd (check_config uni env cfg m))"
  by (auto simp: check_config_def manager_inv_def split: prod.splits res.splits)

lemma updateConfig_eq:
  assumes "bm_backends m (ServerConfig_ID cfg) = Some b" and "bm_cfgs m (ServerConfig_ID cfg) = Some oldCfg"
    and "cfg \<noteq> oldCfg" and "fst (updateConfig ops uni env order cfg m) \<noteq> Panic"
  shows "\<exists>f w. snd (updateConfig ops uni env order cfg m) = m
    \<lparr>bm_domains := delete_domains (filter (\<lambda>d. domain_status cfg oldCfg d = 2) order)
       (register_domains (filter (\<lambda>d. domain_status cfg oldCfg d = 1) order) (ServerConfig_ID cfg) (bm_domains m)),
     bm_workerManager := RemoveBackend (filter (\<lambda>d. domain_status cfg oldCfg d = 2) order)
       (AddBackend (filter (\<lambda>d. domain_status cfg oldCfg d = 1) order) (bo_Server ops b) (bm_workerManager m)),
     bm_files := f, bm_world := w\<rparr> \<and> (\<exists>c. w = bo_Update ops b c (bm_world m))"
proof -
  let ?m2 = "m\<lparr>bm_domains := delete_domains (filter (\<lambda>d. domain_status cfg oldCfg d = 2) order)
       (register_domains (filter (\<lambda>d. domain_status cfg oldCfg d = 1) order) (ServerConfig_ID cfg) (bm_domains m)),
     bm_workerManager := RemoveBackend (filter (\<lambda>d. domain_status cfg oldCfg d = 2) order)
       (AddBackend (filter (\<lambda>d. domain_status cfg oldCfg d = 1) order) (bo_Server ops b) (bm_workerManager m))\<rparr>"
  obtain r m3 where c: "backend_config uni env cfg ?m2 = (r, m3)" by force
  with assms have "r \<noteq> Panic" by (auto simp: updateConfig_def)
  with backend_config_frame [OF c] obtain bwCfg f where "r = Ok bwCfg" "m3 = ?m2\<lparr>bm_files := f\<rparr>"
    by (cases r) (auto simp: is_ok_def)
  with c assms(1-3) show ?thesis by (auto simp: updateConfig_def Let_def)
qed

context backends begin

lemma addConfig_inv:
  assumes "manager_inv runs m" and "bm_cfgs m (ServerConfig_ID cfg) = None"
    and "fst (addConfig ops uni env cfg m) \<noteq> Panic"
  shows "manager_inv runs (snd (addConfig ops uni env cfg m))"
proof -
  let ?m1 = "m\<lparr>bm_cfgs := (bm_cfgs m)(ServerConfig_ID cfg \<mapsto> cfg),
               bm_domains := register_domains (sf_Domains cfg) (ServerConfig_ID cfg) (bm_domains m)\<rparr>"
  obtain r m2 where c: "backend_config uni env cfg ?m1 = (r, m2)" by force
  with assms(3) backend_config_frame [OF c] obtain bwCfg f where
    m2: "r = Ok bwCfg" "m2 = ?m1\<lparr>bm_files := f\<rparr>"
    by (cases r) (auto simp: addConfig_def Let_def is_ok_def)
  obtain b w where b: "bo_factory ops bwCfg (bm_world m) = (b, w)" by force
  have none: "bm_backends m (ServerConfig_ID cfg) = None"
    using manager_inv_None [OF assms(1)] assms(2) by simp
  have m': "snd (addConfig ops uni env cfg m) = ?m1\<lparr>bm_files := f, bm_world := w,
      bm_backends := (bm_backends m)(ServerConfig_ID cfg \<mapsto> b),
      bm_workerManager := AddBackend (sf_Domains cfg) (bo_Server ops b) (bm_workerManager m)\<rparr>"
    by (simp add: addConfig_def Let_def c m2 b)
  have "b \<notin> ran (bm_backends m)" "Collect (runs w) = insert b (ran (bm_backends m))"
    using factory_runs [OF b] assms(1) by (auto simp: manager_inv_def)
  with assms(1) none show ?thesis
    by (auto simp: m' manager_inv_def domains_apply stored_apart_upd ran_map_upd dom_def split: if_splits)
qed

lemma removeConfig_inv:
  assumes "manager_inv runs m"
  shows "manager_inv runs (removeConfig ops cfg m)"
proof (cases "bm_backends m (ServerConfig_ID cfg)")
  case (Some b)
  have "Collect (runs (bo_Close ops b (bm_world m))) = ran (bm_backends m) - {b}"
    using assms by (auto simp: Close_runs manager_inv_def)
  with assms Some show ?thesis
    by (auto simp: removeConfig_def manager_inv_def domains_apply stored_apart_delete ran_delete dom_def
        split: if_splits)
qed (simp add: removeConfig_def assms)

lemma updateConfig_inv:
  assumes "manager_inv runs m" and "bm_cfgs m (ServerConfig_ID cfg) \<noteq> None"
    and "fst (updateConfig ops uni env order cfg m) \<noteq> Panic"
  shows "manager_inv runs (snd (updateConfig ops uni env order cfg m))"
proof -
  obtain oldCfg b where c: "bm_cfgs m (ServerConfig_ID cfg) = Some oldCfg"
    and b: "bm_backends m (ServerConfig_ID cfg) = Some b"
    using assms(2) manager_inv_None [OF assms(1), of "ServerConfig_ID cfg"] by auto
  show ?thesis
  proof (cases "cfg = oldCfg")
    case True
    with c assms(1) show ?thesis by (simp add: updateConfig_def)
  next
    case False
    obtain f w c' where u: "snd (updateConfig ops uni env order cfg m) = m
    \<lparr>bm_domains := delete_domains (filter (\<lambda>d. domain_status cfg oldCfg d = 2) order)
       (register_domains (filter (\<lambda>d. domain_status cfg oldCfg d = 1) order) (ServerConfig_ID cfg) (bm_domains m)),
     bm_workerManager := RemoveBackend (filter (\<lambda>d. domain_status cfg oldCfg d = 2) order)
       (AddBackend (filter (\<lambda>d. domain_status cfg oldCfg d = 1) order) (bo_Server ops b) (bm_workerManager m)),
     bm_files := f, bm_world := w\<rparr>" "w = bo_Update ops b c' (bm_world m)"
      using updateConfig_eq [OF b c False assms(3)] by auto
    with assms(1) show ?thesis
      by (auto simp: manager_inv_def Update_runs domains_apply dom_def split: if_splits)
  qed
qed

end

context backends begin

lemma remove_if_gone_inv: "manager_inv runs m \<Longrightarrow> manager_inv runs (remove_if_gone ops newCfgs i m)"
  by (simp add: remove_if_gone_def removeConfig_inv split: option.splits)

lemma fold_remove_inv: "manager_inv runs m \<Longrightarrow> manager_inv runs (fold (remove_if_gone ops newCfgs) ids m)"
  by (induction ids arbitrary: m) (simp_all add: remove_if_gone_inv)

lemma add_or_update_inv:
  assumes "manager_inv runs m" and "fst (add_or_update ops uni env order (cfgs_by_id cfgs) i m) \<noteq> Panic"
  shows "manager_inv runs (snd (add_or_update ops uni env order (cfgs_by_id cfgs) i m))"
  using assms
  by (auto simp: add_or_update_def dest!: cfgs_by_id_Some intro!: addConfig_inv updateConfig_inv
      split: option.splits if_splits)

lemma loadAllConfigs_inv:
  assumes "manager_inv runs m" and "fst (loadAllConfigs ops uni env v cfgs m) \<noteq> Panic"
  shows "manager_inv runs (snd (loadAllConfigs ops uni env v cfgs m))"
  using assms(2) unfolding loadAllConfigs_def Let_def
  by (rule each_res_inv [where P = "manager_inv runs"])
    (simp_all add: fold_remove_inv add_or_update_inv assms(1))

text \<open>The first load: the ids that are still to come are not stored yet.\<close>

lemma addConfig_cfgs:
  "fst (addConfig ops uni env cfg m) \<noteq> Panic \<Longrightarrow>
    bm_cfgs (snd (addConfig ops uni env cfg m)) = (bm_cfgs m)(ServerConfig_ID cfg \<mapsto> cfg) \<and>
    fst (addConfig ops uni env cfg m) = Ok ()"
  by (auto simp: addConfig_def Let_def backend_config_def split: prod.splits res.splits)

lemma first_load_inv:
  assumes "manager_inv runs m" and "distinct (map ServerConfig_ID cfgs)"
    and "\<forall>cfg \<in> set cfgs. bm_cfgs m (ServerConfig_ID cfg) = None"
    and "fst (each_res (addConfig ops uni env) cfgs m) \<noteq> Panic"
  shows "manager_inv runs (snd (each_res (addConfig ops uni env) cfgs m))"
  using assms
proof (induction cfgs arbitrary: m)
  case (Cons cfg cfgs)
  obtain r m1 where a: "addConfig ops uni env cfg m = (r, m1)" by force
  with Cons.prems(4) have "r \<noteq> Panic" by auto
  with a addConfig_cfgs [of uni env cfg m] have r: "r = Ok ()"
    "bm_cfgs m1 = (bm_cfgs m)(ServerConfig_ID cfg \<mapsto> cfg)" by auto
  have "manager_inv runs m1"
    using addConfig_inv [of m cfg uni env] Cons.prems a r by auto
  moreover have "\<forall>c \<in> set cfgs. bm_cfgs m1 (ServerConfig_ID c) = None"
    using Cons.prems(2,3) r by (simp add: image_iff) metis
  ultimately show ?case using Cons.IH [of m1] Cons.prems(2,4) a r by auto
qed simp

lemma checks_inv:
  "manager_inv runs m \<Longrightarrow> manager_inv runs (snd (each_res (check_config uni env) cfgs m))"
  if "fst (each_res (check_config uni env) cfgs m) \<noteq> Panic"
  using that by (rule each_res_inv [where P = "manager_inv runs"]) (simp_all add: check_config_inv)

lemma Update_eq:
  assumes "reader (bm_files m) = Ok cfgs"
  shows "BackendManager_Update ops uni env v reader m =
    (case each_res (check_config uni env) cfgs m of
       (Ok _, m1) \<Rightarrow> if dom (bm_cfgs m1) = {} then each_res (addConfig ops uni env) cfgs m1
                   else loadAllConfigs ops uni env v cfgs m1
     | x \<Rightarrow> x)"
  using assms by (simp add: BackendManager_Update_def split: prod.splits res.splits)

lemma Update_inv:
  assumes "manager_inv runs m" and "\<And>f cfgs. reader f = Ok cfgs \<Longrightarrow> distinct (map ServerConfig_ID cfgs)"
    and "fst (BackendManager_Update ops uni env v reader m) \<noteq> Panic"
  shows "manager_inv runs (snd (BackendManager_Update ops uni env v reader m))"
proof (cases "reader (bm_files m)")
  case (Ok cfgs)
  note up = Update_eq [of reader m cfgs uni env v, OF Ok]
  obtain r m1 where c: "each_res (check_config uni env) cfgs m = (r, m1)" by force
  with up assms(3) have r: "r \<noteq> Panic" by auto
  with checks_inv [OF _ assms(1), of uni env cfgs] c have m1: "manager_inv runs m1" by simp
  show ?thesis
  proof (cases r)
    case (Ok u)
    note up = up [unfolded c Ok prod.case res.case]
    show ?thesis
    proof (cases "dom (bm_cfgs m1) = {}")
      case True
      with first_load_inv [OF m1, of cfgs uni env] assms(2) [OF \<open>reader _ = _\<close>] assms(3) up
      show ?thesis by (simp add: domIff [symmetric])
    next
      case False
      with loadAllConfigs_inv [OF m1, of uni env v cfgs] assms(3) up show ?thesis by simp
    qed
  qed (use up c m1 r in simp_all)
qed (use assms in \<open>simp_all add: BackendManager_Update_def\<close>)

end


section \<open>The backend workers are such backends\<close>

lemma Work_event_open:
  "bs_open (snd (Work_event env ev s)) \<longleftrightarrow> bs_open s \<and> ev \<noteq> EvClose"
  by (cases ev) (auto simp: Work_event_def split: prod.splits)

lemma worker_runs_send:
  "worker_runs (BackendWorker_send env ev h W) h' \<longleftrightarrow> worker_runs W h' \<and> (h' = h \<longrightarrow> ev \<noteq> EvClose)"
proof (cases "worker_runs W h")
  case True
  then have "worker_runs (put_backend h s W) h' \<longleftrightarrow> (if h' = h then bs_open s else worker_runs W h')" for s
    by (auto simp: put_backend_def worker_runs_def nth_list_update)
  with True Work_event_open [of env ev "backend_at h W"] show ?thesis
    by (auto simp: BackendWorker_send_def on_backend_def backend_at_def split: prod.splits)
qed (auto simp: BackendWorker_send_def)

interpretation worker_backends: backends "worker_ops env" worker_runs for env
proof
  show "\<not> worker_runs W h \<and> (\<forall>h'. worker_runs W' h' \<longleftrightarrow> worker_runs W h' \<or> h' = h)"
    if "bo_factory (worker_ops env) cfg W = (h, W')" for cfg W h W'
    using that by (auto simp: worker_ops_def BackendFactory_def worker_runs_def nth_append split: prod.splits)
qed (auto simp: worker_ops_def worker_runs_send)

end
