(* ===== verification/Wrk_Routing.thy ===== *)
theory Wrk_Routing
  imports Wrk_Manager
begin

text \<open>
  What the backend manager promises of the routing table, and the reloads that keep the promise: those
  that add and remove configurations. The reloads that change a configuration break it.
\<close>

section \<open>The routing table\<close>

text \<open>
  What the manager promises: the stored configurations have disjoint domains, each domain is registered
  for the one configuration that lists it, and the catalog serves it with the backend of that
  configuration.
\<close>

definition routed :: "('b, 's, 'w) backend_ops \<Rightarrow> ('b, 's, 'f, 'w) BackendManager \<Rightarrow> bool" where
  "routed ops m \<longleftrightarrow>
    dom (bm_cfgs m) = dom (bm_backends m) \<and>
    (\<forall>i c. bm_cfgs m i = Some c \<longrightarrow> ServerConfig_ID c = i) \<and>
    (\<forall>d i. bm_domains m d = Some i \<longleftrightarrow> (\<exists>c. bm_cfgs m i = Some c \<and> d \<in> set (sf_Domains c))) \<and>
    (\<forall>d. served m d = (case bm_domains m d of None \<Rightarrow> None | Some i \<Rightarrow> map_option (bo_Server ops) (bm_backends m i)))"

lemma routed_None: "routed ops m \<Longrightarrow> bm_cfgs m i = None \<longleftrightarrow> bm_backends m i = None"
  unfolding routed_def by (metis domIff)

lemma routed_domain:
  "routed ops m \<Longrightarrow> bm_domains m d = Some i \<longleftrightarrow> (\<exists>c. bm_cfgs m i = Some c \<and> d \<in> set (sf_Domains c))"
  by (simp add: routed_def)

lemma routed_served:
  "routed ops m \<Longrightarrow> served m d =
    (case bm_domains m d of None \<Rightarrow> None | Some i \<Rightarrow> map_option (bo_Server ops) (bm_backends m i))"
  by (simp add: routed_def)

lemma routed_ID: "routed ops m \<Longrightarrow> bm_cfgs m i = Some c \<Longrightarrow> ServerConfig_ID c = i"
  by (simp add: routed_def)

lemma routedI:
  assumes "\<And>i. bm_cfgs m i = None \<longleftrightarrow> bm_backends m i = None"
    and "\<And>i c. bm_cfgs m i = Some c \<Longrightarrow> ServerConfig_ID c = i"
    and "\<And>d i. bm_domains m d = Some i \<longleftrightarrow> (\<exists>c. bm_cfgs m i = Some c \<and> d \<in> set (sf_Domains c))"
    and "\<And>d. served m d =
      (case bm_domains m d of None \<Rightarrow> None | Some i \<Rightarrow> map_option (bo_Server ops) (bm_backends m i))"
  shows "routed ops m"
proof -
  have "dom (bm_cfgs m) = dom (bm_backends m)" using assms(1) by (auto simp: dom_def)
  with assms(2-4) show ?thesis by (simp add: routed_def)
qed

lemma addConfig_eq:
  assumes "addConfig ops uni env cfg m = (Ok (), m')"
  shows "\<exists>b f w. m' = m\<lparr>bm_cfgs := (bm_cfgs m)(ServerConfig_ID cfg \<mapsto> cfg),
      bm_domains := register_domains (sf_Domains cfg) (ServerConfig_ID cfg) (bm_domains m),
      bm_files := f, bm_world := w, bm_backends := (bm_backends m)(ServerConfig_ID cfg \<mapsto> b),
      bm_workerManager := AddBackend (sf_Domains cfg) (bo_Server ops b) (bm_workerManager m)\<rparr>"
  using assms
  by (auto simp: addConfig_def Let_def backend_config_def split: prod.splits res.splits)

lemma addConfig_routed:
  assumes "routed ops m" and "addConfig ops uni env cfg m = (Ok (), m')"
    and "bm_cfgs m (ServerConfig_ID cfg) = None" and "set (sf_Domains cfg) \<inter> dom (bm_domains m) = {}"
  shows "routed ops m'"
proof -
  obtain b f w where m': "m' = m\<lparr>bm_cfgs := (bm_cfgs m)(ServerConfig_ID cfg \<mapsto> cfg),
      bm_domains := register_domains (sf_Domains cfg) (ServerConfig_ID cfg) (bm_domains m),
      bm_files := f, bm_world := w, bm_backends := (bm_backends m)(ServerConfig_ID cfg \<mapsto> b),
      bm_workerManager := AddBackend (sf_Domains cfg) (bo_Server ops b) (bm_workerManager m)\<rparr>"
    using addConfig_eq [OF assms(2)] by blast
  have free: "d \<in> set (sf_Domains cfg) \<Longrightarrow> bm_domains m d = None" for d
    using assms(4) by (auto simp: domIff)
  have not_id: "bm_domains m d \<noteq> Some (ServerConfig_ID cfg)" for d
    using assms(3) by (simp add: routed_domain [OF assms(1)])
  show ?thesis
  proof (rule routedI)
    show "bm_cfgs m' i = None \<longleftrightarrow> bm_backends m' i = None" for i
      using routed_None [OF assms(1), of i] by (simp add: m')
    show "ServerConfig_ID c = i" if "bm_cfgs m' i = Some c" for i c
      using that routed_ID [OF assms(1), of i c] by (auto simp: m' split: if_splits)
    show "bm_domains m' d = Some i \<longleftrightarrow> (\<exists>c. bm_cfgs m' i = Some c \<and> d \<in> set (sf_Domains c))" for d i
      using free [of d] not_id [of d] routed_domain [OF assms(1), of d i]
      by (cases "i = ServerConfig_ID cfg") (auto simp: m' domains_apply)
    show "served m' d = (case bm_domains m' d of None \<Rightarrow> None
        | Some i \<Rightarrow> map_option (bo_Server ops) (bm_backends m' i))" for d
      using routed_served [OF assms(1), of d] not_id [of d]
      by (cases "bm_domains m d") (simp_all add: m' domains_apply)
  qed
qed

lemma removeConfig_routed:
  assumes "routed ops m" and "bm_cfgs m i = Some c"
  shows "routed ops (removeConfig ops c m) \<and> bm_cfgs (removeConfig ops c m) = (bm_cfgs m)(i := None)"
proof -
  have i: "ServerConfig_ID c = i" using assms by (simp add: routed_def)
  then obtain b where b: "bm_backends m i = Some b"
    using routed_None [OF assms(1), of i] assms(2) by auto
  have mem: "d \<in> set (sf_Domains c) \<longleftrightarrow> bm_domains m d = Some i" for d
    using assms(2) by (simp add: routed_domain [OF assms(1)])
  let ?m' = "removeConfig ops c m"
  have m': "bm_cfgs ?m' = (bm_cfgs m)(i := None)" "bm_backends ?m' = (bm_backends m)(i := None)"
    "bm_domains ?m' = delete_domains (sf_Domains c) (bm_domains m)"
    "served ?m' = delete_domains (sf_Domains c) (served m)"
    by (simp_all add: removeConfig_def i b)
  have "routed ops ?m'"
  proof (rule routedI)
    show "bm_cfgs ?m' j = None \<longleftrightarrow> bm_backends ?m' j = None" for j
      using routed_None [OF assms(1), of j] by (simp add: m')
    show "ServerConfig_ID c' = j" if "bm_cfgs ?m' j = Some c'" for j c'
      using that routed_ID [OF assms(1), of j c'] by (auto simp: m' split: if_splits)
    show "bm_domains ?m' d = Some j \<longleftrightarrow> (\<exists>c. bm_cfgs ?m' j = Some c \<and> d \<in> set (sf_Domains c))" for d j
      using mem [of d] routed_domain [OF assms(1), of d j] by (cases "j = i") (auto simp: m' domains_apply)
    show "served ?m' d = (case bm_domains ?m' d of None \<Rightarrow> None
        | Some i \<Rightarrow> map_option (bo_Server ops) (bm_backends ?m' i))" for d
      using routed_served [OF assms(1), of d] mem [of d]
      by (cases "bm_domains m d") (simp_all add: m' domains_apply)
  qed
  with m'(1) show ?thesis by simp
qed

lemma addConfig_maps:
  assumes "addConfig ops uni env cfg m = (Ok (), m')"
  shows "bm_cfgs m' = (bm_cfgs m)(ServerConfig_ID cfg \<mapsto> cfg)"
    and "dom (bm_domains m') = set (sf_Domains cfg) \<union> dom (bm_domains m)"
  using addConfig_eq [OF assms] by (auto simp: domains_apply dom_def split: if_splits)

lemma fold_remove_routed:
  assumes "routed ops m"
  shows "routed ops (fold (remove_if_gone ops newCfgs) ids m) \<and>
    bm_cfgs (fold (remove_if_gone ops newCfgs) ids m) =
      (\<lambda>i. if i \<in> set ids \<and> newCfgs i = None then None else bm_cfgs m i)"
  using assms
proof (induction ids arbitrary: m)
  case (Cons i ids)
  have "routed ops (remove_if_gone ops newCfgs i m) \<and>
    bm_cfgs (remove_if_gone ops newCfgs i m) = (if newCfgs i = None then (bm_cfgs m)(i := None) else bm_cfgs m)"
    using Cons.prems removeConfig_routed [OF Cons.prems, of i]
    by (auto simp: remove_if_gone_def fun_eq_iff split: option.splits)
  with Cons.IH [of "remove_if_gone ops newCfgs i m"] show ?case by (auto simp: fun_eq_iff)
qed simp

text \<open>Configurations with different domains, stored by their ids.\<close>

definition apart :: "(string \<rightharpoonup> ServerConfig) \<Rightarrow> bool" where
  "apart cfgs \<longleftrightarrow> (\<forall>i c. cfgs i = Some c \<longrightarrow> ServerConfig_ID c = i) \<and>
    (\<forall>i j c c' d. cfgs i = Some c \<longrightarrow> cfgs j = Some c' \<longrightarrow> d \<in> set (sf_Domains c) \<longrightarrow>
      d \<in> set (sf_Domains c') \<longrightarrow> i = j)"

lemma add_unchanged_routed:
  assumes "routed ops m" and "apart newCfgs" and "bm_cfgs m \<subseteq>\<^sub>m newCfgs"
    and "add_or_update ops uni env order newCfgs i m = (Ok (), m')"
  shows "routed ops m' \<and> bm_cfgs m' = (bm_cfgs m)(i := newCfgs i)"
proof (cases "newCfgs i")
  case None
  then have "bm_cfgs m i = None" using assms(3) by (metis domIff map_le_implies_dom_le subsetD)
  with assms(1,4) None show ?thesis by (auto simp: add_or_update_def fun_eq_iff)
next
  case (Some c)
  then have i: "ServerConfig_ID c = i" using assms(2) by (simp add: apart_def)
  show ?thesis
  proof (cases "bm_cfgs m i")
    case None
    have add: "addConfig ops uni env c m = (Ok (), m')"
      using assms(4) None Some by (simp add: add_or_update_def)
    have "d \<notin> dom (bm_domains m)" if "d \<in> set (sf_Domains c)" for d
    proof
      assume "d \<in> dom (bm_domains m)"
      then obtain j c' where j: "bm_cfgs m j = Some c'" "d \<in> set (sf_Domains c')"
        using routed_domain [OF assms(1)] by blast
      then have "newCfgs j = Some c'" using assms(3) by (metis domI map_le_def)
      with j that Some assms(2) have "i = j" by (auto simp: apart_def)
      with None j show False by simp
    qed
    then have "set (sf_Domains c) \<inter> dom (bm_domains m) = {}" by blast
    with addConfig_routed [OF assms(1) add] None Some i addConfig_maps(1) [OF add] show ?thesis by auto
  next
    case (Some c')
    with \<open>newCfgs i = Some c\<close> assms(3) have "c' = c" by (metis domI map_le_def option.inject)
    with Some \<open>newCfgs i = Some c\<close> assms(1,4) i show ?thesis
      by (auto simp: add_or_update_def updateConfig_def fun_eq_iff)
  qed
qed

lemma each_res_Ok_Cons:
  "each_res f (x # xs) m = (Ok u, m') \<longleftrightarrow> (\<exists>m1. f x m = (Ok (), m1) \<and> each_res f xs m1 = (Ok u, m'))"
  by (simp add: and_then_Ok_iff)

lemma adds_unchanged_routed:
  assumes "routed ops m" and "apart newCfgs" and "bm_cfgs m \<subseteq>\<^sub>m newCfgs"
    and "each_res (add_or_update ops uni env order newCfgs) ids m = (Ok (), m')"
  shows "routed ops m' \<and> bm_cfgs m' = (\<lambda>i. if i \<in> set ids then newCfgs i else bm_cfgs m i)"
  using assms(1,3,4)
proof (induction ids arbitrary: m)
  case (Cons i ids)
  from Cons.prems(3) obtain m1 where a: "add_or_update ops uni env order newCfgs i m = (Ok (), m1)"
    and r: "each_res (add_or_update ops uni env order newCfgs) ids m1 = (Ok (), m')"
    unfolding each_res_Ok_Cons by blast
  have m1: "routed ops m1" "bm_cfgs m1 = (bm_cfgs m)(i := newCfgs i)"
    using add_unchanged_routed [OF Cons.prems(1) assms(2) Cons.prems(2) a] by simp_all
  then have "bm_cfgs m1 \<subseteq>\<^sub>m newCfgs" using Cons.prems(2) by (auto simp: map_le_def)
  from Cons.IH [OF m1(1) this r] m1(2) show ?case by (simp add: fun_eq_iff)
qed simp

lemma first_load_routed:
  assumes "routed ops m" and "distinct (map ServerConfig_ID cfgs)" and "distinct (concat (map sf_Domains cfgs))"
    and "ServerConfig_ID ` set cfgs \<inter> dom (bm_cfgs m) = {}"
    and "set (concat (map sf_Domains cfgs)) \<inter> dom (bm_domains m) = {}"
    and "each_res (addConfig ops uni env) cfgs m = (Ok (), m')"
  shows "routed ops m' \<and> bm_cfgs m' = bm_cfgs m ++ cfgs_by_id cfgs"
  using assms
proof (induction cfgs arbitrary: m)
  case (Cons c cfgs)
  from Cons.prems(6) obtain m1 where a: "addConfig ops uni env c m = (Ok (), m1)"
    and r: "each_res (addConfig ops uni env) cfgs m1 = (Ok (), m')"
    unfolding each_res_Ok_Cons by blast
  note maps = addConfig_maps [OF a]
  have m1: "routed ops m1"
    using Cons.prems(4,5) by (intro addConfig_routed [OF Cons.prems(1) a]) (auto simp: domIff)
  have d1: "distinct (map ServerConfig_ID cfgs)" "distinct (concat (map sf_Domains cfgs))"
    using Cons.prems(2,3) by simp_all
  have d2: "ServerConfig_ID ` set cfgs \<inter> dom (bm_cfgs m1) = {}"
    using Cons.prems(2,4) by (auto simp: maps)
  have d3: "set (concat (map sf_Domains cfgs)) \<inter> dom (bm_domains m1) = {}"
    using Cons.prems(3,5) by (simp add: maps) blast
  have "routed ops m' \<and> bm_cfgs m' = bm_cfgs m1 ++ cfgs_by_id cfgs"
    by (rule Cons.IH [OF m1 d1 d2 d3 r])
  moreover have "bm_cfgs m1 ++ cfgs_by_id cfgs = bm_cfgs m ++ cfgs_by_id (c # cfgs)"
  proof
    fix i
    show "(bm_cfgs m1 ++ cfgs_by_id cfgs) i = (bm_cfgs m ++ cfgs_by_id (c # cfgs)) i"
    proof (cases "i \<in> ServerConfig_ID ` set (c # cfgs)")
      case True
      then obtain c' where c': "c' \<in> set (c # cfgs)" "i = ServerConfig_ID c'" by blast
      then have "cfgs_by_id (c # cfgs) i = Some c'" using cfgs_by_id_distinct Cons.prems(2) by blast
      moreover have "(bm_cfgs m1 ++ cfgs_by_id cfgs) i = Some c'"
        using c' Cons.prems(2) cfgs_by_id_distinct [of cfgs c'] dom_cfgs_by_id [of cfgs]
        by (cases "c' = c") (auto simp: maps map_add_dom_app_simps domIff)
      ultimately show ?thesis by (simp add: map_add_def)
    next
      case False
      then have "i \<notin> dom (cfgs_by_id cfgs)" "i \<notin> dom (cfgs_by_id (c # cfgs))" "i \<noteq> ServerConfig_ID c"
        by (auto simp: dom_cfgs_by_id)
      then show ?thesis by (simp add: map_add_dom_app_simps maps)
    qed
  qed
  ultimately show ?case by simp
qed (simp add: cfgs_by_id_def)


section \<open>Reloads\<close>

lemma map_le_None: "f \<subseteq>\<^sub>m g \<Longrightarrow> g i = None \<Longrightarrow> f i = None"
  by (metis domIff map_le_def)

lemma VerifyConfigs_apart:
  assumes "VerifyConfigs cfgs = None" and "distinct (map ServerConfig_ID cfgs)"
  shows "apart (cfgs_by_id cfgs)" and "distinct (concat (map sf_Domains cfgs))"
proof -
  show dist: "distinct (concat (map sf_Domains cfgs))"
    using assms(1) by (simp add: VerifyConfigs_None)
  have "c = c'" if "c \<in> set cfgs" "c' \<in> set cfgs" "d \<in> set (sf_Domains c)" "d \<in> set (sf_Domains c')" for c c' d
    using dist that by (induction cfgs) auto
  then show "apart (cfgs_by_id cfgs)"
    unfolding apart_def by (metis cfgs_by_id_Some)
qed

lemma check_config_files: "\<exists>f. snd (check_config uni env cfg m) = m\<lparr>bm_files := f\<rparr>"
  by (auto simp: check_config_def split: prod.splits res.splits)

lemma checks_files: "\<exists>f. snd (each_res (check_config uni env) cfgs m) = m\<lparr>bm_files := f\<rparr>"
proof (induction cfgs arbitrary: m)
  case (Cons c cfgs)
  obtain r m1 where c: "check_config uni env c m = (r, m1)" by force
  with check_config_files [of uni env c m] obtain f where "m1 = m\<lparr>bm_files := f\<rparr>" by auto
  with c Cons.IH [of m1] show ?case by (cases r) auto
next
  case (Nil m)
  have "m = m\<lparr>bm_files := bm_files m\<rparr>" by simp
  then show ?case by (metis each_res.simps(1) snd_conv)
qed

lemma routed_files [simp]: "routed ops (m\<lparr>bm_files := f\<rparr>) \<longleftrightarrow> routed ops m"
  by (simp add: routed_def cong: option.case_cong)

lemma kept_le:
  assumes "routed ops m" and "\<forall>cfg \<in> set cfgs. \<forall>c. bm_cfgs m (ServerConfig_ID cfg) = Some c \<longrightarrow> c = cfg"
    and "set ids = dom (bm_cfgs m)"
  shows "bm_cfgs (fold (remove_if_gone ops (cfgs_by_id cfgs)) ids m) \<subseteq>\<^sub>m cfgs_by_id cfgs"
  unfolding map_le_def
proof
  let ?m2 = "fold (remove_if_gone ops (cfgs_by_id cfgs)) ids m"
  have m2: "bm_cfgs ?m2 = (\<lambda>i. if i \<in> set ids \<and> cfgs_by_id cfgs i = None then None else bm_cfgs m i)"
    using fold_remove_routed [OF assms(1)] by blast
  fix i assume "i \<in> dom (bm_cfgs ?m2)"
  with assms(3) obtain c where i: "bm_cfgs m i = Some c" "cfgs_by_id cfgs i \<noteq> None"
    by (auto simp: m2 split: if_splits)
  then obtain c' where c': "cfgs_by_id cfgs i = Some c'" by blast
  with cfgs_by_id_Some [of cfgs i c'] assms(2) i have "c = c'" by auto
  with i c' show "bm_cfgs ?m2 i = cfgs_by_id cfgs i" by (simp add: m2)
qed

lemma reload_Ok_routes:
  assumes "routed ops m" and "configReader (bm_files m) = Ok cfgs"
    and "VerifyConfigs cfgs = None" and "distinct (map ServerConfig_ID cfgs)"
    and "\<forall>cfg \<in> set cfgs. \<forall>c. bm_cfgs m (ServerConfig_ID cfg) = Some c \<longrightarrow> c = cfg"
    and "set (vi_old v) = dom (bm_cfgs m)" and "set (vi_new v) = ServerConfig_ID ` set cfgs"
    and "BackendManager_Update ops uni env v configReader m = (Ok (), m')"
  shows "routed ops m' \<and> bm_cfgs m' = cfgs_by_id cfgs"
proof -
  note ap = VerifyConfigs_apart [OF assms(3,4)]
  from assms(2,8) obtain m1 where c: "each_res (check_config uni env) cfgs m = (Ok (), m1)"
    and u: "(if dom (bm_cfgs m1) = {} then each_res (addConfig ops uni env) cfgs m1
        else loadAllConfigs ops uni env v cfgs m1) = (Ok (), m')"
    by (auto simp: BackendManager_Update_def and_then_Ok_iff)
  from checks_files [of uni env cfgs m] c obtain f where m1: "m1 = m\<lparr>bm_files := f\<rparr>" by auto
  show ?thesis
  proof (cases "dom (bm_cfgs m) = {}")
    case True
    then have none: "bm_cfgs m = Map.empty" by simp
    have "dom (bm_domains m) = {}"
      using routed_domain [OF assms(1)] none by (auto simp: dom_def)
    with first_load_routed [of ops m1 cfgs uni env m'] assms(1,4) ap(2) u none m1
    show ?thesis by simp
  next
    case False
    let ?new = "cfgs_by_id cfgs"
    let ?m2 = "fold (remove_if_gone ops ?new) (vi_old v) m1"
    have m2: "routed ops ?m2"
      "bm_cfgs ?m2 = (\<lambda>i. if i \<in> set (vi_old v) \<and> ?new i = None then None else bm_cfgs m i)"
      using fold_remove_routed [of ops m1 ?new "vi_old v"] assms(1) m1 by (simp_all cong: if_cong)
    have le: "bm_cfgs ?m2 \<subseteq>\<^sub>m ?new"
      using kept_le [of ops m1 cfgs "vi_old v"] assms(1,5,6) m1 by simp
    have "each_res (add_or_update ops uni env (vi_domains v) ?new) (vi_new v) ?m2 = (Ok (), m')"
      using u False unfolding m1 loadAllConfigs_def Let_def by simp
    note m' = adds_unchanged_routed [OF m2(1) ap(1) le this]
    have m'_cfgs: "bm_cfgs m' i = (if i \<in> set (vi_new v) then ?new i else bm_cfgs ?m2 i)" for i
      by (simp only: m' [THEN conjunct2])
    have "bm_cfgs m' i = ?new i" for i
    proof (cases "i \<in> set (vi_new v)")
      case False
      then have "i \<notin> dom ?new" unfolding dom_cfgs_by_id assms(7) .
      then have "?new i = None" by (simp add: domIff)
      moreover from map_le_None [OF le this] have "bm_cfgs ?m2 i = None" .
      ultimately show ?thesis using False by (simp only: m'_cfgs if_False)
    qed (simp only: m'_cfgs if_True)
    with m' [THEN conjunct1] show ?thesis by (simp add: fun_eq_iff)
  qed
qed

section \<open>Reloads succeed\<close>

lemma fst_Ok_ex: "fst x = Ok () \<Longrightarrow> \<exists>m'. x = (Ok (), m')"
  by (cases x) simp

definition convertible :: "(string \<Rightarrow> string) \<Rightarrow> 'f os_env \<Rightarrow> ServerConfig \<Rightarrow> bool" where
  "convertible uni env cfg \<longleftrightarrow> (\<forall>f. is_ok (fst (ServerToBackendConfig uni env cfg f)))"

lemma convertibleE:
  assumes "convertible uni env cfg"
  obtains c f' where "ServerToBackendConfig uni env cfg f = (Ok c, f')"
proof (cases "ServerToBackendConfig uni env cfg f")
  case (Pair x f')
  with assms that show thesis by (cases x) (auto simp: convertible_def is_ok_def dest!: spec [of _ f])
qed

lemma convertible_plain:
  assumes "sf_Domains cfg \<noteq> []" and "\<not> sf_NewRealIP cfg"
  shows "convertible uni env cfg"
proof -
  from assms(1) obtain d ds where "sf_Domains cfg = d # ds" by (cases "sf_Domains cfg") auto
  with assms(2) show ?thesis
    by (cases "sf_Name cfg = []") (simp_all add: convertible_def ServerToBackendConfig_def Let_def is_ok_def)
qed

lemma each_res_total:
  assumes "P m" and "\<And>x m. x \<in> set xs \<Longrightarrow> P m \<Longrightarrow> \<exists>m'. f x m = (Ok (), m') \<and> P m'"
  shows "\<exists>m'. each_res f xs m = (Ok (), m') \<and> P m'"
  using assms
proof (induction xs arbitrary: m)
  case (Cons x xs)
  from Cons.prems obtain m1 where m1: "f x m = (Ok (), m1)" "P m1" by (metis list.set_intros(1))
  with Cons.IH [OF m1(2)] Cons.prems(2) show ?case by simp
qed simp

lemma check_config_total:
  assumes "convertible uni env cfg"
  shows "\<exists>m'. check_config uni env cfg m = (Ok (), m')"
proof -
  obtain c f where "ServerToBackendConfig uni env cfg (bm_files m) = (Ok c, f)"
    by (rule convertibleE [OF assms])
  then have "fst (check_config uni env cfg m) = Ok ()" by (simp add: check_config_def)
  then show ?thesis by (rule fst_Ok_ex)
qed

lemma checks_total:
  "\<forall>cfg \<in> set cfgs. convertible uni env cfg \<Longrightarrow> \<exists>m'. each_res (check_config uni env) cfgs m = (Ok (), m')"
  using each_res_total [of "\<lambda>_. True" m cfgs "check_config uni env"] check_config_total by blast

lemma addConfig_total:
  assumes "convertible uni env cfg"
  shows "\<exists>m'. addConfig ops uni env cfg m = (Ok (), m')"
proof -
  obtain c f where c: "ServerToBackendConfig uni env cfg (bm_files m) = (Ok c, f)"
    by (rule convertibleE [OF assms])
  obtain b w where "bo_factory ops c (bm_world m) = (b, w)" by force
  with c have "fst (addConfig ops uni env cfg m) = Ok ()"
    by (simp add: addConfig_def backend_config_def Let_def)
  then show ?thesis by (rule fst_Ok_ex)
qed

lemma add_unchanged_total:
  assumes "apart newCfgs" and "bm_cfgs m \<subseteq>\<^sub>m newCfgs" and "\<And>i c. newCfgs i = Some c \<Longrightarrow> convertible uni env c"
  shows "\<exists>m'. add_or_update ops uni env order newCfgs i m = (Ok (), m')"
proof (cases "newCfgs i")
  case (Some c)
  then have i: "ServerConfig_ID c = i" using assms(1) by (simp add: apart_def)
  have "bm_cfgs m i = None \<or> bm_cfgs m i = Some c" using assms(2) Some by (metis domI map_le_def option.exhaust)
  then show ?thesis
    using addConfig_total [OF assms(3) [OF Some], of ops m] Some i
    by (auto simp: add_or_update_def updateConfig_def)
qed (simp add: add_or_update_def)

lemma adds_unchanged_total:
  assumes "routed ops m" and "apart newCfgs" and "bm_cfgs m \<subseteq>\<^sub>m newCfgs"
    and "\<And>i c. newCfgs i = Some c \<Longrightarrow> convertible uni env c"
  shows "\<exists>m'. each_res (add_or_update ops uni env order newCfgs) ids m = (Ok (), m')"
proof -
  have step: "\<exists>m'. add_or_update ops uni env order newCfgs i m = (Ok (), m') \<and>
      routed ops m' \<and> bm_cfgs m' \<subseteq>\<^sub>m newCfgs"
    if m: "routed ops m \<and> bm_cfgs m \<subseteq>\<^sub>m newCfgs" for i and m
  proof -
    obtain m' where "add_or_update ops uni env order newCfgs i m = (Ok (), m')"
      using add_unchanged_total [of newCfgs m uni env ops order i] assms(2,4) m by blast
    moreover from add_unchanged_routed [OF _ assms(2) _ this] m
    have "routed ops m' \<and> bm_cfgs m' \<subseteq>\<^sub>m newCfgs" by (auto simp: map_le_def)
    ultimately show ?thesis by blast
  qed
  have "\<exists>m'. each_res (add_or_update ops uni env order newCfgs) ids m = (Ok (), m') \<and>
      (routed ops m' \<and> bm_cfgs m' \<subseteq>\<^sub>m newCfgs)"
    using assms(1,3) step by (intro each_res_total) blast+
  then show ?thesis by blast
qed

section \<open>Reloads keep the routing\<close>

lemma reload_total:
  assumes "routed ops m" and "configReader (bm_files m) = Ok cfgs"
    and "VerifyConfigs cfgs = None" and "distinct (map ServerConfig_ID cfgs)"
    and "\<forall>cfg \<in> set cfgs. convertible uni env cfg"
    and "\<forall>cfg \<in> set cfgs. \<forall>c. bm_cfgs m (ServerConfig_ID cfg) = Some c \<longrightarrow> c = cfg"
    and "set (vi_old v) = dom (bm_cfgs m)" and "set (vi_new v) = ServerConfig_ID ` set cfgs"
  shows "\<exists>m'. BackendManager_Update ops uni env v configReader m = (Ok (), m') \<and>
    routed ops m' \<and> bm_cfgs m' = cfgs_by_id cfgs"
proof -
  note ap = VerifyConfigs_apart [OF assms(3,4)]
  obtain m1 where c: "each_res (check_config uni env) cfgs m = (Ok (), m1)"
    using checks_total [OF assms(5)] by blast
  with checks_files [of uni env cfgs m] obtain f where m1: "m1 = m\<lparr>bm_files := f\<rparr>" by auto
  have keep: "bm_cfgs m1 = bm_cfgs m" "routed ops m1" using assms(1) by (simp_all add: m1)
  have u: "BackendManager_Update ops uni env v configReader m =
      (if dom (bm_cfgs m1) = {} then each_res (addConfig ops uni env) cfgs m1
       else loadAllConfigs ops uni env v cfgs m1)"
    using assms(2) c by (simp add: BackendManager_Update_def)
  have "\<exists>m'. BackendManager_Update ops uni env v configReader m = (Ok (), m')"
  proof (cases "dom (bm_cfgs m1) = {}")
    case True
    have "\<exists>m'. each_res (addConfig ops uni env) cfgs m1 = (Ok (), m') \<and> True"
      using assms(5) addConfig_total by (intro each_res_total) blast+
    with u True show ?thesis by simp
  next
    case False
    have le: "bm_cfgs (fold (remove_if_gone ops (cfgs_by_id cfgs)) (vi_old v) m1) \<subseteq>\<^sub>m cfgs_by_id cfgs"
      using kept_le [OF keep(2)] assms(6,7) by (simp add: keep(1))
    have conv: "convertible uni env c" if "cfgs_by_id cfgs i = Some c" for i c
      using cfgs_by_id_Some [OF that] assms(5) by blast
    from adds_unchanged_total [OF _ ap(1) le conv] fold_remove_routed [OF keep(2)] False show ?thesis
      unfolding u loadAllConfigs_def Let_def by simp
  qed
  then show ?thesis using reload_Ok_routes [of ops m configReader cfgs v uni env, OF assms(1-4,6-8)] by blast
qed


section \<open>Reloads that change a configuration\<close>

lemma updateConfig_changed:
  assumes "updateConfig ops uni env order cfg m = (Ok (), m1)" and "cfg \<noteq> oldCfg"
    and "bm_cfgs m (ServerConfig_ID cfg) = Some oldCfg"
  shows "bm_cfgs m1 = bm_cfgs m" and "bm_backends m1 = bm_backends m"
    and "d \<in> set order \<Longrightarrow> domain_status cfg oldCfg d = 2 \<Longrightarrow> served m1 d = None"
    and "d \<in> set order \<Longrightarrow> domain_status cfg oldCfg d = 1 \<Longrightarrow> bm_backends m (ServerConfig_ID cfg) = Some b \<Longrightarrow>
      served m1 d = Some (bo_Server ops b)"
proof -
  from assms obtain b' where b': "bm_backends m (ServerConfig_ID cfg) = Some b'"
    by (cases "bm_backends m (ServerConfig_ID cfg)") (auto simp: updateConfig_def Let_def)
  from updateConfig_eq [OF b' assms(3,2), of ops uni env order] assms(1) obtain f w where
    m1: "m1 = m\<lparr>bm_domains := delete_domains (filter (\<lambda>d. domain_status cfg oldCfg d = 2) order)
       (register_domains (filter (\<lambda>d. domain_status cfg oldCfg d = 1) order) (ServerConfig_ID cfg) (bm_domains m)),
     bm_workerManager := RemoveBackend (filter (\<lambda>d. domain_status cfg oldCfg d = 2) order)
       (AddBackend (filter (\<lambda>d. domain_status cfg oldCfg d = 1) order) (bo_Server ops b') (bm_workerManager m)),
     bm_files := f, bm_world := w\<rparr>" by auto
  show "bm_cfgs m1 = bm_cfgs m" "bm_backends m1 = bm_backends m" by (simp_all add: m1)
  show "served m1 d = None" if "d \<in> set order" "domain_status cfg oldCfg d = 2"
    using that by (simp add: m1 domains_apply)
  show "served m1 d = Some (bo_Server ops b)"
    if "d \<in> set order" "domain_status cfg oldCfg d = 1" "bm_backends m (ServerConfig_ID cfg) = Some b"
    using that b' by (simp add: m1 domains_apply)
qed

lemma count_list_distinct: "distinct xs \<Longrightarrow> count_list xs x = (if x \<in> set xs then 1 else 0)"
  by (induction xs) auto

lemma domain_status_simps:
  "distinct (sf_Domains cfg) \<Longrightarrow> d \<in> set (sf_Domains cfg) \<Longrightarrow> d \<notin> set (sf_Domains old) \<Longrightarrow>
    domain_status cfg old d = 1"
  "distinct (sf_Domains old) \<Longrightarrow> d \<notin> set (sf_Domains cfg) \<Longrightarrow> d \<in> set (sf_Domains old) \<Longrightarrow>
    domain_status cfg old d = 2"
  by (simp_all add: domain_status_def count_list_distinct)

text \<open>
  Changing a configuration back to the one the backend was started with does nothing: updateConfig
  does not store the new configuration, so the backend keeps the settings that were taken back.
\<close>

theorem reverted_update_ignored:
  assumes "updateConfig ops uni env order c1 m = (Ok (), m1)" and "ServerConfig_ID c1 = ServerConfig_ID c0"
    and "bm_cfgs m (ServerConfig_ID c0) = Some c0"
  shows "updateConfig ops uni env order' c0 m1 = (Ok (), m1)"
proof (cases "c1 = c0")
  case True
  with assms have "m1 = m" by (auto simp: updateConfig_def)
  with assms(3) show ?thesis by (simp add: updateConfig_def)
next
  case False
  with assms have "bm_cfgs m1 = bm_cfgs m" by (intro updateConfig_changed(1) [of ops uni env order c1]) simp_all
  with assms(3) show ?thesis by (simp add: updateConfig_def)
qed

text \<open>A domain an update has added is still served, by the closed backend, when its configuration is removed.\<close>

lemma removed_config_still_served:
  assumes "updateConfig ops uni env order c1 m = (Ok (), m1)" and "ServerConfig_ID c1 = i"
    and "bm_cfgs m i = Some c0" and "ServerConfig_ID c0 = i" and "bm_backends m i = Some b"
    and "distinct (sf_Domains c1)" and "d \<in> set (sf_Domains c1)" and "d \<notin> set (sf_Domains c0)"
    and "d \<in> set order" and "newCfgs i = None"
  defines "m2 \<equiv> remove_if_gone ops newCfgs i m1"
  shows "bm_backends m2 i = None \<and> bm_world m2 = bo_Close ops b (bm_world m1) \<and>
    served m2 d = Some (bo_Server ops b)"
proof -
  from assms(7,8) have "c1 \<noteq> c0" by auto
  note m1 = updateConfig_changed [OF assms(1) this, unfolded assms(2), OF assms(3)]
  with domain_status_simps(1) [OF assms(6-8)] assms(5,9) have "served m1 d = Some (bo_Server ops b)" by simp
  with m1(1,2) assms(3-5,8,10) show ?thesis
    by (simp add: m2_def remove_if_gone_def removeConfig_def domains_apply)
qed

text \<open>
  When one reload moves a domain from one configuration to another, the domain is served by the new
  backend or by none, depending on the order in which Go visits a map.
\<close>

theorem moved_domain_depends_on_order:
  assumes "bm_cfgs m = [a \<mapsto> A, b \<mapsto> B]" and "bm_backends m a = Some ba" and "bm_backends m b = Some bb"
    and "a \<noteq> b" and "ServerConfig_ID A' = a" and "ServerConfig_ID B' = b"
    and "d \<in> set (sf_Domains A)" and "d \<notin> set (sf_Domains A')" and "distinct (sf_Domains A)"
    and "d \<notin> set (sf_Domains B)" and "d \<in> set (sf_Domains B')" and "distinct (sf_Domains B')"
    and "d \<in> set (vi_domains v A')" and "d \<in> set (vi_domains v B')" and "set (vi_old v) \<subseteq> {a, b}"
    and "loadAllConfigs ops uni env v [A', B'] m = (Ok (), m')"
  shows "(vi_new v = [a, b] \<longrightarrow> served m' d = Some (bo_Server ops bb)) \<and>
    (vi_new v = [b, a] \<longrightarrow> served m' d = None)"
proof -
  have new: "cfgs_by_id [A', B'] = [a \<mapsto> A', b \<mapsto> B']"
    using assms(5,6) by (simp add: cfgs_by_id_def)
  have "fold (remove_if_gone ops [a \<mapsto> A', b \<mapsto> B']) ids m = m" if "set ids \<subseteq> {a, b}" for ids
    using that by (induction ids) (auto simp: remove_if_gone_def assms(1,4) split: option.splits)
  with assms(15,16) have run: "each_res (add_or_update ops uni env (vi_domains v) [a \<mapsto> A', b \<mapsto> B'])
      (vi_new v) m = (Ok (), m')"
    by (simp add: loadAllConfigs_def new)
  have changed: "A' \<noteq> A" "B' \<noteq> B" using assms(7,8,10,11) by auto
  have A: "bm_cfgs m2 = bm_cfgs m1 \<and> bm_backends m2 = bm_backends m1 \<and> served m2 d = None"
    if "add_or_update ops uni env (vi_domains v) [a \<mapsto> A', b \<mapsto> B'] a m1 = (Ok (), m2)"
      "bm_cfgs m1 = bm_cfgs m" for m1 m2
  proof -
    from that assms(1,4) have "updateConfig ops uni env (vi_domains v A') A' m1 = (Ok (), m2)"
      by (simp add: add_or_update_def)
    note u = updateConfig_changed [OF this changed(1), unfolded that(2) assms(1,5)]
    from assms(4) u domain_status_simps(2) [OF assms(9,8,7)] assms(13)
    show ?thesis by (simp add: that(2) assms(1))
  qed
  have B: "bm_cfgs m2 = bm_cfgs m1 \<and> bm_backends m2 = bm_backends m1 \<and> served m2 d = Some (bo_Server ops bb)"
    if "add_or_update ops uni env (vi_domains v) [a \<mapsto> A', b \<mapsto> B'] b m1 = (Ok (), m2)"
      "bm_cfgs m1 = bm_cfgs m" "bm_backends m1 = bm_backends m" for m1 m2
  proof -
    from that assms(1,4) have "updateConfig ops uni env (vi_domains v B') B' m1 = (Ok (), m2)"
      by (simp add: add_or_update_def)
    note u = updateConfig_changed [OF this changed(2), unfolded that(2,3) assms(1,6)]
    from assms(3,4) u domain_status_simps(1) [OF assms(12,11,10)] assms(14)
    show ?thesis by (simp add: that(2,3) assms(1))
  qed
  show ?thesis
  proof (intro conjI impI)
    assume "vi_new v = [a, b]"
    with run obtain m1 where m1: "add_or_update ops uni env (vi_domains v) [a \<mapsto> A', b \<mapsto> B'] a m = (Ok (), m1)"
      "add_or_update ops uni env (vi_domains v) [a \<mapsto> A', b \<mapsto> B'] b m1 = (Ok (), m')"
      by (auto simp: and_then_Ok_iff)
    from A [OF m1(1)] have "bm_cfgs m1 = bm_cfgs m" "bm_backends m1 = bm_backends m" by simp_all
    from B [OF m1(2) this] show "served m' d = Some (bo_Server ops bb)" by simp
  next
    assume "vi_new v = [b, a]"
    with run obtain m1 where m1: "add_or_update ops uni env (vi_domains v) [a \<mapsto> A', b \<mapsto> B'] b m = (Ok (), m1)"
      "add_or_update ops uni env (vi_domains v) [a \<mapsto> A', b \<mapsto> B'] a m1 = (Ok (), m')"
      by (auto simp: and_then_Ok_iff)
    from B [OF m1(1)] have "bm_cfgs m1 = bm_cfgs m" by simp
    from A [OF m1(2) this] show "served m' d = None" by simp
  qed
qed

section \<open>Concrete managers\<close>

definition sample_cfg :: "string \<Rightarrow> string list \<Rightarrow> ServerConfig" where
  "sample_cfg i ds = zero_ServerConfig\<lparr>sf_FilePath := i, sf_Domains := ds, sf_ProxyTo := ''b:1''\<rparr>"

lemma sample_cfg_simps [simp]:
  "ServerConfig_ID (sample_cfg i ds) = i" "sf_Domains (sample_cfg i ds) = ds"
  "sample_cfg i ds = sample_cfg i' ds' \<longleftrightarrow> i = i' \<and> ds = ds'"
  "ds \<noteq> [] \<Longrightarrow> convertible uni env (sample_cfg i ds)"
  by (auto simp: sample_cfg_def zero_ServerConfig_def ServerConfig_ID_def intro!: convertible_plain)

definition empty_world :: worker_world where
  "empty_world = \<lparr>ww_backends = [], ww_net = dead_network, ww_gauge = Map.empty\<rparr>"

definition sample_manager ::
  "(string \<rightharpoonup> ServerConfig) \<Rightarrow> (string \<rightharpoonup> nat) \<Rightarrow>
    (nat, worker_world server, string \<rightharpoonup> byte list, worker_world) BackendManager" where
  "sample_manager cfgs bks = \<lparr>bm_backends = bks, bm_domains = Map.empty, bm_cfgs = cfgs,
    bm_workerManager = NewWorkerManager, bm_files = Map.empty, bm_world = empty_world\<rparr>"

lemma updateConfig_total:
  assumes "convertible uni env cfg" and "bm_backends m (ServerConfig_ID cfg) \<noteq> None"
  shows "\<exists>m'. updateConfig ops uni env order cfg m = (Ok (), m')"
proof (rule fst_Ok_ex)
  obtain c f where "ServerToBackendConfig uni env cfg (bm_files m) = (Ok c, f)"
    by (rule convertibleE [OF assms(1)])
  with assms(2) show "fst (updateConfig ops uni env order cfg m) = Ok ()"
    by (auto simp: updateConfig_def backend_config_def Let_def)
qed


theorem reverted_update_ignored_witness:
  "\<exists>m1. updateConfig (worker_ops plain_backend_env) (\<lambda>s. s) plain_env [''x'', ''y''] (sample_cfg ''a'' [''y''])
      (sample_manager [''a'' \<mapsto> sample_cfg ''a'' [''x'']] [''a'' \<mapsto> 0]) = (Ok (), m1) \<and>
    updateConfig (worker_ops plain_backend_env) (\<lambda>s. s) plain_env [''x'', ''y''] (sample_cfg ''a'' [''x'']) m1 = (Ok (), m1)"
proof -
  let ?m = "sample_manager [''a'' \<mapsto> sample_cfg ''a'' [''x'']] [''a'' \<mapsto> 0]"
  obtain m1 where m1: "updateConfig (worker_ops plain_backend_env) (\<lambda>s. s) plain_env [''x'', ''y'']
      (sample_cfg ''a'' [''y'']) ?m = (Ok (), m1)"
    using updateConfig_total [of "\<lambda>s. s" plain_env "sample_cfg ''a'' [''y'']" ?m] by (auto simp: sample_manager_def)
  from m1 reverted_update_ignored [OF m1, of "sample_cfg ''a'' [''x'']"] show ?thesis
    by (auto simp: sample_manager_def)
qed

theorem moved_domain_depends_on_order_witness:
  "\<exists>m'. loadAllConfigs (worker_ops plain_backend_env) (\<lambda>s. s) plain_env
      \<lparr>vi_old = [''a'', ''b''], vi_new = [''b'', ''a''], vi_domains = (\<lambda>c. [''x'', ''y'', ''z''])\<rparr>
      [sample_cfg ''a'' [''x''], sample_cfg ''b'' [''y'', ''z'']]
      (sample_manager [''a'' \<mapsto> sample_cfg ''a'' [''x'', ''y''], ''b'' \<mapsto> sample_cfg ''b'' [''z'']]
        [''a'' \<mapsto> 0, ''b'' \<mapsto> 1]) = (Ok (), m') \<and> served m' ''y'' = None"
  (is "\<exists>m'. loadAllConfigs ?ops ?uni _ ?v ?cfgs ?m = _ \<and> _")
proof -
  let ?A = "sample_cfg ''a'' [''x'']" and ?B = "sample_cfg ''b'' [''y'', ''z'']"
  obtain m1 where m1: "updateConfig ?ops ?uni plain_env [''x'', ''y'', ''z''] ?B ?m = (Ok (), m1)"
    using updateConfig_total [of ?uni plain_env ?B ?m] by (auto simp: sample_manager_def)
  note u = updateConfig_changed [OF m1, of "sample_cfg ''b'' [''z'']"]
  have "bm_backends m1 = [''a'' \<mapsto> 0, ''b'' \<mapsto> 1]" and c: "bm_cfgs m1 = bm_cfgs ?m"
    using u(1,2) by (simp_all add: sample_manager_def)
  then obtain m2 where m2: "updateConfig ?ops ?uni plain_env [''x'', ''y'', ''z''] ?A m1 = (Ok (), m2)"
    using updateConfig_total [of ?uni plain_env ?A m1] by auto
  have "loadAllConfigs ?ops ?uni plain_env ?v ?cfgs ?m = (Ok (), m2)"
    using m1 m2 c
    by (simp add: loadAllConfigs_def cfgs_by_id_def remove_if_gone_def add_or_update_def sample_manager_def)
  with moved_domain_depends_on_order [of ?m "''a''" _ "''b''" _ 0 1 ?A ?B "''y''" ?v ?ops ?uni plain_env m2]
  show ?thesis by (auto simp: sample_manager_def)
qed

end
