(* ===== verification/Wrk_Api.thy ===== *)
theory Wrk_Api
  imports Wrk_Manager
begin

text \<open>
  The API over HTTP (worker/api.go), through which the running proxy is told to read its
  configurations again. The HTTP library is what serves the path and recovers panics.
\<close>

section \<open>The API\<close>

text \<open>
  A response has a status and a body, whose reading may fail. \<open>http.Error\<close> and \<open>Fprintln\<close> end the text
  with a newline. \<open>text\<close> gives the message of an error.
\<close>

record http_response =
  ht_status :: nat
  ht_body :: "string res"

definition newline :: string where
  "newline = [char_of (10 :: nat)]"

definition http_Error :: "string \<Rightarrow> nat \<Rightarrow> http_response" where
  "http_Error error code = \<lparr>ht_status = code, ht_body = Ok (error @ newline)\<rparr>"

record ('b, 's, 'f, 'w) api =
  ap_backendManager :: "('b, 's, 'f, 'w) BackendManager"
  ap_addr :: "string option"

definition NewAPI :: "('b, 's, 'f, 'w) BackendManager \<Rightarrow> ('b, 's, 'f, 'w) api" where
  "NewAPI backendManager = \<lparr>ap_backendManager = backendManager, ap_addr = None\<rparr>"

text \<open>\<open>Run\<close> serves the path /reload at an address until the server is closed.\<close>

definition api_Run :: "string \<Rightarrow> ('b, 's, 'f, 'w) api \<Rightarrow> ('b, 's, 'f, 'w) api" where
  "api_Run addr a = a\<lparr>ap_addr := Some addr\<rparr>"

definition api_Close :: "('b, 's, 'f, 'w) api \<Rightarrow> ('b, 's, 'f, 'w) api" where
  "api_Close a = a\<lparr>ap_addr := None\<rparr>"

definition reloadHandler ::
  "(go_error \<Rightarrow> string) \<Rightarrow> (('b, 's, 'f, 'w) BackendManager \<Rightarrow> unit res \<times> ('b, 's, 'f, 'w) BackendManager) \<Rightarrow>
    ('b, 's, 'f, 'w) api \<Rightarrow> http_response res \<times> ('b, 's, 'f, 'w) api" where
  "reloadHandler text update a =
    (case update (ap_backendManager a) of
       (Err err, m) \<Rightarrow> (Ok (http_Error (text err) 500), a\<lparr>ap_backendManager := m\<rparr>)
     | (Ok _, m) \<Rightarrow> (Ok \<lparr>ht_status = 200, ht_body = Ok (''success'' @ newline)\<rparr>, a\<lparr>ap_backendManager := m\<rparr>)
     | (Panic, m) \<Rightarrow> (Panic, a\<lparr>ap_backendManager := m\<rparr>))"

text \<open>
  A request to the server: other paths are not found. The HTTP server recovers a panic of the handler and
  closes the connection, so the client reads the end of the input.
\<close>

definition api_request ::
  "(go_error \<Rightarrow> string) \<Rightarrow> (('b, 's, 'f, 'w) BackendManager \<Rightarrow> unit res \<times> ('b, 's, 'f, 'w) BackendManager) \<Rightarrow>
    string \<Rightarrow> ('b, 's, 'f, 'w) api \<Rightarrow> http_response res \<times> ('b, 's, 'f, 'w) api" where
  "api_request text update path a =
    (if path = ''/reload'' then
       (case reloadHandler text update a of
          (Panic, a1) \<Rightarrow> (Err ErrEOF, a1)
        | r \<Rightarrow> r)
     else (Ok (http_Error ''404 page not found'' 404), a))"

section \<open>Facts about requests\<close>

lemma api_request_reload:
  "api_request text update ''/reload'' a =
    (case update (ap_backendManager a) of
       (Ok _, m) \<Rightarrow> (Ok \<lparr>ht_status = 200, ht_body = Ok (''success'' @ newline)\<rparr>, a\<lparr>ap_backendManager := m\<rparr>)
     | (Err err, m) \<Rightarrow> (Ok (http_Error (text err) 500), a\<lparr>ap_backendManager := m\<rparr>)
     | (Panic, m) \<Rightarrow> (Err ErrEOF, a\<lparr>ap_backendManager := m\<rparr>))"
  by (simp add: api_request_def reloadHandler_def split: prod.splits res.splits)

end
