(* ===== verification/Wrk_Run.thy ===== *)
theory Wrk_Run
  imports Wrk_Routing Wrk_Api "HOL-Library.Multiset"
begin

text \<open>
  The worker mode as a whole (worker/run.go): how it starts, the listeners and workers around the
  request channel, and the states the manager comes to while the program runs.
\<close>

section \<open>Starting\<close>

text \<open>The proxy holds what it was made with; \<open>'l\<close> are the listeners of the operating system.\<close>

record ('l, 'f) WorkerProxy =
  wp_uvReader :: "'f UVConfigReader"
  wp_listener :: 'l
  wp_cfgReader :: "'f \<Rightarrow> ServerConfig list res"

definition NewWorkerProxy ::
  "'f UVConfigReader \<Rightarrow> 'l \<Rightarrow> ('f \<Rightarrow> ServerConfig list res) \<Rightarrow> ('l, 'f) WorkerProxy" where
  "NewWorkerProxy uvReader l cfgReader =
    \<lparr>wp_uvReader = uvReader, wp_listener = l, wp_cfgReader = cfgReader\<rparr>"

text \<open>
  What runs after the start: the goroutines that accept connections, the server of the metrics at its
  address, if it is used, and the API, which holds the backend manager.
\<close>

record ('l, 'f) worker_mode =
  rm_listeners :: "'l list"
  rm_metrics :: "string option"
  rm_API :: "(nat, worker_world server, 'f, worker_world) api"

text \<open>
  The worker manager reads the main configuration again. Its error is ignored, so that no worker runs;
  a panic in it, like one in the backend manager, ends the process.
\<close>

definition serve_all ::
  "('l, 'f) WorkerProxy \<Rightarrow> UltravioletConfig \<Rightarrow> (nat, worker_world server, 'f, worker_world) BackendManager \<Rightarrow>
    ('l, 'f) worker_mode" where
  "serve_all p cfg backendManager =
    \<lparr>rm_listeners = replicate (nat (uc_NumberOfListeners cfg)) (wp_listener p),
     rm_metrics = (if uc_UsePrometheus cfg then Some (uc_PrometheusBind cfg) else None),
     rm_API = api_Run (uc_APIBind cfg) (NewAPI backendManager)\<rparr>"

definition WorkerProxy_Start ::
  "backend_env \<Rightarrow> (string \<Rightarrow> string) \<Rightarrow> 'f os_env \<Rightarrow> visit \<Rightarrow> ('l, 'f) WorkerProxy \<Rightarrow> 'f \<Rightarrow> worker_world \<Rightarrow>
    ('l, 'f) worker_mode res \<times> 'f" where
  "WorkerProxy_Start benv uni env v p f w =
    and_then (uv_call (wp_uvReader p) f) (\<lambda>cfg f1.
      let (again, f2) = uv_call (wp_uvReader p) f1;
          (started, workerManager) = workerManager_Start uni again NewWorkerManager in
      if started = Panic then (Panic, f2)
      else
        (case NewBackendManager (worker_ops benv) uni env v (wp_cfgReader p) workerManager f2 w of
           (Ok _, backendManager) \<Rightarrow> (Ok (serve_all p cfg backendManager), bm_files backendManager)
         | (Err e, backendManager) \<Rightarrow> (Err e, bm_files backendManager)
         | (Panic, backendManager) \<Rightarrow> (Panic, bm_files backendManager)))"

section \<open>Listeners and workers\<close>

text \<open>
  \<open>serveListener\<close> runs in several goroutines on one listener and sends the connections to the channel
  \<open>ReqCh\<close>, which holds 50; the workers take them out. A listener that was closed stops its loop, any
  other error of \<open>Accept\<close> is skipped. \<open>rn_accepted\<close> and \<open>rn_taken\<close> are the history.
\<close>

datatype listener_state = Accepting | Sending net_conn | ListenerDone

record run_state =
  rn_listeners :: "listener_state list"
  rn_ReqCh :: "net_conn list"
  rn_accepted :: "net_conn list"
  rn_taken :: "net_conn list"

definition run_start :: "nat \<Rightarrow> run_state" where
  "run_start listeners =
    \<lparr>rn_listeners = replicate listeners Accepting, rn_ReqCh = [], rn_accepted = [], rn_taken = []\<rparr>"

inductive run_step :: "run_state \<Rightarrow> run_state \<Rightarrow> bool" where
  conn_accepted: "i < length (rn_listeners s) \<Longrightarrow> rn_listeners s ! i = Accepting \<Longrightarrow>
    run_step s (s\<lparr>rn_listeners := (rn_listeners s)[i := Sending conn], rn_accepted := rn_accepted s @ [conn]\<rparr>)"
| listener_closed: "i < length (rn_listeners s) \<Longrightarrow> rn_listeners s ! i = Accepting \<Longrightarrow>
    run_step s (s\<lparr>rn_listeners := (rn_listeners s)[i := ListenerDone]\<rparr>)"
| conn_sent: "i < length (rn_listeners s) \<Longrightarrow> rn_listeners s ! i = Sending conn \<Longrightarrow> length (rn_ReqCh s) < 50 \<Longrightarrow>
    run_step s (s\<lparr>rn_listeners := (rn_listeners s)[i := Accepting], rn_ReqCh := rn_ReqCh s @ [conn]\<rparr>)"
| conn_taken: "rn_ReqCh s = conn # rest \<Longrightarrow>
    run_step s (s\<lparr>rn_ReqCh := rest, rn_taken := rn_taken s @ [conn]\<rparr>)"

fun sending :: "listener_state \<Rightarrow> net_conn list" where
  "sending (Sending conn) = [conn]"
| "sending _ = []"

definition run_inv :: "nat \<Rightarrow> run_state \<Rightarrow> bool" where
  "run_inv n s \<longleftrightarrow> length (rn_listeners s) = n \<and> length (rn_ReqCh s) \<le> 50 \<and>
    mset (rn_accepted s) =
      mset (rn_taken s) + mset (rn_ReqCh s) + mset (concat (map sending (rn_listeners s)))"

lemma sending_update:
  "i < length ls \<Longrightarrow> mset (concat (map sending (ls[i := x]))) + mset (sending (ls ! i)) =
    mset (concat (map sending ls)) + mset (sending x)"
  by (induction ls arbitrary: i) (auto split: nat.splits simp: ac_simps)

lemma length_sending: "length (concat (map sending ls)) \<le> length ls"
proof (induction ls)
  case (Cons l ls)
  then show ?case by (cases l) auto
qed simp

lemma run_inv_step: "run_step s s' \<Longrightarrow> run_inv n s \<Longrightarrow> run_inv n s'"
proof (induction rule: run_step.induct)
  case (conn_accepted i s conn)
  with sending_update [of i "rn_listeners s" "Sending conn"] show ?case by (simp add: run_inv_def)
next
  case (listener_closed i s)
  with sending_update [of i "rn_listeners s" ListenerDone] show ?case by (simp add: run_inv_def)
next
  case (conn_sent i s conn)
  with sending_update [of i "rn_listeners s" Accepting] show ?case by (simp add: run_inv_def)
next
  case (conn_taken s conn rest)
  then show ?case by (simp add: run_inv_def)
qed

text \<open>
  C27: In every reachable state of the listeners and workers each accepted connection is, counted
  with multiplicity, in exactly one place: held by a listener, waiting in the channel or taken by a
  worker; and at most 50 and one for each listener are waiting.
\<close>

theorem run_loses_no_connection:
  assumes "run_step\<^sup>*\<^sup>* (run_start n) s"
  shows "mset (rn_accepted s) =
      mset (rn_taken s) + mset (rn_ReqCh s) + mset (concat (map sending (rn_listeners s))) \<and>
    length (rn_accepted s) \<le> length (rn_taken s) + 50 + n"
proof -
  have "run_inv n (run_start n)" by (simp add: run_inv_def run_start_def concat_eq_Nil_conv)
  with assms have inv: "run_inv n s" by (induction rule: rtranclp_induct) (auto intro: run_inv_step)
  then have "length (rn_accepted s) = length (rn_taken s) + length (rn_ReqCh s) +
      length (concat (map sending (rn_listeners s)))"
    by (simp only: run_inv_def size_mset [symmetric] size_union)
  with inv length_sending [of "rn_listeners s"] show ?thesis by (simp add: run_inv_def)
qed

theorem run_loses_no_connection_witness:
  "\<exists>s. run_step\<^sup>*\<^sup>* (run_start 1) s \<and> rn_accepted s = [fresh_conn []] \<and>
    mset (rn_accepted s) = mset (rn_taken s) + mset (rn_ReqCh s) + mset (concat (map sending (rn_listeners s)))"
proof -
  let ?s = "(run_start 1)\<lparr>rn_listeners := [Sending (fresh_conn [])], rn_accepted := [fresh_conn []]\<rparr>"
  have "run_step (run_start 1) ?s"
    using conn_accepted [of 0 "run_start 1" "fresh_conn []"] by (simp add: run_start_def)
  then have "run_step\<^sup>*\<^sup>* (run_start 1) ?s" by (rule r_into_rtranclp)
  with run_loses_no_connection [OF this] show ?thesis by (intro exI [of _ ?s]) simp
qed

section \<open>What the workers find after the start\<close>

lemma funpow_Register:
  "((Register wrk True) ^^ n) wm = wm\<lparr>wm_workers := wm_workers wm @ replicate n (SetServers ManagerCatalog wrk)\<rparr>"
  by (induction n arbitrary: wm) (simp_all add: Register_def funpow_swap1 replicate_append_same)

lemma workers_kept:
  "wm_workers (AddBackend ds sv wm) = map (SetServers ManagerCatalog) (wm_workers wm)"
  by (simp add: AddBackend_def workerManager_update_def)

definition all_managed :: "('b, 's, 'f, 'w) BackendManager \<Rightarrow> nat \<Rightarrow> bool" where
  "all_managed m n \<longleftrightarrow> length (wm_workers (bm_workerManager m)) = n \<and>
    (\<forall>bw \<in> set (wm_workers (bm_workerManager m)). wk_serverDict bw = ManagerCatalog)"

lemma addConfigs_managed:
  "each_res (addConfig ops uni env) cfgs m = (Ok (), m') \<Longrightarrow> all_managed m n \<Longrightarrow> all_managed m' n"
proof (induction cfgs arbitrary: m)
  case (Cons c cfgs)
  from Cons.prems(1) obtain m1 where a: "addConfig ops uni env c m = (Ok (), m1)"
    "each_res (addConfig ops uni env) cfgs m1 = (Ok (), m')"
    unfolding each_res_Ok_Cons by blast
  from addConfig_eq [OF a(1)] Cons.prems(2) have "all_managed m1 n"
    by (auto simp: all_managed_def workers_kept SetServers_def)
  with Cons.IH a(2) show ?case by blast
qed simp

abbreviation started_manager ::
  "('l, 'f) worker_mode \<Rightarrow> (nat, worker_world server, 'f, worker_world) BackendManager" where
  "started_manager r \<equiv> ap_backendManager (rm_API r)"

fun worker_count :: "UltravioletConfig res \<Rightarrow> nat" where
  "worker_count (Ok cfg) = nat (uc_NumberOfWorkers cfg)"
| "worker_count _ = 0"

lemma started_workers:
  "sc_ServerDict (wm_domains (snd (workerManager_Start uni again NewWorkerManager))) = Map.empty"
  "length (wm_workers (snd (workerManager_Start uni again NewWorkerManager))) = worker_count again"
  "\<forall>bw \<in> set (wm_workers (snd (workerManager_Start uni again NewWorkerManager))). wk_serverDict bw = ManagerCatalog"
  by (cases again; simp add: workerManager_Start_def funpow_Register NewWorkerManager_def
      NewEmptyServerCatalog_def SetServers_def)+

text \<open>The manager routes the domains of these configurations for a number of workers.\<close>

definition serves_cfgs ::
  "backend_env \<Rightarrow> ServerConfig list \<Rightarrow> nat \<Rightarrow> (nat, worker_world server, 'f, worker_world) BackendManager \<Rightarrow> bool" where
  "serves_cfgs benv cfgs n m \<longleftrightarrow> routed (worker_ops benv) m \<and> bm_cfgs m = cfgs_by_id cfgs \<and>
    distinct (map ServerConfig_ID cfgs) \<and> all_managed m n"

lemma NewBackendManager_serves:
  assumes "NewBackendManager (worker_ops benv) uni env v reader
      (snd (workerManager_Start uni again NewWorkerManager)) f w = (Ok (), m)"
    and "reader f = Ok cfgs" and "VerifyConfigs cfgs = None" and "distinct (map ServerConfig_ID cfgs)"
  shows "serves_cfgs benv cfgs (worker_count again) m"
proof -
  let ?ops = "worker_ops benv" and ?n = "worker_count again"
  obtain m0 :: "(nat, worker_world server, 'a, worker_world) BackendManager" where m0_def:
    "m0 = \<lparr>bm_backends = Map.empty, bm_domains = Map.empty, bm_cfgs = Map.empty,
       bm_workerManager = snd (workerManager_Start uni again NewWorkerManager), bm_files = f, bm_world = w\<rparr>" by blast
  have m0: "routed ?ops m0" "all_managed m0 ?n"
    by (simp_all add: m0_def routed_def all_managed_def started_workers)
  from assms(1,2) obtain m1 where c: "each_res (check_config uni env) cfgs m0 = (Ok (), m1)"
    and u: "(if dom (bm_cfgs m1) = {} then each_res (addConfig ?ops uni env) cfgs m1
        else loadAllConfigs ?ops uni env v cfgs m1) = (Ok (), m)"
    by (auto simp: NewBackendManager_def BackendManager_Update_def and_then_Ok_iff m0_def)
  from checks_files [of uni env cfgs m0, unfolded c snd_conv] obtain g where "m1 = m0\<lparr>bm_files := g\<rparr>" ..
  with m0 have m1: "routed ?ops m1" "all_managed m1 ?n" "bm_cfgs m1 = Map.empty" "bm_domains m1 = Map.empty"
    by (simp_all add: all_managed_def) (simp_all add: m0_def)
  with u have a: "each_res (addConfig ?ops uni env) cfgs m1 = (Ok (), m)" by simp
  have "routed ?ops m" "bm_cfgs m = cfgs_by_id cfgs"
    using first_load_routed [OF m1(1) assms(4) _ _ _ a] VerifyConfigs_apart(2) [OF assms(3,4)] m1(3,4) by simp_all
  with addConfigs_managed [OF a m1(2)] assms(4) show ?thesis by (simp add: serves_cfgs_def)
qed

lemma serves_cfgs_domain:
  assumes "serves_cfgs benv cfgs n m" and "cfg \<in> set cfgs" and "d \<in> set (sf_Domains cfg)"
  obtains h where "bm_backends m (ServerConfig_ID cfg) = Some h"
    and "served m d = Some (BackendWorker_Server benv h)"
proof -
  from assms have r: "routed (worker_ops benv) m" and cfg: "bm_cfgs m (ServerConfig_ID cfg) = Some cfg"
    by (simp_all add: serves_cfgs_def cfgs_by_id_distinct)
  then obtain h where h: "bm_backends m (ServerConfig_ID cfg) = Some h"
    using routed_None [OF r, of "ServerConfig_ID cfg"] by auto
  from cfg assms(3) routed_domain [OF r] have "bm_domains m d = Some (ServerConfig_ID cfg)" by blast
  with routed_served [OF r, of d] h that show thesis by (simp add: worker_ops_def)
qed

lemma serves_cfgs_unknown:
  assumes "serves_cfgs benv cfgs n m" and "\<forall>cfg \<in> set cfgs. d \<notin> set (sf_Domains cfg)"
  shows "served m d = None"
proof -
  from assms have r: "routed (worker_ops benv) m" and c: "bm_cfgs m = cfgs_by_id cfgs"
    by (simp_all add: serves_cfgs_def)
  have "bm_domains m d \<noteq> Some i" for i
    using routed_domain [OF r, of d i] assms(2) c cfgs_by_id_Some [of cfgs i] by auto
  then have "bm_domains m d = None" by (cases "bm_domains m d") auto
  with routed_served [OF r, of d] show ?thesis by simp
qed

lemma serve_all_simps [simp]:
  "rm_listeners (serve_all p cfg m) = replicate (nat (uc_NumberOfListeners cfg)) (wp_listener p)"
  "rm_API (serve_all p cfg m) = \<lparr>ap_backendManager = m, ap_addr = Some (uc_APIBind cfg)\<rparr>"
  by (simp_all add: serve_all_def api_Run_def NewAPI_def)

lemma Start_Ok_iff:
  "WorkerProxy_Start benv uni env v p f w = (Ok r, f') \<longleftrightarrow>
    (\<exists>cfg f1 again f2 m. uv_call (wp_uvReader p) f = (Ok cfg, f1) \<and> uv_call (wp_uvReader p) f1 = (again, f2) \<and>
      again \<noteq> Panic \<and>
      NewBackendManager (worker_ops benv) uni env v (wp_cfgReader p)
        (snd (workerManager_Start uni again NewWorkerManager)) f2 w = (Ok (), m) \<and> f' = bm_files m \<and>
      r = serve_all p cfg m)"
proof -
  obtain r1 f1 where c1: "uv_call (wp_uvReader p) f = (r1, f1)" by force
  obtain again f2 where c2: "uv_call (wp_uvReader p) f1 = (again, f2)" by force
  obtain st wm where c3: "workerManager_Start uni again (NewWorkerManager :: worker_world server workerManager) = (st, wm)"
    by force
  then have "st = Panic \<longleftrightarrow> again = Panic" by (auto simp: workerManager_Start_def split: res.splits)
  moreover obtain q m where
    "NewBackendManager (worker_ops benv) uni env v (wp_cfgReader p) wm f2 w = (q, m)" by force
  ultimately show ?thesis
    by (cases r1; cases q) (auto simp: WorkerProxy_Start_def c1 c2 c3)
qed

lemma Start_total:
  fixes f :: 'f
  assumes "wp_uvReader p f = (Ok (uvCfg, None), f)" and "wp_cfgReader p f = Ok cfgs"
    and "VerifyConfigs cfgs = None" and "distinct (map ServerConfig_ID cfgs)"
    and "\<forall>cfg \<in> set cfgs. convertible uni env cfg"
  shows "\<exists>r f'. WorkerProxy_Start benv uni env v p f w = (Ok r, f') \<and>
    rm_listeners r = replicate (nat (uc_NumberOfListeners uvCfg)) (wp_listener p) \<and>
    ap_addr (rm_API r) = Some (uc_APIBind uvCfg) \<and>
    serves_cfgs benv cfgs (nat (uc_NumberOfWorkers uvCfg)) (started_manager r)"
proof -
  let ?wm = "snd (workerManager_Start uni (Ok uvCfg) (NewWorkerManager :: worker_world server workerManager))"
  have call: "uv_call (wp_uvReader p) f = (Ok uvCfg, f)" using assms(1) by (simp add: uv_call_def)
  obtain m where m: "NewBackendManager (worker_ops benv) uni env v (wp_cfgReader p) ?wm f w = (Ok (), m)"
  proof -
    obtain m0 :: "(nat, worker_world server, 'f, worker_world) BackendManager" where m0: "m0 =
      \<lparr>bm_backends = Map.empty, bm_domains = Map.empty, bm_cfgs = Map.empty,
       bm_workerManager = ?wm, bm_files = f, bm_world = w\<rparr>" by blast
    obtain m1 where c: "each_res (check_config uni env) cfgs m0 = (Ok (), m1)"
      using checks_total [OF assms(5)] by blast
    from checks_files [of uni env cfgs m0, unfolded c snd_conv] obtain g where "m1 = m0\<lparr>bm_files := g\<rparr>" ..
    then have "bm_cfgs m1 = Map.empty" by (simp add: m0)
    moreover obtain m where "each_res (addConfig (worker_ops benv) uni env) cfgs m1 = (Ok (), m)"
      using each_res_total [of "\<lambda>_. True" m1 cfgs "addConfig (worker_ops benv) uni env"] addConfig_total assms(5) by blast
    ultimately show thesis
      using that c [unfolded m0] assms(2) by (simp add: NewBackendManager_def BackendManager_Update_def)
  qed
  from call m NewBackendManager_serves [OF m assms(2-4)] show ?thesis
    unfolding Start_Ok_iff by (intro exI conjI) auto
qed

text \<open>
  C28: Starting the worker mode with verified configurations succeeds with the configured number of
  workers, and every worker finds for every lower-case domain of every configuration the server of
  that configuration's backend.
\<close>

theorem Start_serves:
  assumes "wp_uvReader p f = (Ok (uvCfg, None), f)" and "wp_cfgReader p f = Ok cfgs"
    and "VerifyConfigs cfgs = None" and "distinct (map ServerConfig_ID cfgs)"
    and "\<forall>cfg \<in> set cfgs. convertible uni env cfg"
  shows "\<exists>r f'. WorkerProxy_Start benv uni env v p f w = (Ok r, f') \<and>
    rm_listeners r = replicate (nat (uc_NumberOfListeners uvCfg)) (wp_listener p) \<and>
    ap_addr (rm_API r) = Some (uc_APIBind uvCfg) \<and>
    length (wm_workers (bm_workerManager (started_manager r))) = nat (uc_NumberOfWorkers uvCfg) \<and>
    (\<forall>bw \<in> set (wm_workers (bm_workerManager (started_manager r))). \<forall>cfg \<in> set cfgs. \<forall>d \<in> set (sf_Domains cfg).
      ToLower uni d = d \<longrightarrow> (\<exists>h. bm_backends (started_manager r) (ServerConfig_ID cfg) = Some h \<and>
        catalog_Find uni (catalog_at (wm_domains (bm_workerManager (started_manager r))) (wk_serverDict bw)) d =
          Ok (BackendWorker_Server benv h)))"
proof -
  from Start_total [OF assms, of benv v w] obtain r f' where
    start: "WorkerProxy_Start benv uni env v p f w = (Ok r, f')"
      "rm_listeners r = replicate (nat (uc_NumberOfListeners uvCfg)) (wp_listener p)"
      "ap_addr (rm_API r) = Some (uc_APIBind uvCfg)"
    and s: "serves_cfgs benv cfgs (nat (uc_NumberOfWorkers uvCfg)) (started_manager r)" by blast
  have found: "\<exists>h. bm_backends (started_manager r) (ServerConfig_ID cfg) = Some h \<and>
      catalog_Find uni (wm_domains (bm_workerManager (started_manager r))) d = Ok (BackendWorker_Server benv h)"
    if "cfg \<in> set cfgs" "d \<in> set (sf_Domains cfg)" "ToLower uni d = d" for cfg d
    using that serves_cfgs_domain [OF s that(1,2)] by (metis catalog_Find_Ok_iff)
  from s have "length (wm_workers (bm_workerManager (started_manager r))) = nat (uc_NumberOfWorkers uvCfg)"
    "\<forall>bw \<in> set (wm_workers (bm_workerManager (started_manager r))). wk_serverDict bw = ManagerCatalog"
    by (simp_all add: serves_cfgs_def all_managed_def)
  with start found show ?thesis by (intro exI [of _ r] exI [of _ f'] conjI) auto
qed

theorem Start_serves_witness:
  "\<exists>r h. fst (WorkerProxy_Start plain_backend_env (\<lambda>s. s) plain_env
      \<lparr>vi_old = [], vi_new = [], vi_domains = sf_Domains\<rparr>
      (NewWorkerProxy (NewUVReader DefaultUltravioletConfig) () (\<lambda>f. Ok [sample_cfg ''a'' [''x'']]))
      Map.empty empty_world) = Ok r \<and> rm_listeners r = [()] \<and>
    length (wm_workers (bm_workerManager (started_manager r))) = 10 \<and> bm_backends (started_manager r) ''a'' = Some h"
proof -
  let ?p = "NewWorkerProxy (NewUVReader DefaultUltravioletConfig) () (\<lambda>f :: string \<rightharpoonup> byte list. Ok [sample_cfg ''a'' [''x'']])"
  have v: "VerifyConfigs [sample_cfg ''a'' [''x'']] = None"
    by (simp add: VerifyConfigs_None config_ok_def sample_cfg_def)
  have x: "ToLower (\<lambda>s. s) ''x'' = ''x''"
    by (simp add: ToLower_def is_ascii_def lower_char_def is_upper_def)
  obtain r f' where m: "WorkerProxy_Start plain_backend_env (\<lambda>s. s) plain_env
      \<lparr>vi_old = [], vi_new = [], vi_domains = sf_Domains\<rparr> ?p Map.empty empty_world = (Ok r, f')"
    "rm_listeners r = [()]" "length (wm_workers (bm_workerManager (started_manager r))) = 10"
    "\<forall>bw \<in> set (wm_workers (bm_workerManager (started_manager r))). \<exists>h. bm_backends (started_manager r) ''a'' = Some h \<and>
      catalog_Find (\<lambda>s. s) (catalog_at (wm_domains (bm_workerManager (started_manager r))) (wk_serverDict bw)) ''x'' =
        Ok (BackendWorker_Server plain_backend_env h)"
    using Start_serves [of ?p Map.empty DefaultUltravioletConfig "[sample_cfg ''a'' [''x'']]" "\<lambda>s. s" plain_env
        plain_backend_env "\<lparr>vi_old = [], vi_new = [], vi_domains = sf_Domains\<rparr>" empty_world] v x
    by (auto simp: DefaultUltravioletConfig_def NewWorkerProxy_def NewUVReader_def)
  then have "\<exists>bw. bw \<in> set (wm_workers (bm_workerManager (started_manager r)))"
    by (cases "wm_workers (bm_workerManager (started_manager r))") auto
  with m show ?thesis by (intro exI [of _ r]) auto
qed

section \<open>The life of the manager\<close>

text \<open>
  The managers the program can come to: the first one, every reload with a reader that gives each file
  once, and the events of the running backends in between. A reload that panics ends the process.
\<close>

definition reads_each_once :: "('f \<Rightarrow> ServerConfig list res) \<Rightarrow> bool" where
  "reads_each_once reader \<longleftrightarrow> (\<forall>f cfgs. reader f = Ok cfgs \<longrightarrow> distinct (map ServerConfig_ID cfgs))"

inductive managed ::
  "backend_env \<Rightarrow> (string \<Rightarrow> string) \<Rightarrow> 'f os_env \<Rightarrow>
    (nat, worker_world server, 'f, worker_world) BackendManager \<Rightarrow> bool"
  for benv :: backend_env and uni :: "string \<Rightarrow> string" and env :: "'f os_env" where
  created: "reads_each_once reader \<Longrightarrow> ww_backends W = [] \<Longrightarrow> r \<noteq> Panic \<Longrightarrow>
    NewBackendManager (worker_ops benv) uni env v reader NewWorkerManager f W = (r, m) \<Longrightarrow>
    managed benv uni env m"
| reloaded: "managed benv uni env m \<Longrightarrow> reads_each_once reader \<Longrightarrow> r \<noteq> Panic \<Longrightarrow>
    BackendManager_Update (worker_ops benv) uni env v reader m = (r, m') \<Longrightarrow> managed benv uni env m'"
| worked: "managed benv uni env m \<Longrightarrow> ev \<noteq> EvClose \<Longrightarrow>
    managed benv uni env (m\<lparr>bm_world := BackendWorker_send benv ev h (bm_world m)\<rparr>)"

lemma managed_inv: "managed benv uni env m \<Longrightarrow> manager_inv worker_runs m"
proof (induction rule: managed.induct)
  case (created reader W r v f m)
  have "manager_inv worker_runs \<lparr>bm_backends = Map.empty, bm_domains = Map.empty, bm_cfgs = Map.empty,
       bm_workerManager = NewWorkerManager, bm_files = f, bm_world = W\<rparr>"
    using created(2) by (simp add: manager_inv_def worker_runs_def stored_apart_def NewWorkerManager_def
        NewEmptyServerCatalog_def)
  from worker_backends.Update_inv [OF this, of reader benv uni env v] created show ?case
    by (auto simp: NewBackendManager_def reads_each_once_def)
next
  case (reloaded m reader r v m')
  from worker_backends.Update_inv [OF reloaded(5), of reader benv uni env v] reloaded show ?case
    by (auto simp: reads_each_once_def)
next
  case (worked m ev h)
  then have "worker_runs (BackendWorker_send benv ev h (bm_world m)) = worker_runs (bm_world m)"
    by (auto simp: worker_runs_send fun_eq_iff)
  with worked show ?case by (simp add: manager_inv_def)
qed



section \<open>What a closed backend does to the clients\<close>

lemma closed_backend_panics:
  assumes "served m d = Some (BackendWorker_Server env h)" and "\<not> worker_runs (bm_world m) h"
    and "ReadConnection uni now bw c = (Ok req, c1)" and "wk_serverDict bw = ManagerCatalog"
    and "ToLower uni (rq_ServerAddr req) = d"
  shows "hd_err (fst (ProcessConnection uni now (wm_domains (bm_workerManager m)) bw c (bm_world m))) = Panic"
proof -
  have "catalog_Find uni (wm_domains (bm_workerManager m)) (rq_ServerAddr req) = Ok (BackendWorker_Server env h)"
    using assms(1,5) by (simp add: catalog_Find_Ok_iff)
  moreover have "fst (sv_ConnAction (BackendWorker_Server env h) req (bm_world m)) = Panic"
    using assms(2)
    by (simp add: BackendWorker_Server_def on_backend_def BackendServer_ConnAction_def
        BackendServer_HandleRequest_def backend_at_def)
  ultimately show ?thesis
    using assms(3,4) by (auto simp: ProcessConnection_def ProcessServer_def returned_def split: prod.splits)
qed

text \<open>
  C25: A domain that an update has added is still registered after its configuration is removed, and
  the next client that asks for it panics the process, because the request is sent on the channel of
  a closed backend.
\<close>

theorem removed_config_crashes_proxy:
  assumes "updateConfig (worker_ops benv) uni env order c1 m = (Ok (), m1)" and "ServerConfig_ID c1 = i"
    and "bm_cfgs m i = Some c0" and "ServerConfig_ID c0 = i" and "bm_backends m i = Some h"
    and "distinct (sf_Domains c1)" and "d \<in> set (sf_Domains c1)" and "d \<notin> set (sf_Domains c0)"
    and "d \<in> set order" and "newCfgs i = None"
    and "ReadConnection uni now bw c = (Ok req, c')" and "wk_serverDict bw = ManagerCatalog"
    and "ToLower uni (rq_ServerAddr req) = d"
  defines "m2 \<equiv> remove_if_gone (worker_ops benv) newCfgs i m1"
  shows "hd_err (fst (ProcessConnection uni now (wm_domains (bm_workerManager m2)) bw c (bm_world m2))) = Panic"
proof -
  have m2: "bm_world m2 = BackendWorker_send benv EvClose h (bm_world m1)"
    "served m2 d = Some (BackendWorker_Server benv h)"
    using removed_config_still_served [of "worker_ops benv" uni env order c1 m m1 i c0 h d newCfgs, OF assms(1-10)] by (simp_all add: m2_def worker_ops_def)
  then have "\<not> worker_runs (bm_world m2) h" by (simp add: worker_runs_send)
  from closed_backend_panics [OF m2(2) this assms(11-13)] show ?thesis .
qed

theorem removed_config_crashes_proxy_witness:
  "\<exists>m1 :: (nat, worker_world server, string \<rightharpoonup> byte list, worker_world) BackendManager.
    hd_err (fst (ProcessConnection (\<lambda>s. s) 0
      (wm_domains (bm_workerManager (remove_if_gone (worker_ops plain_backend_env) Map.empty ''a'' m1)))
      (SetServers ManagerCatalog (NewWorker (\<lambda>s. s) DefaultWorkerConfig))
      (fresh_conn [[7, 0, 47], [1, 97, 99, 221, 2, 3], [0, 1, 98]])
      (bm_world (remove_if_gone (worker_ops plain_backend_env) Map.empty ''a'' m1)))) = Panic"
proof -
  let ?m = "sample_manager [''a'' \<mapsto> sample_cfg ''a'' [''x'']] [''a'' \<mapsto> 0]"
  let ?bw = "SetServers ManagerCatalog (NewWorker (\<lambda>s. s) DefaultWorkerConfig) :: worker_world server BasicWorker"
  let ?hs = "\<lparr>hs_ProtocolVersion = 47, hs_ServerAddress = ''a'', hs_ServerPort = 25565, hs_NextState = 2\<rparr>"
  let ?c = "fresh_conn [[7, 0, 47], [1, 97, 99, 221, 2, 3], [0, 1, 98]]"
  obtain m1 where m1: "updateConfig (worker_ops plain_backend_env) (\<lambda>s. s) plain_env [''x'', ''a'']
      (sample_cfg ''a'' [''x'', ''a'']) ?m = (Ok (), m1)"
    using updateConfig_total [of "\<lambda>s. s" plain_env "sample_cfg ''a'' [''x'', ''a'']" ?m] by (auto simp: sample_manager_def)
  have r: "ReadConnection (\<lambda>s. s) 0 ?bw ?c = (Ok \<lparr>rq_Type = Login, rq_Handshake = ?hs,
      rq_ServerAddr = ToLower (\<lambda>s. s) (ParseServerAddress ?hs), rq_Addr = Some (nc_addr ?c),
      rq_Username = ''b''\<rparr>, ?c\<lparr>nc_in := [], nc_deadline := None\<rparr>)"
    by (rule ReadConnection_login [of _ "[[7, 0, 47], [1, 97, 99, 221, 2, 3], [0, 1, 98]]"])
      (simp_all add: login_bytes version_ok_def)
  have a: "ToLower (\<lambda>s. s) (ToLower (\<lambda>s. s) (ParseServerAddress ?hs)) = ''a''"
    by (simp add: ParseServerAddress_before before_def ForgeSeparator_def RealIPSeparator_def
        ToLower_def is_ascii_def lower_char_def is_upper_def)
  have "hd_err (fst (ProcessConnection (\<lambda>s. s) 0
      (wm_domains (bm_workerManager (remove_if_gone (worker_ops plain_backend_env) Map.empty ''a'' m1))) ?bw ?c
      (bm_world (remove_if_gone (worker_ops plain_backend_env) Map.empty ''a'' m1)))) = Panic"
    by (rule removed_config_crashes_proxy [OF m1 _ _ _ _ _ _ _ _ _ r, where i = "''a''" and ?c0.0 = "sample_cfg ''a'' [''x'']" and h = 0 and d = "''a''"])
      (simp_all add: sample_manager_def SetServers_def a)
  then show ?thesis by blast
qed

end
