(* ===== verification/UV_Speedy.thy ===== *)
theory UV_Speedy
  imports UV_Server
begin

text \<open>
  The speedy proxy as an object (proxy.go): what it holds, its start, and its handlers, which get the
  catalog the proxy has when they are started, or nil.
\<close>

section \<open>The proxy\<close>

record ('l, 'f) SpeedyProxy =
  sy_uvReader :: "'f UVConfigReader"
  sy_listener :: 'l
  sy_cfgReader :: "'f \<Rightarrow> ServerConfig list res"
  sy_serverCatalog :: "APIServer BasicServerCatalog option"

definition NewSpeedyProxy ::
  "'f UVConfigReader \<Rightarrow> 'l \<Rightarrow> ('f \<Rightarrow> ServerConfig list res) \<Rightarrow> ('l, 'f) SpeedyProxy" where
  "NewSpeedyProxy uvReader l cfgReader =
    \<lparr>sy_uvReader = uvReader, sy_listener = l, sy_cfgReader = cfgReader, sy_serverCatalog = None\<rparr>"

definition SpeedyProxy_ReloadServerCatalog ::
  "(string \<Rightarrow> string) \<Rightarrow> 'f os_env \<Rightarrow> ('l, 'f) SpeedyProxy \<Rightarrow> 'f \<Rightarrow> unit res \<times> ('l, 'f) SpeedyProxy \<times> 'f" where
  "SpeedyProxy_ReloadServerCatalog uni env p f =
    (let (cfg, f1) = uv_call (sy_uvReader p) f;
         (r, catalog) = ReloadServerCatalog uni env cfg (sy_cfgReader p f1) (sy_serverCatalog p)
     in (r, p\<lparr>sy_serverCatalog := catalog\<rparr>, f1))"

text \<open>
  The error of the first load is ignored. The loop that follows ends, with nil, only when the listener is
  closed; otherwise \<open>Start\<close> does not return, which is \<open>None\<close>.
\<close>

definition SpeedyProxy_Start ::
  "(string \<Rightarrow> string) \<Rightarrow> 'f os_env \<Rightarrow> bool \<Rightarrow> ('l, 'f) SpeedyProxy \<Rightarrow> 'f \<Rightarrow>
    unit res option \<times> ('l, 'f) SpeedyProxy \<times> 'f" where
  "SpeedyProxy_Start uni env closes p f =
    (case SpeedyProxy_ReloadServerCatalog uni env p f of
       (Panic, p1, f1) \<Rightarrow> (Some Panic, p1, f1)
     | (_, p1, f1) \<Rightarrow> (if closes then Some (Ok ()) else None, p1, f1))"

section \<open>The handlers\<close>

text \<open>The servers of the catalog as values of the interface.\<close>

definition api_catalog ::
  "proxyproto \<Rightarrow> APIServer BasicServerCatalog \<Rightarrow> uv_world server BasicServerCatalog" where
  "api_catalog pp c =
    \<lparr>sc_ServerDict = map_option (api_server pp) \<circ> sc_ServerDict c,
     sc_defaultStatusPk = sc_defaultStatusPk c, sc_verifyConnPk = sc_verifyConnPk c\<rparr>"

text \<open>\<open>FullRun\<close> calls the method \<open>Find\<close> of the catalog, which panics when it is nil.\<close>

definition speedy_handler ::
  "(string \<Rightarrow> string) \<Rightarrow> gotime \<Rightarrow> proxyproto \<Rightarrow> ('l, 'f) SpeedyProxy \<Rightarrow> net_conn \<Rightarrow> uv_world \<Rightarrow>
    handled \<times> uv_world" where
  "speedy_handler uni now pp p conn w =
    (case sy_serverCatalog p of
       Some c \<Rightarrow> FullRun uni now conn (api_catalog pp c) w
     | None \<Rightarrow>
         (case ReadStuff uni now conn of
            (Ok reqData, conn1) \<Rightarrow> (returned Panic conn1, w)
          | (Err e, conn1) \<Rightarrow> (returned (Err e) conn1, w)
          | (Panic, conn1) \<Rightarrow> (returned Panic conn1, w)))"

section \<open>Facts\<close>

lemma Reload_rejected:
  assumes "uv_call (sy_uvReader p) f = (Ok cfg, f1)" and "sy_cfgReader p f1 = Err e"
  shows "SpeedyProxy_ReloadServerCatalog uni env p f = (Err e, p, f1)"
  using assms by (simp add: SpeedyProxy_ReloadServerCatalog_def ReloadServerCatalog_def)

lemma Start_rejected:
  assumes "uv_call (sy_uvReader p) f = (Ok cfg, f1)" and "sy_cfgReader p f1 = Err e"
  shows "SpeedyProxy_Start uni env closes p f = (if closes then Some (Ok ()) else None, p, f1)"
  using Reload_rejected [OF assms] by (simp add: SpeedyProxy_Start_def)

lemma handler_nil_catalog:
  assumes "sy_serverCatalog p = None" and "fst (ReadStuff uni now conn) = Ok req"
  shows "hd_err (fst (speedy_handler uni now pp p conn w)) = Panic"
  using assms by (auto simp: speedy_handler_def returned_def split: prod.splits)

text \<open>A proxy that starts with verified configurations answers from their catalog.\<close>

lemma Start_verified:
  assumes "uv_call (sy_uvReader p) f = (Ok cfg, f1)" and "sy_cfgReader p f1 = Ok cfgs"
  shows "\<exists>catalog. SpeedyProxy_Start uni env closes p f =
      (if closes then Some (Ok ()) else None, p\<lparr>sy_serverCatalog := Some catalog\<rparr>, f1) \<and>
    sc_ServerDict (api_catalog pp catalog) d = map_option (api_server pp) (sc_ServerDict catalog d)"
proof -
  obtain catalog where "ReloadServerCatalog uni env (Ok cfg) (Ok cfgs) (sy_serverCatalog p) = (Ok (), Some catalog)"
    using ReloadServerCatalog_ok by blast
  with assms show ?thesis
    by (auto simp: SpeedyProxy_Start_def SpeedyProxy_ReloadServerCatalog_def api_catalog_def)
qed

end
