(* ===== verification/V2_Packet.thy ===== *)
theory V2_Packet
  imports Wrk_Backend
begin

text \<open>
  The second implementation, package ultravioletv2: its types and packets (src/type.go, src/packet.go).
  It reads from any \<open>io.Reader\<close>, one read for a byte and one for the bytes of a string.
\<close>

section \<open>Readers\<close>

text \<open>
  A reader is a connection; a reader over bytes in memory delivers them as one segment.
\<close>

definition mem_reader :: "byte list \<Rightarrow> net_conn" where
  "mem_reader bs = \<lparr>nc_in = (if bs = [] then [] else [bs]), nc_end = ErrEOF, nc_out = [], nc_werr = None,
    nc_closed = False, nc_deadline = None, nc_addr = []\<rparr>"

definition unread :: "net_conn \<Rightarrow> byte list" where
  "unread r = concat (nc_in r)"

section \<open>Reading types\<close>

text \<open>\<open>ReadByte\<close> drops the error of \<open>binary.Read\<close>: at the end of the input it returns 0 and no error.\<close>

definition v2_ReadByte :: "net_conn \<Rightarrow> byte \<times> net_conn" where
  "v2_ReadByte r =
    (case ReadFull conn_Read 1 r of
       (Ok bb, r1) \<Rightarrow> (hd bb, r1)
     | (_, r1) \<Rightarrow> (0, r1))"

lemma conn_Read_length:
  "conn_Read n r = ((bb, e), r1) \<Longrightarrow> length (unread r) = length bb + length (unread r1)"
  by (auto simp: conn_Read_def unread_def split: list.splits if_splits)

lemma v2_ReadByte_length:
  assumes "v2_ReadByte r = (b, r1)"
  shows "length (unread r1) \<le> length (unread r)" and "b \<noteq> 0 \<Longrightarrow> length (unread r1) < length (unread r)"
proof -
  have two: "Suc 1 = Suc (Suc 0)" by simp
  have "length (unread r1) \<le> length (unread r) \<and> (b \<noteq> 0 \<longrightarrow> length (unread r1) < length (unread r))"
    using assms
    by (auto simp: v2_ReadByte_def ReadFull_def split: prod.splits option.splits if_splits res.splits
        dest!: conn_Read_length)
  then show "length (unread r1) \<le> length (unread r)" "b \<noteq> 0 \<Longrightarrow> length (unread r1) < length (unread r)"
    by auto
qed

text \<open>
  \<open>ReadVarInt\<close> goes on as long as the bytes have their high bit set; shifts past the 64 bits of an
  \<open>int\<close> give 0. As no byte read can fail, it never fails.
\<close>

function v2_ReadVarInt_loop :: "nat \<Rightarrow> go_int \<Rightarrow> net_conn \<Rightarrow> go_int \<times> net_conn" where
  "v2_ReadVarInt_loop i v r =
    (let (b, r1) = v2_ReadByte r; v1 = v OR push_bit (7 * i) (ucast (b AND 0x7f)) in
     if b AND 0x80 = 0 then (v1, r1) else v2_ReadVarInt_loop (Suc i) v1 r1)"
  by pat_completeness auto

termination
  by (relation "measure (\<lambda>(i, v, r). length (unread r))") (auto dest!: sym [of _ "v2_ReadByte _"] dest: v2_ReadByte_length)

declare v2_ReadVarInt_loop.simps [simp del]

definition v2_ReadVarInt :: "net_conn \<Rightarrow> go_int \<times> net_conn" where
  "v2_ReadVarInt r = v2_ReadVarInt_loop 0 0 r"

text \<open>
  \<open>make\<close> panics for a negative length and for one beyond the address space. The one read that follows
  may return fewer bytes; the rest of the slice stays zero.
\<close>

definition read_once :: "go_int \<Rightarrow> net_conn \<Rightarrow> byte list res \<times> net_conn" where
  "read_once n r =
    (if sint n < 0 \<or> 2 ^ 48 < sint n then (Panic, r)
     else (case conn_Read (nat (sint n)) r of
             ((bb, None), r1) \<Rightarrow> (Ok (bb @ replicate (nat (sint n) - length bb) 0), r1)
           | ((bb, Some e), r1) \<Rightarrow> (Err e, r1)))"

definition v2_ReadString :: "net_conn \<Rightarrow> string res \<times> net_conn" where
  "v2_ReadString r =
    (let (n, r1) = v2_ReadVarInt r
     in and_then (read_once n r1) (\<lambda>bb r2. (Ok (bytes_str bb), r2)))"

definition v2_ReadShort :: "net_conn \<Rightarrow> 16 word res \<times> net_conn" where
  "v2_ReadShort r = and_then (ReadFull conn_Read 2 r) (\<lambda>bb r1. (Ok (be16 bb), r1))"

section \<open>Writing types\<close>

text \<open>
  The bytes of \<open>WriteVarInt\<close>. The shift keeps the sign, so the loop never ends for a negative number;
  \<open>None\<close> stands for this.
\<close>

partial_function (option) v2_VarInt_bytes :: "go_int \<Rightarrow> byte list option" where
  "v2_VarInt_bytes varInt =
    (let b = varInt AND 0x7F; varInt' = signed_drop_bit 7 varInt in
     if varInt' \<noteq> 0 then Option.bind (v2_VarInt_bytes varInt') (\<lambda>bb. Some (ucast (b OR 0x80) # bb))
     else Some [ucast b])"

definition v2_String_bytes :: "string \<Rightarrow> byte list option" where
  "v2_String_bytes s =
    map_option (\<lambda>n. n @ str_bytes s) (v2_VarInt_bytes (word_of_nat (length (str_bytes s))))"

definition v2_Short_bytes :: "16 word \<Rightarrow> byte list" where
  "v2_Short_bytes short = UnsignedShort_Encode short"

section \<open>Handshakes\<close>

record ServerBoundHandshakePacket =
  hp_PacketId :: byte
  hp_ProtocolVersion :: go_int
  hp_ServerAddress :: string
  hp_ServerPort :: "16 word"
  hp_NextState :: go_int

definition zero_handshake_packet :: ServerBoundHandshakePacket where
  "zero_handshake_packet = \<lparr>hp_PacketId = 0, hp_ProtocolVersion = 0, hp_ServerAddress = [],
    hp_ServerPort = 0, hp_NextState = 0\<rparr>"

text \<open>The bytes \<open>WriteTo\<close> writes; \<open>None\<close> if it does not end.\<close>

definition v2_Handshake_bytes :: "ServerBoundHandshakePacket \<Rightarrow> byte list option" where
  "v2_Handshake_bytes pk =
    Option.bind (v2_VarInt_bytes (hp_ProtocolVersion pk)) (\<lambda>version.
    Option.bind (v2_String_bytes (hp_ServerAddress pk)) (\<lambda>addr.
    Option.bind (v2_VarInt_bytes (hp_NextState pk)) (\<lambda>nextState.
      let l = 1; m = length version; n = length addr; o2 = 2; p = length nextState;
          pkLen = l + m + n + o2 + p in
      map_option (\<lambda>q. q @ [hp_PacketId pk] @ version @ addr @ v2_Short_bytes (hp_ServerPort pk) @ nextState)
        (v2_VarInt_bytes (word_of_nat pkLen)))))"

text \<open>\<open>ReadServerBoundHandshake\<close> returns the fields read so far with the error.\<close>

definition ReadServerBoundHandshake ::
  "net_conn \<Rightarrow> (ServerBoundHandshakePacket \<times> go_error option) res \<times> net_conn" where
  "ReadServerBoundHandshake r =
    (let (packetId, r1) = v2_ReadByte r;
         (version, r2) = v2_ReadVarInt r1;
         pk = zero_handshake_packet\<lparr>hp_PacketId := packetId, hp_ProtocolVersion := version\<rparr> in
     case v2_ReadString r2 of
       (Ok addr, r3) \<Rightarrow>
         (let pk1 = pk\<lparr>hp_ServerAddress := addr\<rparr> in
          case v2_ReadShort r3 of
            (Ok port, r4) \<Rightarrow>
              (let (nextState, r5) = v2_ReadVarInt r4
               in (Ok (pk1\<lparr>hp_ServerPort := port, hp_NextState := nextState\<rparr>, None), r5))
          | (Err e, r4) \<Rightarrow> (Ok (pk1, Some e), r4)
          | (Panic, r4) \<Rightarrow> (Panic, r4))
     | (Err e, r3) \<Rightarrow> (Ok (pk, Some e), r3)
     | (Panic, r3) \<Rightarrow> (Panic, r3))"

section \<open>Unconnected messages\<close>

definition IDUnconnectedPing :: byte where "IDUnconnectedPing = 0x01"
definition IDUnconnectedPingOpenConnections :: byte where "IDUnconnectedPingOpenConnections = 0x02"
definition IDUnconnectedPong :: byte where "IDUnconnectedPong = 0x1c"

definition UnconnectedMessageSequence :: "byte list" where
  "UnconnectedMessageSequence =
    [0x00, 0xff, 0xff, 0x00, 0xfe, 0xfe, 0xfe, 0xfe, 0xfd, 0xfd, 0xfd, 0xfd, 0x12, 0x34, 0x56, 0x78]"

record UnconnectedPing =
  up_SendTimestamp :: "64 word"
  up_Magic :: "byte list"
  up_ClientGUID :: "64 word"

definition zero_ping :: UnconnectedPing where
  "zero_ping = \<lparr>up_SendTimestamp = 0, up_Magic = replicate 16 0, up_ClientGUID = 0\<rparr>"

definition UnconnectedPing_bytes :: "UnconnectedPing \<Rightarrow> byte list" where
  "UnconnectedPing_bytes pk =
    [IDUnconnectedPing] @ Long_Encode (up_SendTimestamp pk) @ UnconnectedMessageSequence @
    Long_Encode (up_ClientGUID pk)"

text \<open>
  \<open>binary.Read\<close> of a value of \<open>n\<close> bytes: with an error the variable keeps its value. The reads of \<open>Read\<close>
  but the last are unchecked.
\<close>

definition binary_Read :: "nat \<Rightarrow> (byte list \<Rightarrow> 'a) \<Rightarrow> 'a \<Rightarrow> net_conn \<Rightarrow> 'a \<times> go_error option \<times> net_conn" where
  "binary_Read n decode old r =
    (case ReadFull conn_Read n r of
       (Ok bb, r1) \<Rightarrow> (decode bb, None, r1)
     | (Err e, r1) \<Rightarrow> (old, Some e, r1)
     | (Panic, r1) \<Rightarrow> (old, None, r1))"

definition UnconnectedPing_Read :: "UnconnectedPing \<Rightarrow> net_conn \<Rightarrow> UnconnectedPing \<times> go_error option \<times> net_conn" where
  "UnconnectedPing_Read pk r =
    (let (timestamp, _, r1) = binary_Read 8 be64 (up_SendTimestamp pk) r;
         (magic, _, r2) = binary_Read 16 (\<lambda>bb. bb) (up_Magic pk) r1;
         (guid, err, r3) = binary_Read 8 be64 (up_ClientGUID pk) r2
     in (\<lparr>up_SendTimestamp = timestamp, up_Magic = magic, up_ClientGUID = guid\<rparr>, err, r3))"

record UnconnectedPong =
  uo_SendTimestamp :: "64 word"
  uo_Magic :: "byte list"
  uo_ServerGUID :: "64 word"
  uo_Data :: string

definition UnconnectedPong_bytes :: "UnconnectedPong \<Rightarrow> byte list" where
  "UnconnectedPong_bytes pk =
    [IDUnconnectedPong] @ Long_Encode (uo_SendTimestamp pk) @ Long_Encode (uo_ServerGUID pk) @
    UnconnectedMessageSequence @ v2_Short_bytes (word_of_nat (length (str_bytes (uo_Data pk)))) @
    str_bytes (uo_Data pk)"

definition UnconnectedPong_Read ::
  "UnconnectedPong \<Rightarrow> net_conn \<Rightarrow> (UnconnectedPong \<times> go_error option) res \<times> net_conn" where
  "UnconnectedPong_Read pk r =
    (let (timestamp, _, r1) = binary_Read 8 be64 (uo_SendTimestamp pk) r;
         (guid, _, r2) = binary_Read 8 be64 (uo_ServerGUID pk) r1;
         (magic, _, r3) = binary_Read 16 (\<lambda>bb. bb) (uo_Magic pk) r2;
         (l, _, r4) = binary_Read 2 be16 0 r3;
         pk1 = \<lparr>uo_SendTimestamp = timestamp, uo_Magic = magic, uo_ServerGUID = guid, uo_Data = uo_Data pk\<rparr> in
     if sint l < 0 then (Panic, r4)
     else (case conn_Read (nat (sint l)) r4 of
             ((bb, err), r5) \<Rightarrow> (Ok (pk1\<lparr>uo_Data := bytes_str bb\<rparr>, err), r5)))"


section \<open>Facts about the encodings\<close>

lemma sint_signed_drop7: "sint (signed_drop_bit 7 (v :: go_int)) = sint v div 128"
  by (simp add: sint_signed_drop_bit_eq drop_bit_eq_div)

lemma v2_VarInt_bytes_last: "sint v div 128 = 0 \<Longrightarrow> v2_VarInt_bytes v = Some [ucast (take_bit 7 v)]"
proof -
  assume "sint v div 128 = 0"
  then have "sint (signed_drop_bit 7 v) = sint (0 :: go_int)" by (simp add: sint_signed_drop7)
  then have "signed_drop_bit 7 v = 0" by (simp only: signed_word_eqI)
  then show ?thesis by (subst v2_VarInt_bytes.simps) (simp add: and_7F)
qed

lemma v2_VarInt_bytes_more:
  "sint v div 128 \<noteq> 0 \<Longrightarrow> v2_VarInt_bytes v =
    Option.bind (v2_VarInt_bytes (signed_drop_bit 7 v)) (\<lambda>bb. Some (ucast (take_bit 7 v OR 0x80) # bb))"
proof -
  assume "sint v div 128 \<noteq> 0"
  then have "signed_drop_bit 7 v \<noteq> 0" using sint_signed_drop7 [of v] by auto
  then show ?thesis by (subst v2_VarInt_bytes.simps) (simp add: and_7F)
qed

text \<open>What ends is not negative: the partial correctness that the option type gives.\<close>

lemma v2_VarInt_bytes_nonneg: "v2_VarInt_bytes v = Some bb \<Longrightarrow> 0 \<le> sint (v :: go_int)"
proof (rule v2_VarInt_bytes.raw_induct [where P = "\<lambda>v bb. 0 \<le> sint v"])
  fix f bb and v :: go_int
  assume IH: "\<And>(v :: go_int) bb. f v = Some bb \<Longrightarrow> 0 \<le> sint v"
    and eq: "(let b = v AND 0x7F; v' = signed_drop_bit 7 v in
      if v' \<noteq> 0 then Option.bind (f v') (\<lambda>bb. Some (ucast (b OR 0x80) # bb)) else Some [ucast b]) = Some bb"
  have "0 \<le> sint v div 128"
  proof (cases "signed_drop_bit 7 v = 0")
    case True
    then show ?thesis using sint_signed_drop7 [of v] by simp
  next
    case False
    with eq obtain bs where "f (signed_drop_bit 7 v) = Some bs" by (auto simp: Let_def bind_eq_Some_conv)
    from IH [OF this] show ?thesis by (simp add: sint_signed_drop7)
  qed
  then show "0 \<le> sint v" by simp
qed assumption

lemma v2_VarInt_bytes_induct [consumes 1, case_names last more]:
  assumes "0 \<le> sint (v :: go_int)"
    and "\<And>v. sint v div 128 = 0 \<Longrightarrow> P v"
    and "\<And>v. 0 < sint v div 128 \<Longrightarrow> P (signed_drop_bit 7 v) \<Longrightarrow> P v"
  shows "P v"
  using assms(1)
proof (induction "nat (sint v)" arbitrary: v rule: less_induct)
  case less
  show ?case
  proof (cases "sint v div 128 = 0")
    case False
    with less.prems have pos: "0 < sint v div 128" by simp
    then have "sint v div 128 < sint v" "0 \<le> sint v div 128"
      using div_mult_mod_eq [of "sint v" 128] pos_mod_sign [of 128 "sint v"] by linarith+
    with pos have "P (signed_drop_bit 7 v)"
      by (intro less.hyps) (simp_all add: sint_signed_drop7)
    with pos show ?thesis by (rule assms(3))
  qed (rule assms(2))
qed

lemma v2_VarInt_bytes_total: "0 \<le> sint v \<Longrightarrow> \<exists>bb. v2_VarInt_bytes v = Some bb \<and> bb \<noteq> []"
  by (induction v rule: v2_VarInt_bytes_induct) (auto simp: v2_VarInt_bytes_last v2_VarInt_bytes_more)

lemma v2_VarInt_bytes_not_Nil: "v2_VarInt_bytes v = Some bb \<Longrightarrow> bb \<noteq> []"
  using v2_VarInt_bytes_nonneg v2_VarInt_bytes_total by fastforce


text \<open>On the numbers of 32 bits the loop writes what the first implementation writes.\<close>

lemma sint_ucast32 [simp]: "sint (ucast (w :: varint) :: go_int) = uint w"
proof -
  have "uint w < 2 ^ 32" using uint_lt2p [of w] by simp
  then have lt: "uint w < 2 ^ 63" by simp
  have "signed_take_bit 63 (uint w) = uint w"
    by (rule signed_take_bit_int_eq_self [OF order.trans [OF _ uint_ge_0] lt]) simp
  moreover have "take_bit 64 (uint w) = uint w"
    using lt by (intro take_bit_int_eq_self uint_ge_0) simp
  ultimately show ?thesis by (simp add: sint_uint unsigned_ucast_eq)
qed

lemma signed_drop7_ucast: "signed_drop_bit 7 (ucast (w :: varint) :: go_int) = ucast (drop_bit 7 w)"
proof -
  have "sint (signed_drop_bit 7 (ucast w :: go_int)) = sint (ucast (drop_bit 7 w) :: go_int)"
    by (simp only: sint_signed_drop7 sint_ucast32) (simp add: drop_bit_eq_div uint_div)
  then show ?thesis by (rule signed_word_eqI)
qed

lemma drop7_eq_0_iff: "drop_bit 7 (w :: varint) = 0 \<longleftrightarrow> uint w div 128 = 0"
  by (simp add: word_uint_eq_iff drop_bit_eq_div uint_div)

lemma group_ucast:
  "(ucast (take_bit 7 (ucast (w :: varint) :: go_int)) :: byte) = ucast (take_bit 7 w)"
  "(ucast (take_bit 7 (ucast (w :: varint) :: go_int) OR 0x80) :: byte) = ucast (take_bit 7 w OR 0x80)"
  by (rule bit_word_eqI; auto simp: bit_simps)+

lemma v2_VarInt_bytes_Encode: "v2_VarInt_bytes (ucast w) = Some (VarInt_Encode w)"
proof (induction w rule: VarInt_Encode_induct)
  case (last w)
  then have "sint (ucast w :: go_int) div 128 = 0" by (simp add: drop7_eq_0_iff)
  from v2_VarInt_bytes_last [OF this] VarInt_Encode_last [OF last] show ?case by (simp add: group_ucast)
next
  case (more w)
  then have "sint (ucast w :: go_int) div 128 \<noteq> 0" by (simp add: drop7_eq_0_iff)
  from v2_VarInt_bytes_more [OF this] VarInt_Encode_more [OF more(1)] more(2) show ?case
    by (simp add: group_ucast signed_drop7_ucast)
qed

section \<open>Reading what was written\<close>

text \<open>A reader whose next bytes are \<open>bs\<close>, delivered in one segment.\<close>

definition seg_in :: "byte list \<Rightarrow> byte list list \<Rightarrow> byte list list" where
  "seg_in bs segs = (if bs = [] then segs else bs # segs)"

lemma seg_in_Nil [simp]: "seg_in [] segs = segs"
  by (simp add: seg_in_def)

lemma mem_reader_seg_in: "mem_reader bs = (mem_reader [])\<lparr>nc_in := seg_in bs []\<rparr>"
  by (simp add: mem_reader_def seg_in_def)

lemma conn_Read_seg:
  assumes "data \<noteq> [] \<or> bs \<noteq> []"
  shows "conn_Read (length data) (r\<lparr>nc_in := seg_in (data @ bs) segs\<rparr>) = ((data, None), r\<lparr>nc_in := seg_in bs segs\<rparr>)"
  using assms by (cases bs) (auto simp: conn_Read_def seg_in_def)

lemma ReadFull_seg:
  assumes "length data = n" and "0 < n"
  shows "ReadFull conn_Read n (r\<lparr>nc_in := seg_in (data @ bs) segs\<rparr>) = (Ok data, r\<lparr>nc_in := seg_in bs segs\<rparr>)"
proof -
  from assms obtain m where m: "n = Suc m" by (cases n) auto
  have "data \<noteq> []" using assms by auto
  with conn_Read_seg [of data bs segs r] assms show ?thesis by (simp add: ReadFull_def m)
qed

lemma v2_ReadByte_seg: "v2_ReadByte (r\<lparr>nc_in := seg_in (b # bs) segs\<rparr>) = (b, r\<lparr>nc_in := seg_in bs segs\<rparr>)"
  using ReadFull_seg [of "[b]" 1 bs segs r] by (simp add: v2_ReadByte_def)

lemma v2_ReadByte_end: "nc_in r = [] \<Longrightarrow> v2_ReadByte r = (0, r)"
  by (simp add: v2_ReadByte_def ReadFull_def conn_Read_def)

lemma v2_loop_step:
  "v2_ReadVarInt_loop i v (r\<lparr>nc_in := seg_in (b # bs) segs\<rparr>) =
    (let v1 = v OR push_bit (7 * i) (ucast (take_bit 7 b)) in
     if bit b 7 then v2_ReadVarInt_loop (Suc i) v1 (r\<lparr>nc_in := seg_in bs segs\<rparr>)
     else (v1, r\<lparr>nc_in := seg_in bs segs\<rparr>))"
  by (subst v2_ReadVarInt_loop.simps) (simp only: v2_ReadByte_seg Let_def prod.case and_80 and_7F if_not_P if_False split: if_splits, simp)

lemma v2_group_low: "ucast (take_bit 7 (ucast (take_bit 7 (x :: go_int) OR 0x80) :: byte)) = take_bit 7 x"
proof (rule bit_word_eqI)
  fix n
  show "bit (ucast (take_bit 7 (ucast (take_bit 7 x OR 0x80) :: byte)) :: go_int) n = bit (take_bit 7 x) n"
    using bit_exp_iff [of 7 n, where ?'a = go_int] by (auto simp: bit_simps)
qed

lemma v2_group_last: "ucast (take_bit 7 (ucast (take_bit 7 (x :: go_int)) :: byte)) = take_bit 7 x"
  by (rule bit_word_eqI) (auto simp: bit_simps)

lemma v2_group_high: "bit (ucast ((x :: go_int) OR 0x80) :: byte) 7"
proof -
  have "bit (x OR 0x80) 7" using bit_exp_iff [of 7 7, where ?'a = go_int] by (simp add: bit_or_iff)
  then show ?thesis by (simp add: bit_ucast_iff)
qed

lemma v2_ReadVarInt_loop_bytes:
  assumes "v2_VarInt_bytes v = Some bb"
  shows "v2_ReadVarInt_loop i acc (r\<lparr>nc_in := seg_in (bb @ bs) segs\<rparr>) =
    (acc OR push_bit (7 * i) v, r\<lparr>nc_in := seg_in bs segs\<rparr>)"
  using v2_VarInt_bytes_nonneg [OF assms] assms
proof (induction v arbitrary: i acc bb rule: v2_VarInt_bytes_induct)
  case (last v)
  then have small: "signed_drop_bit 7 v = 0"
    using sint_signed_drop7 [of v] by (intro signed_word_eqI) simp
  have "take_bit 7 v = v"
  proof (rule bit_word_eqI)
    fix n assume "n < LENGTH(64)"
    with small have "7 \<le> n \<Longrightarrow> \<not> bit v n"
      using bit_signed_drop_bit_iff [of 7 v "n - 7"] by (simp split: if_splits)
    then show "bit (take_bit 7 v) n = bit v n" by (cases "7 \<le> n") (auto simp: bit_simps)
  qed
  moreover have "bb = [ucast (take_bit 7 v)]" using last by (simp add: v2_VarInt_bytes_last)
  moreover have "\<not> bit (ucast (take_bit 7 v) :: byte) 7" by (simp add: bit_simps)
  ultimately show ?case using v2_group_last [of v]
    by (simp only: append.simps v2_loop_step Let_def if_False)
next
  case (more v)
  then obtain bb' where bb': "v2_VarInt_bytes (signed_drop_bit 7 v) = Some bb'"
    and bb: "bb = ucast (take_bit 7 v OR 0x80) # bb'"
    by (auto simp: v2_VarInt_bytes_more bind_eq_Some_conv)
  have "take_bit 7 v OR push_bit 7 (signed_drop_bit 7 v) = v"
  proof (rule bit_word_eqI)
    fix n assume "n < LENGTH(64)"
    then show "bit (take_bit 7 v OR push_bit 7 (signed_drop_bit 7 v)) n = bit v n"
      by (cases "7 \<le> n") (auto simp: bit_simps)
  qed
  then have "push_bit (7 * i) (take_bit 7 v) OR push_bit (7 * Suc i) (signed_drop_bit 7 v) = push_bit (7 * i) v"
    by (metis push_bit_or push_bit_push_bit add.commute mult_Suc_right)
  with more.IH [OF bb'] show ?case
    by (simp add: bb v2_loop_step v2_group_low v2_group_high or.assoc)
qed

lemma v2_ReadVarInt_bytes:
  "v2_VarInt_bytes v = Some bb \<Longrightarrow>
   v2_ReadVarInt (r\<lparr>nc_in := seg_in (bb @ bs) segs\<rparr>) = (v, r\<lparr>nc_in := seg_in bs segs\<rparr>)"
  using v2_ReadVarInt_loop_bytes [of v bb 0 0 bs segs r] by (simp add: v2_ReadVarInt_def)


lemma sint_of_nat64: "n < 2 ^ 63 \<Longrightarrow> sint (word_of_nat n :: go_int) = int n"
proof -
  assume n: "n < 2 ^ 63"
  then have le: "int n < 2 ^ 63" by simp
  have "signed_take_bit 63 (int n) = int n"
    by (rule signed_take_bit_int_eq_self [OF _ le]) simp
  then show ?thesis by (simp add: signed_of_nat)
qed

lemma v2_String_bytes_Some:
  "length s < 2 ^ 63 \<Longrightarrow> \<exists>bb. v2_VarInt_bytes (word_of_nat (length s)) = Some bb \<and> v2_String_bytes s = Some (bb @ str_bytes s)"
  using v2_VarInt_bytes_total [of "word_of_nat (length s)"] by (auto simp: v2_String_bytes_def sint_of_nat64)

lemma read_once_seg:
  assumes "length data \<le> 2 ^ 48" and "data \<noteq> [] \<or> bs \<noteq> []"
  shows "read_once (word_of_nat (length data)) (r\<lparr>nc_in := seg_in (data @ bs) segs\<rparr>) =
    (Ok data, r\<lparr>nc_in := seg_in bs segs\<rparr>)"
  using conn_Read_seg [OF assms(2), where segs = segs and r = r] assms(1) by (simp add: read_once_def sint_of_nat64)

lemma v2_ReadString_bytes:
  assumes "v2_String_bytes s = Some bb" and "length s \<le> 2 ^ 48" and "bs \<noteq> []"
  shows "v2_ReadString (r\<lparr>nc_in := seg_in (bb @ bs) segs\<rparr>) = (Ok s, r\<lparr>nc_in := seg_in bs segs\<rparr>)"
proof -
  from assms obtain n where n: "v2_VarInt_bytes (word_of_nat (length s)) = Some n" and bb: "bb = n @ str_bytes s"
    by (auto simp: v2_String_bytes_def)
  from read_once_seg [of "str_bytes s" bs, where segs = segs and r = r] v2_ReadVarInt_bytes [OF n, where bs = "str_bytes s @ bs" and segs = segs and r = r] assms
  show ?thesis by (simp add: v2_ReadString_def bb)
qed

lemma v2_ReadShort_bytes:
  "v2_ReadShort (r\<lparr>nc_in := seg_in (v2_Short_bytes n @ bs) segs\<rparr>) = (Ok n, r\<lparr>nc_in := seg_in bs segs\<rparr>)"
  using ReadFull_seg [of "v2_Short_bytes n" 2 bs segs r]
  by (simp add: v2_ReadShort_def v2_Short_bytes_def be16_Encode)

text \<open>The data of a handshake packet, that is, what follows its length.\<close>

definition v2_handshake_data :: "ServerBoundHandshakePacket \<Rightarrow> byte list option" where
  "v2_handshake_data pk =
    Option.bind (v2_VarInt_bytes (hp_ProtocolVersion pk)) (\<lambda>version.
    Option.bind (v2_String_bytes (hp_ServerAddress pk)) (\<lambda>addr.
    Option.bind (v2_VarInt_bytes (hp_NextState pk)) (\<lambda>nextState.
      Some ([hp_PacketId pk] @ version @ addr @ v2_Short_bytes (hp_ServerPort pk) @ nextState))))"

lemma v2_Handshake_bytes_data:
  "v2_Handshake_bytes pk =
    Option.bind (v2_handshake_data pk) (\<lambda>data. map_option (\<lambda>q. q @ data) (v2_VarInt_bytes (word_of_nat (length data))))"
  by (simp add: v2_Handshake_bytes_def v2_handshake_data_def v2_Short_bytes_def Let_def add.assoc split: bind_splits)

lemma v2_handshake_data_Some:
  assumes "0 \<le> sint (hp_ProtocolVersion pk)" and "0 \<le> sint (hp_NextState pk)" and "length (hp_ServerAddress pk) < 2 ^ 63"
  shows "\<exists>data. v2_handshake_data pk = Some data \<and> data \<noteq> []"
  using v2_VarInt_bytes_total [OF assms(1)] v2_VarInt_bytes_total [OF assms(2)] v2_String_bytes_Some [OF assms(3)]
  by (auto simp: v2_handshake_data_def)

lemma ReadServerBoundHandshake_data:
  assumes "v2_handshake_data pk = Some data" and "length (hp_ServerAddress pk) \<le> 2 ^ 48"
  shows "ReadServerBoundHandshake (r\<lparr>nc_in := seg_in (data @ bs) segs\<rparr>) = (Ok (pk, None), r\<lparr>nc_in := seg_in bs segs\<rparr>)"
proof -
  from assms obtain version addr nextState where
    b: "v2_VarInt_bytes (hp_ProtocolVersion pk) = Some version" "v2_String_bytes (hp_ServerAddress pk) = Some addr"
      "v2_VarInt_bytes (hp_NextState pk) = Some nextState"
    and data: "data = hp_PacketId pk # version @ addr @ v2_Short_bytes (hp_ServerPort pk) @ nextState"
    by (auto simp: v2_handshake_data_def bind_eq_Some_conv)
  let ?after_addr = "v2_Short_bytes (hp_ServerPort pk) @ nextState @ bs"
  have "?after_addr \<noteq> []" by (simp add: v2_Short_bytes_def UnsignedShort_Encode_def)
  note reads = v2_ReadByte_seg v2_ReadVarInt_bytes [OF b(1)] v2_ReadVarInt_bytes [OF b(3)]
    v2_ReadString_bytes [OF b(2) assms(2) \<open>?after_addr \<noteq> []\<close>] v2_ReadShort_bytes
  show ?thesis unfolding ReadServerBoundHandshake_def data append.simps append_assoc
    by (simp only: reads Let_def prod.case res.case) (simp add: zero_handshake_packet_def)
qed

section \<open>Agreement with the first implementation\<close>

lemma of_nat64_ucast: "n < 2 ^ 32 \<Longrightarrow> (word_of_nat n :: go_int) = ucast (word_of_nat n :: varint)"
  by (rule word_unat_eq_iff [THEN iffD2]) (simp add: unat_of_nat unsigned_ucast_eq take_bit_nat_eq_self)

lemma v2_VarInt_bytes_of_nat:
  "n < 2 ^ 32 \<Longrightarrow> v2_VarInt_bytes (word_of_nat n) = Some (VarInt_Encode (word_of_nat n))"
  by (simp add: of_nat64_ucast v2_VarInt_bytes_Encode)

lemma v2_handshake_data_Marshal:
  assumes "length (hp_ServerAddress pk) < 2 ^ 32" and "hp_ProtocolVersion pk = ucast v" and "hp_NextState pk = ucast (n :: byte)"
  shows "v2_handshake_data pk = Some (hp_PacketId pk # pk_Data (Handshake_Marshal
      \<lparr>hs_ProtocolVersion = ucast (v :: varint), hs_ServerAddress = hp_ServerAddress pk,
       hs_ServerPort = hp_ServerPort pk, hs_NextState = n\<rparr>))"
proof -
  have n: "(ucast n :: go_int) = ucast (ucast n :: varint)" by (rule bit_word_eqI) (auto simp: bit_simps dest: bit_imp_le_length)
  have v: "ucast (ucast v :: go_int) = v" by (rule bit_word_eqI) (auto simp: bit_simps)
  show ?thesis using assms
    by (simp add: v2_handshake_data_def v2_String_bytes_def n v2_VarInt_bytes_Encode v2_VarInt_bytes_of_nat
        Handshake_Marshal_def MarshalPacket_def String_Encode_def v2_Short_bytes_def v)
qed

lemma length_handshake_data:
  "length (pk_Data (Handshake_Marshal hs)) \<le> length (hs_ServerAddress hs) + 17"
  using length_VarInt_Encode_le5 [of "ucast (hs_ProtocolVersion hs)"] length_VarInt_Encode_le5 [of "ucast (hs_NextState hs)"]
    length_VarInt_Encode_le5 [of "word_of_nat (length (hs_ServerAddress hs))"]
  by (simp add: Handshake_Marshal_def MarshalPacket_def String_Encode_def append_fields_concat)

text \<open>
  C33: The handshake writer of the second implementation writes the bytes the first implementation
  marshals, for every version of 32 bits, address, port and next state.
\<close>

theorem v2_handshake_bytes_agree:
  assumes "length addr < 2 ^ 31"
  shows "v2_Handshake_bytes \<lparr>hp_PacketId = 0, hp_ProtocolVersion = ucast (v :: varint), hp_ServerAddress = addr,
      hp_ServerPort = port, hp_NextState = ucast (n :: byte)\<rparr> =
    Some (Packet_Marshal (Handshake_Marshal \<lparr>hs_ProtocolVersion = ucast v, hs_ServerAddress = addr,
      hs_ServerPort = port, hs_NextState = n\<rparr>))"
proof -
  let ?pk = "\<lparr>hp_PacketId = 0, hp_ProtocolVersion = ucast v, hp_ServerAddress = addr,
      hp_ServerPort = port, hp_NextState = ucast n\<rparr>"
  let ?hs = "\<lparr>hs_ProtocolVersion = ucast v, hs_ServerAddress = addr, hs_ServerPort = port, hs_NextState = n\<rparr>"
  have "v2_handshake_data ?pk = Some (0 # pk_Data (Handshake_Marshal ?hs))"
    using v2_handshake_data_Marshal [of ?pk v n] assms by simp
  moreover have "length (0 # pk_Data (Handshake_Marshal ?hs)) < 2 ^ 32"
    using length_handshake_data [of ?hs] assms by simp
  ultimately show ?thesis
    using v2_VarInt_bytes_of_nat [of "length (0 # pk_Data (Handshake_Marshal ?hs))"]
    by (simp add: v2_Handshake_bytes_data Packet_Marshal_def)
qed

theorem v2_handshake_bytes_agree_witness:
  "v2_Handshake_bytes \<lparr>hp_PacketId = 0, hp_ProtocolVersion = 47, hp_ServerAddress = ''x'', hp_ServerPort = 80,
      hp_NextState = 2\<rparr> =
    Some (Packet_Marshal (Handshake_Marshal \<lparr>hs_ProtocolVersion = 47, hs_ServerAddress = ''x'',
      hs_ServerPort = 80, hs_NextState = 2\<rparr>))"
  using v2_handshake_bytes_agree [of "''x''" 47 80 2] by simp

text \<open>
  The VarInt writer of the second implementation ends exactly for numbers that are not negative, and
  writes the same bytes as the first implementation for numbers of 32 bits.
\<close>

theorem v2_VarInt_total:
  "(v2_VarInt_bytes v = None \<longleftrightarrow> sint v < 0) \<and> v2_VarInt_bytes (ucast w) = Some (VarInt_Encode w)"
  using v2_VarInt_bytes_nonneg [of v] v2_VarInt_bytes_total [of v]
  by (cases "v2_VarInt_bytes v") (auto simp: v2_VarInt_bytes_Encode not_le [symmetric])

end
