(* ===== verification/V2_Config.thy ===== *)
theory V2_Config
  imports V2_Packet
begin

text \<open>
  The configurations of the second implementation (src/config.go): the Java and the Bedrock servers,
  the status text of a Bedrock server and its parser, and the readers of the configuration files.
\<close>

section \<open>Configurations\<close>

text \<open>The embedded \<open>BaseConfig\<close> is written out in both configurations.\<close>

record JavaConfig =
  jc_ListenTo :: string
  jc_ProxyTo :: string
  jc_Domains :: "string list"

record Description =
  de_Text :: string
  de_Text_2 :: string

record Version =
  ve_Name :: string
  ve_Protocol :: go_int

record Players =
  pl_Max :: go_int
  pl_Online :: go_int

record GameMode =
  gm_Name :: string
  gm_ID :: go_int

record Port =
  po_IPv4 :: go_int
  po_IPv6 :: go_int

record BedrockStatus =
  st_Edition :: string
  st_Description :: Description
  st_Version :: Version
  st_Players :: Players
  st_Gamemode :: GameMode
  st_Port :: Port

record BedrockServerConfig =
  br_ListenTo :: string
  br_ProxyTo :: string
  br_ID :: "64 word"
  br_ServerStatus :: BedrockStatus

definition show_word :: "go_int \<Rightarrow> string" where
  "show_word x = show_int (sint x)"

fun join_semicolon :: "string list \<Rightarrow> string" where
  "join_semicolon [] = []"
| "join_semicolon [x] = x"
| "join_semicolon (x # y # xs) = x @ '';'' @ join_semicolon (y # xs)"

definition BedrockServerConfig_Status :: "BedrockServerConfig \<Rightarrow> string" where
  "BedrockServerConfig_Status cfg =
    (let s = br_ServerStatus cfg in
     join_semicolon [st_Edition s, de_Text (st_Description s), show_word (ve_Protocol (st_Version s)),
       ve_Name (st_Version s), show_word (pl_Online (st_Players s)), show_word (pl_Max (st_Players s)),
       show_word (br_ID cfg), de_Text_2 (st_Description s), gm_Name (st_Gamemode s),
       show_word (gm_ID (st_Gamemode s)), show_word (po_IPv4 (st_Port s)), show_word (po_IPv6 (st_Port s))])"

text \<open>
  \<open>strconv.Atoi\<close>: an optional sign and decimal digits. With an error the value is 0, or the nearest
  number when it is out of range. \<open>ParseUint_loop\<close> is the loop of the library over the digits, which
  stops at the first digit that takes the number beyond 64 bits.
\<close>

definition is_digit :: "char \<Rightarrow> bool" where
  "is_digit c \<longleftrightarrow> 48 \<le> (of_char c :: nat) \<and> (of_char c :: nat) \<le> 57"

definition invalid_syntax :: go_error where
  "invalid_syntax = ErrOther ''invalid syntax''"

definition out_of_range :: go_error where
  "out_of_range = ErrOther ''value out of range''"

fun ParseUint_loop :: "nat \<Rightarrow> string \<Rightarrow> nat \<times> go_error option" where
  "ParseUint_loop n [] = (n, None)"
| "ParseUint_loop n (c # cs) =
    (if \<not> is_digit c then (0, Some invalid_syntax)
     else let n1 = 10 * n + (of_char c - 48) in
       if 2 ^ 64 \<le> n1 then (2 ^ 64 - 1, Some out_of_range) else ParseUint_loop n1 cs)"

definition Atoi :: "string \<Rightarrow> go_int \<times> go_error option" where
  "Atoi s =
    (let (neg, ds) = (case s of [] \<Rightarrow> (False, []) | c # cs \<Rightarrow>
           if c = CHR ''-'' then (True, cs) else if c = CHR ''+'' then (False, cs) else (False, s)) in
     if ds = [] then (0, Some invalid_syntax)
     else case ParseUint_loop 0 ds of (un, err) \<Rightarrow>
       if err = Some invalid_syntax then (0, err)
       else if \<not> neg \<and> 2 ^ 63 \<le> un then (2 ^ 63 - 1, Some out_of_range)
       else if neg \<and> 2 ^ 63 < un then (- (2 ^ 63), Some out_of_range)
       else (if neg then - word_of_nat un else word_of_nat un, None))"

text \<open>With fewer than twelve parts an index is out of range, which panics.\<close>

definition StringToBedrockStatus :: "string \<Rightarrow> BedrockStatus res" where
  "StringToBedrockStatus s =
    (let parts = Split '';'' s; number = (\<lambda>i. fst (Atoi (parts ! i))) in
     if length parts < 12 then Panic
     else Ok \<lparr>st_Edition = parts ! 0,
       st_Description = \<lparr>de_Text = parts ! 1, de_Text_2 = parts ! 7\<rparr>,
       st_Version = \<lparr>ve_Name = parts ! 3, ve_Protocol = number 2\<rparr>,
       st_Players = \<lparr>pl_Max = number 5, pl_Online = number 4\<rparr>,
       st_Gamemode = \<lparr>gm_Name = parts ! 8, gm_ID = number 9\<rparr>,
       st_Port = \<lparr>po_IPv4 = number 10, po_IPv6 = number 11\<rparr>\<rparr>)"

section \<open>Reading configurations\<close>

text \<open>
  The JSON decoders of the two configurations, and the random number drawn for the file that is
  loaded, come with the operating system.
\<close>

record 'f v2_env =
  v2_os :: "'f os_env"
  v2_unmarshal_bedrock :: "byte list \<Rightarrow> BedrockServerConfig \<Rightarrow> BedrockServerConfig \<times> unit res"
  v2_unmarshal_java :: "byte list \<Rightarrow> JavaConfig \<Rightarrow> JavaConfig \<times> unit res"
  v2_Int63 :: "string \<Rightarrow> 'f \<Rightarrow> 64 word"

definition BedrockConfigFileSuffix :: string where
  "BedrockConfigFileSuffix = ''_bedrock.json''"

definition DefaultBedrockServerConfig :: "64 word \<Rightarrow> BedrockServerConfig" where
  "DefaultBedrockServerConfig random =
    \<lparr>br_ListenTo = [], br_ProxyTo = [], br_ID = random,
     br_ServerStatus = \<lparr>st_Edition = ''MCPE'',
       st_Description = \<lparr>de_Text = ''Proxied with Ultraviolet'', de_Text_2 = []\<rparr>,
       st_Version = \<lparr>ve_Name = ''1.19.10'', ve_Protocol = 534\<rparr>,
       st_Players = \<lparr>pl_Max = 100, pl_Online = 0\<rparr>,
       st_Gamemode = \<lparr>gm_Name = ''Survival'', gm_ID = 1\<rparr>,
       st_Port = \<lparr>po_IPv4 = -1, po_IPv6 = -1\<rparr>\<rparr>\<rparr>"

definition DefaultJavaConfig :: JavaConfig where
  "DefaultJavaConfig = \<lparr>jc_ListenTo = [], jc_ProxyTo = [], jc_Domains = []\<rparr>"

definition zero_BedrockServerConfig :: BedrockServerConfig where
  "zero_BedrockServerConfig =
    \<lparr>br_ListenTo = [], br_ProxyTo = [], br_ID = 0,
     br_ServerStatus = \<lparr>st_Edition = [], st_Description = \<lparr>de_Text = [], de_Text_2 = []\<rparr>,
       st_Version = \<lparr>ve_Name = [], ve_Protocol = 0\<rparr>, st_Players = \<lparr>pl_Max = 0, pl_Online = 0\<rparr>,
       st_Gamemode = \<lparr>gm_Name = [], gm_ID = 0\<rparr>, st_Port = \<lparr>po_IPv4 = 0, po_IPv6 = 0\<rparr>\<rparr>\<rparr>"

definition SplitAfter :: "string \<Rightarrow> string \<Rightarrow> string list" where
  "SplitAfter sep s = (let parts = Split sep s in map (\<lambda>p. p @ sep) (butlast parts) @ [last parts])"

definition must_be_set :: go_error where
  "must_be_set = ErrOther ''ListenTo and ProxyTo must be set''"

definition LoadBedrockServerConfig ::
  "'f v2_env \<Rightarrow> string \<Rightarrow> 'f \<Rightarrow> (BedrockServerConfig \<times> go_error option) res" where
  "LoadBedrockServerConfig env path f =
    (case en_ReadFile (v2_os env) path f of
       Ok bb \<Rightarrow>
         (case v2_unmarshal_bedrock env bb (DefaultBedrockServerConfig (v2_Int63 env path f)) of
            (cfg, Ok _) \<Rightarrow>
              if br_ListenTo cfg = [] \<or> br_ProxyTo cfg = [] then Ok (cfg, Some must_be_set)
              else
                let parts = SplitAfter '':'' (br_ListenTo cfg) in
                if length parts < 2 then Panic
                else
                  let (port, err) = Atoi (parts ! 1);
                      s = br_ServerStatus cfg;
                      cfg1 = cfg\<lparr>br_ServerStatus := s\<lparr>st_Port := (st_Port s)\<lparr>po_IPv4 := port\<rparr>\<rparr>\<rparr>
                  in Ok (cfg1, err)
          | (cfg, Err e) \<Rightarrow> Ok (cfg, Some e)
          | (cfg, Panic) \<Rightarrow> Panic)
     | Err e \<Rightarrow> Ok (zero_BedrockServerConfig, Some e)
     | Panic \<Rightarrow> Panic)"

definition LoadJavaServerConfig :: "'f v2_env \<Rightarrow> string \<Rightarrow> 'f \<Rightarrow> (JavaConfig \<times> go_error option) res" where
  "LoadJavaServerConfig env path f =
    (case en_ReadFile (v2_os env) path f of
       Ok bb \<Rightarrow>
         (case v2_unmarshal_java env bb DefaultJavaConfig of
            (cfg, Ok _) \<Rightarrow>
              if jc_ListenTo cfg = [] \<or> jc_ProxyTo cfg = [] then Ok (cfg, Some must_be_set)
              else Ok (cfg, None)
          | (cfg, Err e) \<Rightarrow> Ok (cfg, Some e)
          | (cfg, Panic) \<Rightarrow> Panic)
     | Err e \<Rightarrow> Ok (DefaultJavaConfig, Some e)
     | Panic \<Rightarrow> Panic)"

text \<open>The walk, with the test of a file, and the loop that loads the files found.\<close>

fun walk_files :: "(walk_entry \<Rightarrow> bool) \<Rightarrow> walk_entry list \<Rightarrow> string list \<Rightarrow> string list \<times> go_error option" where
  "walk_files wanted [] filePaths = (filePaths, None)"
| "walk_files wanted (w # ws) filePaths =
    (case we_err w of
       Some e \<Rightarrow> (filePaths, Some e)
     | None \<Rightarrow>
         if we_isDir w then walk_files wanted ws filePaths
         else if \<not> wanted w then walk_files wanted ws filePaths
         else walk_files wanted ws (filePaths @ [we_path w]))"

fun load_files :: "(string \<Rightarrow> ('c \<times> go_error option) res) \<Rightarrow> string list \<Rightarrow> 'c list \<Rightarrow> 'c list res" where
  "load_files ld [] cfgs = Ok cfgs"
| "load_files ld (filePath # rest) cfgs =
    (case ld filePath of
       Ok (cfg, None) \<Rightarrow> load_files ld rest (cfgs @ [cfg])
     | Ok (cfg, Some e) \<Rightarrow> Err e
     | Err e \<Rightarrow> Err e
     | Panic \<Rightarrow> Panic)"

definition bedrock_file :: "walk_entry \<Rightarrow> bool" where
  "bedrock_file w \<longleftrightarrow> Contains (we_path w) BedrockConfigFileSuffix"

definition java_file :: "walk_entry \<Rightarrow> bool" where
  "java_file w \<longleftrightarrow> \<not> Contains (we_path w) BedrockConfigFileSuffix \<and> Ext (we_path w) = ''.json'' \<and>
    we_name w \<noteq> MainConfigFileName"

definition ReadBedrockConfigs :: "'f v2_env \<Rightarrow> string \<Rightarrow> 'f \<Rightarrow> BedrockServerConfig list res" where
  "ReadBedrockConfigs env path f =
    (let (filePaths, err) = walk_files bedrock_file (en_Walk (v2_os env) path f) [] in
     case err of Some e \<Rightarrow> Err e | None \<Rightarrow> load_files (\<lambda>p. LoadBedrockServerConfig env p f) filePaths [])"

definition ReadJavaConfigs :: "'f v2_env \<Rightarrow> string \<Rightarrow> 'f \<Rightarrow> JavaConfig list res" where
  "ReadJavaConfigs env path f =
    (let (filePaths, err) = walk_files java_file (en_Walk (v2_os env) path f) [] in
     case err of Some e \<Rightarrow> Err e | None \<Rightarrow> load_files (\<lambda>p. LoadJavaServerConfig env p f) filePaths [])"

section \<open>Printing and parsing a status\<close>

lemma is_digit_char: "d < 10 \<Longrightarrow> is_digit (digit_char d)"
  by (simp add: is_digit_def of_digit_char)

lemma show_nat_digits: "list_all is_digit (show_nat n)"
  using set_show_nat is_digit_char by (fastforce simp: list_all_iff)

lemma show_nat_not_Nil [simp]: "show_nat n \<noteq> []"
  by (simp add: show_nat.simps [of n])

lemma ParseUint_loop_snoc:
  "ParseUint_loop n s = (m, None) \<Longrightarrow> d < 10 \<Longrightarrow> 10 * m + d < 2 ^ 64 \<Longrightarrow>
   ParseUint_loop n (s @ [digit_char d]) = (10 * m + d, None)"
  by (induction n s rule: ParseUint_loop.induct)
    (auto simp: Let_def is_digit_char of_digit_char split: if_splits)

lemma ParseUint_show_nat: "n < 2 ^ 64 \<Longrightarrow> ParseUint_loop 0 (show_nat n) = (n, None)"
proof (induction n rule: show_nat.induct)
  case (1 n)
  show ?case
  proof (cases "n < 10")
    case True
    then show ?thesis by (simp add: show_nat.simps [of n] is_digit_char of_digit_char)
  next
    case False
    with 1 have "ParseUint_loop 0 (show_nat (n div 10)) = (n div 10, None)" by simp
    from ParseUint_loop_snoc [OF this, of "n mod 10"] 1(2) False show ?thesis
      by (simp add: show_nat.simps [of n])
  qed
qed

lemma hd_show_nat: "show_nat n = c # cs \<Longrightarrow> is_digit c"
  using show_nat_digits [of n] by simp

lemma signs_not_digits: "\<not> is_digit CHR ''-''" "\<not> is_digit CHR ''+''" "\<not> is_digit CHR '';''"
  by (simp_all add: is_digit_def)

lemma Atoi_show_word: "Atoi (show_word x) = (x, None)"
proof (cases "sint x < 0")
  case True
  then have "nat (- sint x) \<le> 2 ^ 63" using sint_ge [of x] by simp
  moreover have "- word_of_nat (nat (- sint x)) = x" using True by simp
  ultimately show ?thesis using True ParseUint_show_nat [of "nat (- sint x)"]
    by (simp add: Atoi_def show_word_def show_int_def)
next
  case False
  have lt: "nat (sint x) < 2 ^ 63" using sint_lt [of x] by (simp add: nat_less_iff False not_less)
  obtain c cs where cs: "show_nat (nat (sint x)) = c # cs" by (cases "show_nat (nat (sint x))") auto
  with signs_not_digits hd_show_nat [OF cs] have "c \<noteq> CHR ''-''" "c \<noteq> CHR ''+''" by auto
  moreover have "word_of_nat (nat (sint x)) = x" using False by simp
  ultimately show ?thesis using False lt ParseUint_show_nat [of "nat (sint x)"]
    by (simp add: Atoi_def show_word_def show_int_def cs)
qed

lemma show_word_no_semicolon: "CHR '';'' \<notin> set (show_word x)"
  using show_nat_digits [of "nat (sint x)"] show_nat_digits [of "nat (- sint x)"] signs_not_digits(3)
  by (auto simp: show_word_def show_int_def list_all_iff)

lemma Split_join_semicolon:
  "xs \<noteq> [] \<Longrightarrow> list_all (\<lambda>x. CHR '';'' \<notin> set x) xs \<Longrightarrow> Split '';'' (join_semicolon xs) = xs"
  by (induction xs rule: join_semicolon.induct)
    (auto simp: Split_None Cut_char_None Split_Some [OF _ Cut_char])

text \<open>
  C34: Parsing the status text of a Bedrock server gives its status back, every number and text, if
  no text contains a semicolon.
\<close>

theorem bedrock_status_roundtrip:
  assumes "list_all (\<lambda>x. CHR '';'' \<notin> set x) [st_Edition s, de_Text (st_Description s), ve_Name (st_Version s),
    de_Text_2 (st_Description s), gm_Name (st_Gamemode s)]"
    and "br_ServerStatus cfg = s"
  shows "StringToBedrockStatus (BedrockServerConfig_Status cfg) = Ok s"
proof -
  have "Split '';'' (BedrockServerConfig_Status cfg) =
    [st_Edition s, de_Text (st_Description s), show_word (ve_Protocol (st_Version s)),
       ve_Name (st_Version s), show_word (pl_Online (st_Players s)), show_word (pl_Max (st_Players s)),
       show_word (br_ID cfg), de_Text_2 (st_Description s), gm_Name (st_Gamemode s),
       show_word (gm_ID (st_Gamemode s)), show_word (po_IPv4 (st_Port s)), show_word (po_IPv6 (st_Port s))]"
    unfolding BedrockServerConfig_Status_def Let_def assms(2)
    by (rule Split_join_semicolon) (use assms(1) in \<open>simp_all add: show_word_no_semicolon\<close>)
  then show ?thesis by (simp add: StringToBedrockStatus_def Let_def Atoi_show_word)
qed

theorem bedrock_status_roundtrip_witness:
  "StringToBedrockStatus (BedrockServerConfig_Status (DefaultBedrockServerConfig 7)) =
    Ok (br_ServerStatus (DefaultBedrockServerConfig 7))"
  by (rule bedrock_status_roundtrip) (simp_all add: DefaultBedrockServerConfig_def)


section \<open>What the readers return\<close>

definition bedrock_ok :: "BedrockServerConfig \<Rightarrow> bool" where
  "bedrock_ok cfg \<longleftrightarrow> br_ListenTo cfg \<noteq> [] \<and> br_ProxyTo cfg \<noteq> [] \<and>
    (case SplitAfter '':'' (br_ListenTo cfg) of
       _ # port # _ \<Rightarrow> Atoi port = (po_IPv4 (st_Port (br_ServerStatus cfg)), None)
     | _ \<Rightarrow> False)"

definition java_ok :: "JavaConfig \<Rightarrow> bool" where
  "java_ok cfg \<longleftrightarrow> jc_ListenTo cfg \<noteq> [] \<and> jc_ProxyTo cfg \<noteq> []"

lemma length_ge2_cases: "2 \<le> length xs \<Longrightarrow> \<exists>a b cs. xs = a # b # cs"
  by (cases xs; cases "tl xs") auto

lemma LoadBedrock_ok: "LoadBedrockServerConfig env path f = Ok (cfg, None) \<Longrightarrow> bedrock_ok cfg"
  by (auto simp: LoadBedrockServerConfig_def Let_def bedrock_ok_def must_be_set_def not_less
      dest!: length_ge2_cases split: res.splits prod.splits if_splits)

lemma LoadJava_ok: "LoadJavaServerConfig env path f = Ok (cfg, None) \<Longrightarrow> java_ok cfg"
  by (auto simp: LoadJavaServerConfig_def java_ok_def split: res.splits prod.splits if_splits)

lemma walk_files_paths:
  "walk_files wanted ws ps = (ps', None) \<Longrightarrow> ps' = ps @ map we_path (filter (\<lambda>w. \<not> we_isDir w \<and> wanted w) ws)"
  by (induction wanted ws ps rule: walk_files.induct) (auto split: option.splits if_splits)

lemma load_files_result:
  "load_files ld ps acc = Ok cfgs \<Longrightarrow> \<exists>new. cfgs = acc @ new \<and> list_all2 (\<lambda>p cfg. ld p = Ok (cfg, None)) ps new"
proof (induction ld ps acc rule: load_files.induct)
  case (2 ld p rest acc)
  then obtain cfg where l: "ld p = Ok (cfg, None)" by (auto split: res.splits option.splits)
  with 2 obtain new where "cfgs = (acc @ [cfg]) @ new" "list_all2 (\<lambda>p cfg. ld p = Ok (cfg, None)) rest new"
    by fastforce
  with l show ?case by (intro exI [of _ "cfg # new"]) simp
qed simp

lemma load_walked_files:
  assumes "(let (filePaths, err) = walk_files wanted ws [] in
    case err of Some e \<Rightarrow> Err e | None \<Rightarrow> load_files ld filePaths []) = Ok cfgs"
    and ok: "\<And>p cfg. ld p = Ok (cfg, None) \<Longrightarrow> good cfg"
  shows "list_all good cfgs \<and> length cfgs = length (filter (\<lambda>w. \<not> we_isDir w \<and> wanted w) ws)"
proof -
  from assms(1) obtain ps where ps: "walk_files wanted ws [] = (ps, None)" "load_files ld ps [] = Ok cfgs"
    by (auto split: prod.splits option.splits)
  from load_files_result [OF ps(2)] have l: "list_all2 (\<lambda>p cfg. ld p = Ok (cfg, None)) ps cfgs" by auto
  then have "list_all good cfgs" using ok
    by (auto simp: list_all_iff list_all2_conv_all_nth in_set_conv_nth) blast
  with l walk_files_paths [OF ps(1)] show ?thesis by (auto dest: list_all2_lengthD)
qed

lemma ReadBedrockConfigs_ok:
  "ReadBedrockConfigs env path f = Ok cfgs \<Longrightarrow> list_all bedrock_ok cfgs \<and>
    length cfgs = length (filter (\<lambda>w. \<not> we_isDir w \<and> bedrock_file w) (en_Walk (v2_os env) path f))"
  unfolding ReadBedrockConfigs_def by (rule load_walked_files) (auto intro: LoadBedrock_ok)

lemma ReadJavaConfigs_ok:
  "ReadJavaConfigs env path f = Ok cfgs \<Longrightarrow> list_all java_ok cfgs \<and>
    length cfgs = length (filter (\<lambda>w. \<not> we_isDir w \<and> java_file w) (en_Walk (v2_os env) path f))"
  unfolding ReadJavaConfigs_def by (rule load_walked_files) (auto intro: LoadJava_ok)

text \<open>A directory with one file of each kind.\<close>

definition plain_v2_env :: "(string \<rightharpoonup> byte list) v2_env" where
  "plain_v2_env = \<lparr>v2_os = plain_env\<lparr>en_Walk := \<lambda>p f.
      [\<lparr>we_path = ''c/a.json'', we_name = ''a.json'', we_isDir = False, we_err = None\<rparr>,
       \<lparr>we_path = ''c/b_bedrock.json'', we_name = ''b_bedrock.json'', we_isDir = False, we_err = None\<rparr>]\<rparr>,
    v2_unmarshal_bedrock = (\<lambda>bb cfg. (cfg\<lparr>br_ListenTo := '':19132'', br_ProxyTo := ''b''\<rparr>, Ok ())),
    v2_unmarshal_java = (\<lambda>bb cfg. (cfg\<lparr>jc_ListenTo := '':25565'', jc_ProxyTo := ''p'', jc_Domains := [''x'']\<rparr>, Ok ())),
    v2_Int63 = (\<lambda>path f. 7)\<rparr>"

end
