(* ===== verification/V2_Java.thy ===== *)
theory V2_Java
  imports V2_Config
begin

text \<open>
  The Java proxy of the second implementation (src/server.go): the map from domains to servers, the
  handling of a connection, and the accept loop, which handles one connection after the other.
\<close>

section \<open>Finding the server\<close>

text \<open>The loop of \<open>Run\<close> over the Java configurations registers the address they listen to.\<close>

fun register_java :: "JavaConfig list \<Rightarrow> (string \<rightharpoonup> string) \<Rightarrow> (string \<rightharpoonup> string)" where
  "register_java [] Servers = Servers"
| "register_java (cfg # cfgs) Servers =
    register_java cfgs (register_domains (jc_Domains cfg) (jc_ListenTo cfg) Servers)"

definition ServerAddress :: "(string \<rightharpoonup> string) \<Rightarrow> ServerBoundHandshakePacket \<Rightarrow> string \<times> go_error option" where
  "ServerAddress Servers hsPacket =
    (case Servers (hp_ServerAddress hsPacket) of
       None \<Rightarrow> ([], Some ErrNoServerFound)
     | Some serverAddr \<Rightarrow> (serverAddr, None))"

section \<open>Handling a connection\<close>

text \<open>
  The length is read without an error, so a connection that is closed at once has length 0. The one
  read that follows may give less than the packet.
\<close>

definition ReadPacketData :: "net_conn \<Rightarrow> (go_int \<times> byte list) res \<times> net_conn" where
  "ReadPacketData r =
    (let (packetLength, r1) = v2_ReadVarInt r in
     if sint packetLength < 1 then (Ok (packetLength, []), r1)
     else and_then (read_once packetLength r1) (\<lambda>data r2. (Ok (packetLength, data), r2)))"

text \<open>
  \<open>net.Dial\<close> has no timeout and binds to no address. The two writes of the handshake, whose errors are
  dropped, are one write here; \<open>None\<close> stands for a handshake whose encoding does not end.
\<close>

definition default_dialer :: net_dialer where
  "default_dialer = \<lparr>dl_Timeout = 0, dl_bind = []\<rparr>"

definition ConnectToServer ::
  "(string \<rightharpoonup> string) \<Rightarrow> ServerBoundHandshakePacket \<Rightarrow> network \<Rightarrow> (net_conn res \<times> network) option" where
  "ConnectToServer Servers pk n =
    (let (addr, _) = ServerAddress Servers pk in
     case Dial default_dialer addr n of
       (Ok server, n1) \<Rightarrow>
         map_option (\<lambda>bb. (Ok (snd (conn_Write bb server)), n1)) (v2_Handshake_bytes pk)
     | (Err e, n1) \<Rightarrow> Some (Err e, n1)
     | (Panic, n1) \<Rightarrow> Some (Panic, n1))"

text \<open>
  \<open>ProxyConnection\<close> and its pipes are written as in the first implementation (basic.go), so a session
  goes on as \<open>proxy_step\<close> says.
\<close>

definition v2_ProxyConnection :: "net_conn \<Rightarrow> net_conn \<Rightarrow> proxy_state" where
  "v2_ProxyConnection client server = start_pipes client server"

text \<open>
  The errors of \<open>ReadServerBoundHandshake\<close> and \<open>ConnectToServer\<close> are dropped. With the latter the server is
  nil, and the pipe that reads from it panics; otherwise the result is the session that is started.
\<close>

definition v2_ProcessConnection ::
  "(string \<rightharpoonup> string) \<Rightarrow> net_conn \<Rightarrow> network \<Rightarrow> (proxy_state res \<times> network) option" where
  "v2_ProcessConnection Servers conn n =
    (case ReadPacketData conn of
       (Ok (_, data), conn1) \<Rightarrow>
         (case ReadServerBoundHandshake (mem_reader data) of
            (Ok (hsPacket, _), _) \<Rightarrow>
              map_option (\<lambda>(server, n1).
                (case server of Ok sv \<Rightarrow> Ok (v2_ProxyConnection conn1 sv) | _ \<Rightarrow> Panic, n1))
                (ConnectToServer Servers hsPacket n)
          | (Err e, _) \<Rightarrow> Some (Err e, n)
          | (Panic, _) \<Rightarrow> Some (Panic, n))
     | (Err e, conn1) \<Rightarrow> Some (Err e, n)
     | (Panic, conn1) \<Rightarrow> Some (Panic, n))"

section \<open>The accept loop\<close>

text \<open>
  \<open>ja_accepts\<close> is what the next calls of \<open>Accept\<close> return. \<open>ProcessConnection\<close> returns when the pipe from
  the client has finished; the other pipe of the session may still be running then (\<open>ja_left\<close>).
\<close>

datatype java_status =
    JAccepting
  | JSession proxy_state
  | JReturned go_error
  | JCrashed
  | JHung

record java_state =
  ja_status :: java_status
  ja_accepts :: "net_conn res list"
  ja_left :: "proxy_state list"
  ja_net :: network

inductive java_step :: "(string \<rightharpoonup> string) \<Rightarrow> java_state \<Rightarrow> java_state \<Rightarrow> bool" for Servers where
  session_started: "ja_status s = JAccepting \<Longrightarrow> ja_accepts s = Ok conn # rest \<Longrightarrow>
    v2_ProcessConnection Servers conn (ja_net s) = Some (Ok ps, n1) \<Longrightarrow>
    java_step Servers s (s\<lparr>ja_status := JSession ps, ja_accepts := rest, ja_net := n1\<rparr>)"
| conn_dropped: "ja_status s = JAccepting \<Longrightarrow> ja_accepts s = Ok conn # rest \<Longrightarrow>
    v2_ProcessConnection Servers conn (ja_net s) = Some (Err e, n1) \<Longrightarrow>
    java_step Servers s (s\<lparr>ja_accepts := rest, ja_net := n1\<rparr>)"
| crashed: "ja_status s = JAccepting \<Longrightarrow> ja_accepts s = Ok conn # rest \<Longrightarrow>
    v2_ProcessConnection Servers conn (ja_net s) = Some (Panic, n1) \<Longrightarrow>
    java_step Servers s (s\<lparr>ja_status := JCrashed, ja_accepts := rest, ja_net := n1\<rparr>)"
| hung: "ja_status s = JAccepting \<Longrightarrow> ja_accepts s = Ok conn # rest \<Longrightarrow>
    v2_ProcessConnection Servers conn (ja_net s) = None \<Longrightarrow>
    java_step Servers s (s\<lparr>ja_status := JHung, ja_accepts := rest\<rparr>)"
| accept_failed: "ja_status s = JAccepting \<Longrightarrow> ja_accepts s = Err e # rest \<Longrightarrow>
    java_step Servers s (s\<lparr>ja_status := JReturned e, ja_accepts := rest\<rparr>)"
| session_moved: "ja_status s = JSession ps \<Longrightarrow> proxy_step ps ps' \<Longrightarrow>
    java_step Servers s (s\<lparr>ja_status := JSession ps'\<rparr>)"
| session_left: "ja_status s = JSession ps \<Longrightarrow> px_up ps = Finished \<Longrightarrow>
    java_step Servers s (s\<lparr>ja_status := JAccepting, ja_left := ja_left s @ [ps]\<rparr>)"
| left_moved: "ja_status s \<noteq> JCrashed \<Longrightarrow> k < length (ja_left s) \<Longrightarrow> proxy_step (ja_left s ! k) ps' \<Longrightarrow>
    java_step Servers s (s\<lparr>ja_left := (ja_left s)[k := ps']\<rparr>)"

definition java_start :: "net_conn res list \<Rightarrow> network \<Rightarrow> java_state" where
  "java_start accepts n = \<lparr>ja_status = JAccepting, ja_accepts = accepts, ja_left = [], ja_net = n\<rparr>"

text \<open>
  \<open>BasicProxySetupJava\<close>: \<open>CreateListener\<close> listens on the address of the package variable \<open>UVConfig\<close>; its
  error is returned.
\<close>

definition v2_UVConfig :: UltravioletConfig where
  "v2_UVConfig = zero_UltravioletConfig\<lparr>uc_ListenTo := '':25565''\<rparr>"

definition CreateListener :: "(string \<Rightarrow> net_conn res list res) \<Rightarrow> UltravioletConfig \<Rightarrow> net_conn res list res" where
  "CreateListener listen cfg = listen (uc_ListenTo cfg)"

definition BasicProxySetupJava ::
  "(string \<Rightarrow> net_conn res list res) \<Rightarrow> network \<Rightarrow> java_state res" where
  "BasicProxySetupJava listen n =
    res_bind (CreateListener listen v2_UVConfig) (\<lambda>ln. Ok (java_start ln n))"

section \<open>Facts about a connection\<close>

lemma register_domains_eq:
  "register_domains ds server servers = (\<lambda>d. if d \<in> set ds then Some server else servers d)"
  by (rule ext) (rule register_domains_apply)

lemma register_java_from:
  "register_java cfgs Servers d = Some a \<Longrightarrow>
   Servers d = Some a \<or> (\<exists>cfg\<in>set cfgs. d \<in> set (jc_Domains cfg) \<and> a = jc_ListenTo cfg)"
  by (induction cfgs Servers rule: register_java.induct) (fastforce simp: register_domains_eq split: if_splits)+

lemma register_java_dom:
  "register_java cfgs Servers d = None \<longleftrightarrow> Servers d = None \<and> (\<forall>cfg\<in>set cfgs. d \<notin> set (jc_Domains cfg))"
  by (induction cfgs Servers rule: register_java.induct) (auto simp: register_domains_eq split: if_splits)

lemma ReadPacketData_handshake:
  assumes "v2_handshake_data pk = Some data" and "length data \<le> 2 ^ 48" and "v2_Handshake_bytes pk = Some hb"
    and "data \<noteq> []"
  shows "ReadPacketData (r\<lparr>nc_in := seg_in (hb @ later) segs\<rparr>) =
    (Ok (word_of_nat (length data), data), r\<lparr>nc_in := seg_in later segs\<rparr>)"
proof -
  from assms obtain q where q: "v2_VarInt_bytes (word_of_nat (length data)) = Some q" and hb: "hb = q @ data"
    by (auto simp: v2_Handshake_bytes_data)
  have "\<not> sint (word_of_nat (length data) :: go_int) < 1"
    using assms(2,4) sint_of_nat64 [of "length data"] by (cases "length data") simp_all
  moreover note read_once_seg [of data later, where r = r and segs = segs] v2_ReadVarInt_bytes [OF q, where bs = "data @ later" and r = r and segs = segs]
  ultimately show ?thesis using assms by (simp add: ReadPacketData_def hb)
qed

lemma ReadServerBoundHandshake_mem:
  assumes "v2_handshake_data pk = Some data" and "length (hp_ServerAddress pk) \<le> 2 ^ 48"
  shows "ReadServerBoundHandshake (mem_reader data) = (Ok (pk, None), mem_reader [])"
  using ReadServerBoundHandshake_data [OF assms, where r = "mem_reader []" and bs = "[]" and segs = "[]"]
  by (simp add: mem_reader_seg_in [of data]) (simp add: mem_reader_def)

lemma v2_ReadVarInt_end: "nc_in r = [] \<Longrightarrow> v2_ReadVarInt r = (0, r)"
  by (simp add: v2_ReadVarInt_def v2_ReadVarInt_loop.simps [of 0] v2_ReadByte_end)

lemma ReadServerBoundHandshake_no_data:
  "ReadServerBoundHandshake (mem_reader []) = (Ok (zero_handshake_packet, Some ErrEOF), mem_reader [])"
  by (simp add: ReadServerBoundHandshake_def v2_ReadByte_end v2_ReadVarInt_end v2_ReadString_def read_once_def
      conn_Read_def mem_reader_def zero_handshake_packet_def)

lemma ReadPacketData_closed: "nc_in r = [] \<Longrightarrow> ReadPacketData r = (Ok (0, []), r)"
  by (simp add: ReadPacketData_def v2_ReadVarInt_end)

text \<open>From the handshake on, the connection is handled as \<open>ConnectToServer\<close> goes.\<close>

lemma v2_ProcessConnection_eq:
  assumes "ReadPacketData conn = (Ok (l, data), conn1)" and "ReadServerBoundHandshake (mem_reader data) = (Ok (pk, e), r)"
  shows "v2_ProcessConnection Servers conn n =
    (case Dial default_dialer (fst (ServerAddress Servers pk)) n of
       (Ok server, n1) \<Rightarrow>
         map_option (\<lambda>bb. (Ok (start_pipes conn1 (snd (conn_Write bb server))), n1)) (v2_Handshake_bytes pk)
     | (_, n1) \<Rightarrow> Some (Panic, n1))"
  using assms
  by (auto simp: v2_ProcessConnection_def v2_ProxyConnection_def ConnectToServer_def option.map_comp comp_def split: prod.splits res.splits)

lemma ServerAddress_unknown: "Servers (hp_ServerAddress pk) = None \<Longrightarrow> fst (ServerAddress Servers pk) = []"
  by (simp add: ServerAddress_def)

lemma Dial_fails: "\<not> is_ok (fst (Dial dialer addr n)) \<Longrightarrow> (case Dial dialer addr n of (Ok server, n1) \<Rightarrow> f server n1 | (_, n1) \<Rightarrow> g n1) = g (snd (Dial dialer addr n))"
  by (auto simp: is_ok_def split: prod.splits res.splits)

lemma handshake_read:
  assumes hb: "v2_Handshake_bytes pk = Some hb" "length hb \<le> 2 ^ 48" and client: "nc_in conn = seg_in (hb @ later) segs"
  shows "\<exists>l data. ReadPacketData conn = (Ok (l, data), conn\<lparr>nc_in := seg_in later segs\<rparr>) \<and>
    ReadServerBoundHandshake (mem_reader data) = (Ok (pk, None), mem_reader [])"
proof -
  obtain data q where data: "v2_handshake_data pk = Some data" and q: "hb = q @ data"
    using hb by (auto simp: v2_Handshake_bytes_data bind_eq_Some_conv)
  have len: "length (hp_ServerAddress pk) \<le> length data" and "data \<noteq> []"
    using data by (auto simp: v2_handshake_data_def v2_String_bytes_def bind_eq_Some_conv)
  with hb q have "ReadPacketData (conn\<lparr>nc_in := seg_in (hb @ later) segs\<rparr>) =
    (Ok (word_of_nat (length data), data), conn\<lparr>nc_in := seg_in later segs\<rparr>)"
    by (intro ReadPacketData_handshake [OF data]) simp_all
  moreover have "conn\<lparr>nc_in := seg_in (hb @ later) segs\<rparr> = conn" using client by simp
  ultimately show ?thesis using len hb q ReadServerBoundHandshake_mem [OF data] by simp
qed

text \<open>A handshake for the examples.\<close>

definition example_pk :: ServerBoundHandshakePacket where
  "example_pk = \<lparr>hp_PacketId = 0, hp_ProtocolVersion = 47, hp_ServerAddress = ''x'', hp_ServerPort = 80,
    hp_NextState = 2\<rparr>"

lemma example_handshake: "v2_Handshake_bytes example_pk = Some [7, 0, 47, 1, 120, 0, 80, 2]"
  by (simp add: example_pk_def v2_Handshake_bytes_def v2_VarInt_bytes_last v2_String_bytes_def v2_Short_bytes_def
      UnsignedShort_Encode_def str_bytes_def take_bit_eq_mod)

text \<open>
  C31: In the second implementation, a client that names an unknown domain, or closes its connection
  without sending anything, panics the process: the lookup's error is dropped, dialling the empty
  address fails, and the pipe reads from a nil server.
\<close>

theorem v2_unknown_host_crashes:
  assumes refused: "\<not> is_ok (fst (Dial default_dialer [] n))"
    and client: "nc_in conn = [] \<and> Servers [] = None \<or>
      (v2_Handshake_bytes pk = Some hb \<and> nc_in conn = seg_in (hb @ later) segs \<and> length hb \<le> 2 ^ 48 \<and>
       Servers (hp_ServerAddress pk) = None)"
  shows "v2_ProcessConnection Servers conn n = Some (Panic, snd (Dial default_dialer [] n))"
  using client
proof
  assume "nc_in conn = [] \<and> Servers [] = None"
  then show ?thesis
    using v2_ProcessConnection_eq [OF ReadPacketData_closed ReadServerBoundHandshake_no_data, of conn Servers n]
      ServerAddress_unknown [of Servers zero_handshake_packet]
    by (simp add: Dial_fails [OF refused] zero_handshake_packet_def)
next
  assume h: "v2_Handshake_bytes pk = Some hb \<and> nc_in conn = seg_in (hb @ later) segs \<and> length hb \<le> 2 ^ 48 \<and>
       Servers (hp_ServerAddress pk) = None"
  then obtain l data where "ReadPacketData conn = (Ok (l, data), conn\<lparr>nc_in := seg_in later segs\<rparr>)"
    "ReadServerBoundHandshake (mem_reader data) = (Ok (pk, None), mem_reader [])"
    using handshake_read by blast
  from v2_ProcessConnection_eq [OF this, of Servers n] h show ?thesis
    by (simp add: ServerAddress_unknown Dial_fails [OF refused])
qed


theorem v2_unknown_host_crashes_witness:
  "v2_ProcessConnection Map.empty (mem_reader []) dead_network = Some (Panic, snd (Dial default_dialer [] dead_network)) \<and>
   v2_ProcessConnection [''a'' \<mapsto> ''b''] (mem_reader [7, 0, 47, 1, 120, 0, 80, 2]) dead_network =
     Some (Panic, snd (Dial default_dialer [] dead_network))"
proof -
  have refused: "\<not> is_ok (fst (Dial default_dialer [] dead_network))"
    by (simp add: Dial_def dead_network_def is_ok_def Let_def)
  show ?thesis
    using example_handshake v2_unknown_host_crashes [OF refused, of "mem_reader []" Map.empty]
      v2_unknown_host_crashes [OF refused, of "mem_reader [7, 0, 47, 1, 120, 0, 80, 2]" "[''a'' \<mapsto> ''b'']" example_pk
        "[7, 0, 47, 1, 120, 0, 80, 2]" "[]" "[]"]
    by (simp add: mem_reader_def seg_in_def example_pk_def)
qed




section \<open>Handshakes that are never forwarded\<close>

text \<open>
  The numbers of a handshake are read as 64 bits, so a client can send a negative one; writing it to the
  server does not end.
\<close>

lemma v2_Handshake_bytes_negative:
  "sint (hp_ProtocolVersion pk) < 0 \<or> sint (hp_NextState pk) < 0 \<Longrightarrow> v2_Handshake_bytes pk = None"
  using v2_VarInt_bytes_nonneg [of "hp_ProtocolVersion pk"] v2_VarInt_bytes_nonneg [of "hp_NextState pk"]
  by (auto simp: v2_Handshake_bytes_def Let_def split: bind_splits)


lemma v2_loop_more:
  "bit b 7 \<Longrightarrow> v2_ReadVarInt_loop i v (r\<lparr>nc_in := seg_in (b # bs) segs\<rparr>) =
    v2_ReadVarInt_loop (Suc i) (v OR push_bit (7 * i) (ucast (take_bit 7 b))) (r\<lparr>nc_in := seg_in bs segs\<rparr>)"
  by (simp add: v2_loop_step Let_def)

lemma v2_loop_last:
  "\<not> bit b 7 \<Longrightarrow> v2_ReadVarInt_loop i v (r\<lparr>nc_in := seg_in (b # bs) segs\<rparr>) =
    (v OR push_bit (7 * i) (ucast (take_bit 7 b)), r\<lparr>nc_in := seg_in bs segs\<rparr>)"
  by (simp add: v2_loop_step Let_def)

lemma mem_reader_Nil: "mem_reader []\<lparr>nc_in := []\<rparr> = mem_reader []"
  by (simp add: mem_reader_def)

text \<open>
  A handshake with a negative number, which a client can send, is never completely written to the
  server: the goroutine writes for ever.
\<close>

theorem v2_negative_handshake_hangs:
  assumes "ReadPacketData conn = (Ok (l, data), conn1)"
    and "ReadServerBoundHandshake (mem_reader data) = (Ok (pk, e), r)"
    and "sint (hp_ProtocolVersion pk) < 0 \<or> sint (hp_NextState pk) < 0"
    and "is_ok (fst (Dial default_dialer (fst (ServerAddress Servers pk)) n))"
  shows "v2_ProcessConnection Servers conn n = None"
  using v2_ProcessConnection_eq [OF assms(1,2), of Servers n] v2_Handshake_bytes_negative [OF assms(3)] assms(4)
  by (auto simp: is_ok_def split: prod.splits res.splits)

theorem v2_negative_handshake_hangs_witness:
  "v2_ProcessConnection [''x'' \<mapsto> ''b''] (mem_reader [16, 0, 0xff, 0xff, 0xff, 0xff, 0xff, 0xff, 0xff, 0xff, 0xff, 1, 1, 120, 0, 80, 2])
    (dead_network\<lparr>nw_outcome := (\<lambda>k dl addr. Ok (mem_reader []))\<rparr>) = None"
proof -
  let ?data = "[0, 0xff, 0xff, 0xff, 0xff, 0xff, 0xff, 0xff, 0xff, 0xff, 1, 1, 120, 0, 80, 2] :: byte list"
  have read: "ReadPacketData (mem_reader (16 # ?data)) = (Ok (16, ?data), mem_reader [])"
    using v2_loop_last [where b = 16 and i = 0 and v = 0 and r = "mem_reader []" and bs = ?data and segs = "[]"]
      read_once_seg [of ?data "[]", where r = "mem_reader []" and segs = "[]"]
    by (simp add: ReadPacketData_def v2_ReadVarInt_def mem_reader_Nil mem_reader_seg_in [of "16 # ?data"])
  have x: "(char_of (120 :: nat) :: char) = CHR ''x''" by code_simp
  have hs: "ReadServerBoundHandshake (mem_reader ?data) = (Ok (\<lparr>hp_PacketId = 0, hp_ProtocolVersion = 0xffffffffffffffff,
      hp_ServerAddress = ''x'', hp_ServerPort = 80, hp_NextState = 2\<rparr>, None), mem_reader [])"
    using read_once_seg [of "[120]" "[0, 80, 2]", where r = "mem_reader []" and segs = "[]"]
      v2_ReadShort_bytes [where r = "mem_reader []" and n = 80 and bs = "[2]" and segs = "[]"]
    by (simp add: ReadServerBoundHandshake_def Let_def zero_handshake_packet_def bytes_str_def x v2_Short_bytes_def
      UnsignedShort_Encode_def mem_reader_seg_in [of ?data] v2_ReadByte_seg v2_ReadVarInt_def v2_loop_more v2_loop_last
      v2_ReadString_def mem_reader_Nil)
  show ?thesis
    by (rule v2_negative_handshake_hangs [OF read hs])
      (simp_all add: ServerAddress_def Dial_def dead_network_def is_ok_def Let_def)
qed

section \<open>The loop serves everyone\<close>

definition status_fuel :: "java_status \<Rightarrow> nat" where
  "status_fuel st = (case st of JSession ps \<Rightarrow> proxy_fuel ps | _ \<Rightarrow> 0)"

definition java_rank :: "java_state \<Rightarrow> nat \<times> nat \<times> nat" where
  "java_rank s = (length (ja_accepts s),
    (case ja_status s of JSession _ \<Rightarrow> 1 | _ \<Rightarrow> 0),
    status_fuel (ja_status s) + sum_list (map proxy_fuel (ja_left s)))"

lemma sum_list_update_less:
  "k < length xs \<Longrightarrow> f y < (f (xs ! k) :: nat) \<Longrightarrow> sum_list (map f (xs[k := y])) < sum_list (map f xs)"
  by (induction xs arbitrary: k) (auto split: nat.splits)

lemma java_step_rank: "java_step Servers s s' \<Longrightarrow> (java_rank s', java_rank s) \<in> less_than <*lex*> less_than <*lex*> less_than"
  by (induction rule: java_step.induct)
    (auto simp: java_rank_def status_fuel_def dest: proxy_step_fuel intro: sum_list_update_less)

lemma java_step_wf: "wfp (\<lambda>s' s. java_step Servers s s')"
proof -
  have "wf (inv_image (less_than <*lex*> less_than <*lex*> less_than) java_rank)" by (intro wf_inv_image wf_lex_prod wf_less_than)
  then show ?thesis unfolding wfp_def
    by (rule wf_subset) (auto simp: in_inv_image java_step_rank)
qed

text \<open>
  A client is served by a network, given by the outcomes of its dials: whenever it is accepted, its
  session starts.
\<close>

definition served_by :: "(string \<rightharpoonup> string) \<Rightarrow> network \<Rightarrow> net_conn \<Rightarrow> bool" where
  "served_by Servers n c \<longleftrightarrow>
    (\<forall>n0. nw_outcome n0 = nw_outcome n \<longrightarrow> (\<exists>ps n1. v2_ProcessConnection Servers c n0 = Some (Ok ps, n1)))"

lemma served_by_known_host:
  assumes hb: "v2_Handshake_bytes pk = Some hb" "length hb \<le> 2 ^ 48"
    and client: "nc_in conn = seg_in (hb @ later) segs"
    and known: "Servers (hp_ServerAddress pk) = Some addr"
    and up: "\<And>k. is_ok (nw_outcome n k default_dialer addr)"
  shows "served_by Servers n conn"
  unfolding served_by_def
proof (intro allI impI)
  fix n0 :: network assume n0: "nw_outcome n0 = nw_outcome n"
  obtain l data where "ReadPacketData conn = (Ok (l, data), conn\<lparr>nc_in := seg_in later segs\<rparr>)"
    "ReadServerBoundHandshake (mem_reader data) = (Ok (pk, None), mem_reader [])"
    using handshake_read [OF hb client] by blast
  from v2_ProcessConnection_eq [OF this, of Servers n0] known hb up [of "length (nw_dials n0)"] n0
  show "\<exists>ps n1. v2_ProcessConnection Servers conn n0 = Some (Ok ps, n1)"
    by (auto simp: ServerAddress_def Dial_def Let_def is_ok_def split: res.splits)
qed

lemma nw_outcome_Dial: "Dial dialer addr n = (x, n1) \<Longrightarrow> nw_outcome n1 = nw_outcome n"
  by (auto simp: Dial_def Let_def)

lemma nw_outcome_ConnectToServer:
  "ConnectToServer Servers pk n = Some (x, n1) \<Longrightarrow> nw_outcome n1 = nw_outcome n"
  by (auto simp: ConnectToServer_def dest: nw_outcome_Dial split: prod.splits res.splits)

lemma nw_outcome_ProcessConnection:
  "v2_ProcessConnection Servers c n = Some (x, n1) \<Longrightarrow> nw_outcome n1 = nw_outcome n"
  by (auto simp: v2_ProcessConnection_def dest: nw_outcome_ConnectToServer split: prod.split_asm res.split_asm;
      metis res.exhaust nw_outcome_ConnectToServer)

definition java_inv :: "(string \<rightharpoonup> string) \<Rightarrow> network \<Rightarrow> nat \<Rightarrow> java_state \<Rightarrow> bool" where
  "java_inv Servers n m s \<longleftrightarrow> nw_outcome (ja_net s) = nw_outcome n \<and>
    (\<forall>a\<in>set (ja_accepts s). \<exists>c. a = Ok c \<and> served_by Servers n c) \<and>
    (case ja_status s of JAccepting \<Rightarrow> length (ja_accepts s) + length (ja_left s) = m
     | JSession _ \<Rightarrow> Suc (length (ja_accepts s) + length (ja_left s)) = m | _ \<Rightarrow> False)"

lemma java_inv_step: "java_step Servers s s' \<Longrightarrow> java_inv Servers n m s \<Longrightarrow> java_inv Servers n m s'"
proof (induction rule: java_step.induct)
  case (session_started s conn rest ps n1)
  from nw_outcome_ProcessConnection [OF this(3)] session_started show ?case by (auto simp: java_inv_def)
next
  case (left_moved s k ps')
  then show ?case by (cases "ja_status s") (simp_all add: java_inv_def)
qed (fastforce simp: java_inv_def served_by_def)+

lemma java_inv_reachable:
  assumes "(java_step Servers)\<^sup>*\<^sup>* s s'" and "java_inv Servers n m s"
  shows "java_inv Servers n m s'"
  using assms by (induction rule: rtranclp_induct) (auto intro: java_inv_step)

lemma java_progress:
  assumes inv: "java_inv Servers n m s" and stuck: "\<nexists>s'. java_step Servers s s'"
  shows "ja_status s = JAccepting \<and> ja_accepts s = [] \<and>
    (\<forall>ps\<in>set (ja_left s). px_down ps = Finished \<and> px_up ps = Finished)"
proof -
  have "ja_status s \<noteq> JSession ps" for ps
    using stuck session_moved [of s ps] session_left [of s ps] proxy_progress [of ps] by blast
  with inv have acc: "ja_status s = JAccepting" by (auto simp: java_inv_def split: java_status.splits)
  moreover have "ja_accepts s = []"
  proof (cases "ja_accepts s")
    case (Cons a rest)
    with inv obtain c where a: "a = Ok c" "served_by Servers n c" by (auto simp: java_inv_def)
    then obtain ps n1 where "v2_ProcessConnection Servers c (ja_net s) = Some (Ok ps, n1)"
      using inv by (fastforce simp: served_by_def java_inv_def)
    with stuck session_started [OF acc, of c rest] Cons a show ?thesis by blast
  qed
  moreover have "px_down ps = Finished \<and> px_up ps = Finished" if "ps \<in> set (ja_left s)" for ps
  proof -
    from that obtain k where k: "k < length (ja_left s)" "ja_left s ! k = ps" by (auto simp: in_set_conv_nth)
    with stuck left_moved [of s k] proxy_progress [of ps] acc show ?thesis by fastforce
  qed
  ultimately show ?thesis by blast
qed



end
