(* ===== verification/V2_Bedrock.thy ===== *)
theory V2_Bedrock
  imports V2_Java
begin

text \<open>
  The Bedrock servers of the second implementation (src/server.go): UDP datagrams, answered when they
  are pings and forwarded otherwise, and \<open>Run\<close>, which starts everything.
\<close>

section \<open>Sockets\<close>

text \<open>
  The map \<open>connections\<close> from the IP address of a client to the socket opened for it is a package
  variable, shared by all servers. A socket has the address it was dialled with, the listener and
  the client its answers go to, the datagrams sent on it, and the state of the goroutine that reads from
  it. \<open>ud_replies\<close> are the datagrams the listeners have sent: listener, client and bytes.
\<close>

record udp_addr =
  ua_IP :: string
  ua_Port :: nat

record udp_socket =
  us_dialled :: string
  us_listener :: nat
  us_client :: udp_addr
  us_sent :: "byte list list"
  us_reading :: bool

record udp_state =
  ud_connections :: "string \<rightharpoonup> nat"
  ud_sockets :: "udp_socket list"
  ud_replies :: "(nat \<times> udp_addr \<times> byte list) list"

definition udp_start :: udp_state where
  "udp_start = \<lparr>ud_connections = Map.empty, ud_sockets = [], ud_replies = []\<rparr>"

definition WriteTo :: "nat \<Rightarrow> byte list \<Rightarrow> udp_addr \<Rightarrow> udp_state \<Rightarrow> udp_state" where
  "WriteTo listener b addr s = s\<lparr>ud_replies := ud_replies s @ [(listener, addr, b)]\<rparr>"

definition socket_Write :: "nat \<Rightarrow> byte list \<Rightarrow> udp_state \<Rightarrow> udp_state" where
  "socket_Write k b s =
    s\<lparr>ud_sockets := (ud_sockets s)[k := (ud_sockets s ! k)\<lparr>us_sent := us_sent (ud_sockets s ! k) @ [b]\<rparr>]\<rparr>"

section \<open>One datagram\<close>

text \<open>
  The datagram is the beginning of the buffer of the server's loop, of 2048 bytes. \<open>bytes.Buffer\<close> works
  on this array: the pong is written over it, from its beginning, as far as it has room; the data of a
  pong that is too long goes to a new array, after the 35 bytes before it.
\<close>

definition write_over :: "byte list \<Rightarrow> byte list \<Rightarrow> byte list" where
  "write_over b buf = b @ drop (length b) buf"

definition pong_over :: "byte list \<Rightarrow> byte list \<Rightarrow> byte list" where
  "pong_over pong buf = write_over (if length pong \<le> length buf then pong else take 35 pong) buf"

definition handleUnconnectedPing ::
  "BedrockServerConfig \<Rightarrow> nat \<Rightarrow> udp_addr \<Rightarrow> byte list \<Rightarrow> byte list \<times> udp_state \<Rightarrow> unit res \<times> byte list \<times> udp_state" where
  "handleUnconnectedPing cfg pc addr b bs =
    (let (buf, s) = bs; (pk, err, _) = UnconnectedPing_Read zero_ping (mem_reader b) in
     case err of
       Some e \<Rightarrow> (Err (ErrOther ''error reading unconnected ping''), buf, s)
     | None \<Rightarrow>
         let pong = UnconnectedPong_bytes \<lparr>uo_SendTimestamp = up_SendTimestamp pk, uo_Magic = replicate 16 0,
               uo_ServerGUID = br_ID cfg, uo_Data = BedrockServerConfig_Status cfg\<rparr>
         in (Ok (), pong_over pong buf, WriteTo pc pong addr s))"

text \<open>
  \<open>dial\<close> says whether \<open>net.Dial("udp", addr)\<close> succeeds; its error is dropped, and writing to the nil
  socket panics. An empty datagram has packet id 0. The error of \<open>serverConn.Write\<close> is dropped.
\<close>

definition v2_serve ::
  "(string \<Rightarrow> bool) \<Rightarrow> BedrockServerConfig \<Rightarrow> nat \<Rightarrow> udp_addr \<Rightarrow> nat \<Rightarrow> byte list \<times> udp_state \<Rightarrow>
    unit res \<times> byte list \<times> udp_state" where
  "v2_serve dial cfg pc addr n bs =
    (let (buf, s) = bs; bb = take n buf; packetID = (case bb of [] \<Rightarrow> 0 | b # _ \<Rightarrow> b); ip = ua_IP addr in
     if packetID = IDUnconnectedPing \<or> packetID = IDUnconnectedPingOpenConnections
     then handleUnconnectedPing cfg pc addr (tl bb) (buf, s)
     else
       (case ud_connections s ip of
          Some k \<Rightarrow> (Ok (), buf, socket_Write k bb s)
        | None \<Rightarrow>
            if dial (br_ProxyTo cfg) then
              let k = length (ud_sockets s);
                  serverConn = \<lparr>us_dialled = br_ProxyTo cfg, us_listener = pc, us_client = addr, us_sent = [],
                    us_reading = True\<rparr>
              in (Ok (), buf, socket_Write k bb
                    (s\<lparr>ud_connections := (ud_connections s)(ip \<mapsto> k), ud_sockets := ud_sockets s @ [serverConn]\<rparr>))
            else (Panic, buf, s)))"

text \<open>The goroutine of a socket: an answer is sent on to its client; after an error it ends.\<close>

definition socket_answer :: "nat \<Rightarrow> byte list \<Rightarrow> udp_state \<Rightarrow> udp_state" where
  "socket_answer k b s =
    (let sock = ud_sockets s ! k in WriteTo (us_listener sock) (take 2048 b) (us_client sock) s)"

definition socket_fails :: "nat \<Rightarrow> udp_state \<Rightarrow> udp_state" where
  "socket_fails k s = s\<lparr>ud_sockets := (ud_sockets s)[k := (ud_sockets s ! k)\<lparr>us_reading := False\<rparr>]\<rparr>"

section \<open>The servers\<close>

text \<open>
  A server has its configuration, the one buffer its loop reads every datagram into, the goroutines
  started for datagrams and not yet run (address and length of the slice of the buffer they are given),
  and whether its loop runs.
\<close>

record bedrock_server =
  bk_cfg :: BedrockServerConfig
  bk_buf :: "byte list"
  bk_pending :: "(udp_addr \<times> nat) list"
  bk_running :: bool

record bedrock_state =
  bd_servers :: "bedrock_server list"
  bd_udp :: udp_state
  bd_crashed :: bool

definition StartBedrockServer :: "BedrockServerConfig \<Rightarrow> bedrock_server" where
  "StartBedrockServer cfg = \<lparr>bk_cfg = cfg, bk_buf = replicate 2048 0, bk_pending = [], bk_running = True\<rparr>"

definition bedrock_start :: "BedrockServerConfig list \<Rightarrow> bedrock_state" where
  "bedrock_start cfgs = \<lparr>bd_servers = map StartBedrockServer cfgs, bd_udp = udp_start, bd_crashed = False\<rparr>"

definition ReadFrom :: "udp_addr \<Rightarrow> byte list \<Rightarrow> bedrock_server \<Rightarrow> bedrock_server" where
  "ReadFrom addr d sv =
    (let b = take (length (bk_buf sv)) d
     in sv\<lparr>bk_buf := write_over b (bk_buf sv), bk_pending := bk_pending sv @ [(addr, length b)]\<rparr>)"

definition remove_nth :: "nat \<Rightarrow> 'a list \<Rightarrow> 'a list" where
  "remove_nth i xs = take i xs @ drop (Suc i) xs"

text \<open>A goroutine of \<open>serve\<close> runs in one step.\<close>

inductive bedrock_step :: "(string \<Rightarrow> bool) \<Rightarrow> bedrock_state \<Rightarrow> bedrock_state \<Rightarrow> bool" for dial where
  received: "\<not> bd_crashed s \<Longrightarrow> k < length (bd_servers s) \<Longrightarrow> bk_running (bd_servers s ! k) \<Longrightarrow>
    bedrock_step dial s (s\<lparr>bd_servers := (bd_servers s)[k := ReadFrom addr d (bd_servers s ! k)]\<rparr>)"
| loop_ends: "\<not> bd_crashed s \<Longrightarrow> k < length (bd_servers s) \<Longrightarrow>
    bedrock_step dial s (s\<lparr>bd_servers := (bd_servers s)[k := (bd_servers s ! k)\<lparr>bk_running := False\<rparr>]\<rparr>)"
| served: "\<not> bd_crashed s \<Longrightarrow> k < length (bd_servers s) \<Longrightarrow> sv = bd_servers s ! k \<Longrightarrow>
    i < length (bk_pending sv) \<Longrightarrow> bk_pending sv ! i = (addr, n) \<Longrightarrow>
    v2_serve dial (bk_cfg sv) k addr n (bk_buf sv, bd_udp s) = (x, buf, udp) \<Longrightarrow>
    bedrock_step dial s (s\<lparr>bd_servers := (bd_servers s)[k := sv\<lparr>bk_buf := buf, bk_pending := remove_nth i (bk_pending sv)\<rparr>],
      bd_udp := udp, bd_crashed := (x = Panic)\<rparr>)"
| answered: "\<not> bd_crashed s \<Longrightarrow> j < length (ud_sockets (bd_udp s)) \<Longrightarrow> us_reading (ud_sockets (bd_udp s) ! j) \<Longrightarrow>
    bedrock_step dial s (s\<lparr>bd_udp := socket_answer j b (bd_udp s)\<rparr>)"
| socket_failed: "\<not> bd_crashed s \<Longrightarrow> j < length (ud_sockets (bd_udp s)) \<Longrightarrow>
    us_reading (ud_sockets (bd_udp s) ! j) \<Longrightarrow>
    bedrock_step dial s (s\<lparr>bd_udp := socket_fails j (bd_udp s)\<rparr>)"

section \<open>Starting\<close>

text \<open>
  \<open>Run\<close> up to the loops: the Bedrock servers that are started and the map \<open>Servers\<close> of the Java proxy.
  \<open>CreateBedrockListener\<close> panics when an address cannot be listened on.
\<close>

definition CreateBedrockListener :: "(string \<Rightarrow> bool) \<Rightarrow> BedrockServerConfig \<Rightarrow> unit res" where
  "CreateBedrockListener listen cfg = (if listen (br_ListenTo cfg) then Ok () else Panic)"

fun start_bedrock :: "(string \<Rightarrow> bool) \<Rightarrow> BedrockServerConfig list \<Rightarrow> bedrock_server list \<Rightarrow> bedrock_server list res" where
  "start_bedrock listen [] svs = Ok svs"
| "start_bedrock listen (cfg # cfgs) svs =
    res_bind (CreateBedrockListener listen cfg) (\<lambda>_. start_bedrock listen cfgs (svs @ [StartBedrockServer cfg]))"

definition v2_Run ::
  "'f v2_env \<Rightarrow> (string \<Rightarrow> bool) \<Rightarrow> string \<Rightarrow> 'f \<Rightarrow> (string \<rightharpoonup> string) \<Rightarrow>
    (bedrock_server list \<times> (string \<rightharpoonup> string)) res" where
  "v2_Run env listen cfgPath f Servers =
    res_bind (ReadBedrockConfigs env cfgPath f) (\<lambda>bedrockServerConfigs.
    res_bind (start_bedrock listen bedrockServerConfigs []) (\<lambda>servers.
    res_bind (ReadJavaConfigs env cfgPath f) (\<lambda>javaServerConfigs.
      Ok (servers, register_java javaServerConfigs Servers))))"

section \<open>Unconnected messages\<close>

lemma binary_Read_seg:
  assumes "length data = n" and "0 < n"
  shows "binary_Read n decode old (r\<lparr>nc_in := seg_in (data @ bs) segs\<rparr>) = (decode data, None, r\<lparr>nc_in := seg_in bs segs\<rparr>)"
  by (simp add: binary_Read_def ReadFull_seg [OF assms])

lemma UnconnectedPing_Read_bytes:
  "UnconnectedPing_Read old (mem_reader (tl (UnconnectedPing_bytes pk))) =
    (pk\<lparr>up_Magic := UnconnectedMessageSequence\<rparr>, None, mem_reader [])"
proof -
  have "length UnconnectedMessageSequence = 16" by (simp add: UnconnectedMessageSequence_def)
  note reads = binary_Read_seg [OF length_Long_Encode] binary_Read_seg [OF this]
    binary_Read_seg [OF length_Long_Encode, where bs = "[]", simplified]
  show ?thesis
    by (simp add: UnconnectedPing_Read_def UnconnectedPing_bytes_def mem_reader_seg_in [of "_ @ _"] reads be64_Encode mem_reader_Nil)
qed


lemma UnconnectedPong_Read_bytes:
  assumes "uo_Data pk \<noteq> []" and "length (uo_Data pk) < 2 ^ 15"
  shows "UnconnectedPong_Read old (mem_reader (tl (UnconnectedPong_bytes pk))) =
    (Ok (pk\<lparr>uo_Magic := UnconnectedMessageSequence\<rparr>, None), mem_reader [])"
proof -
  have magic: "length UnconnectedMessageSequence = 16" by (simp add: UnconnectedMessageSequence_def)
  have len: "length (v2_Short_bytes n) = 2" for n by (simp add: v2_Short_bytes_def)
  have le: "int (length (uo_Data pk)) < 2 ^ 15" using assms(2) by simp
  have "signed_take_bit 15 (int (length (uo_Data pk))) = int (length (uo_Data pk))"
    by (rule signed_take_bit_int_eq_self [OF _ le]) simp
  then have l: "sint (word_of_nat (length (uo_Data pk)) :: 16 word) = int (length (uo_Data pk))"
    by (simp add: signed_of_nat)
  have be: "be16 (v2_Short_bytes n) = n" for n by (simp add: v2_Short_bytes_def be16_Encode)
  have data: "str_bytes (uo_Data pk) \<noteq> []" using assms(1) by (metis length_0_conv length_str_bytes)
  note reads = binary_Read_seg [OF length_Long_Encode] binary_Read_seg [OF magic] binary_Read_seg [OF len]
    conn_Read_seg [OF disjI1 [OF data], where bs = "[]", simplified]
  show ?thesis using assms(1)
    by (simp add: UnconnectedPong_Read_def UnconnectedPong_bytes_def mem_reader_seg_in [of "_ @ _"] reads
        be64_Encode be l mem_reader_Nil)
qed

lemma UnconnectedPing_bytes_Cons: "UnconnectedPing_bytes pk = IDUnconnectedPing # tl (UnconnectedPing_bytes pk)"
  by (simp add: UnconnectedPing_bytes_def)

lemma join_semicolon_not_Nil: "join_semicolon (x # y # xs) \<noteq> []"
  by simp

lemma Status_not_Nil: "BedrockServerConfig_Status cfg \<noteq> []"
  by (simp add: BedrockServerConfig_Status_def Let_def)

text \<open>
  C35: An unconnected ping is answered with one pong, to the client and over the socket it came in
  on; read back, the pong has the ping's time stamp, the server's id and the server's status text.
\<close>

theorem bedrock_ping_answered:
  assumes ping: "take n buf = UnconnectedPing_bytes pk" and status: "length (BedrockServerConfig_Status cfg) < 2 ^ 15"
  shows "\<exists>pong. v2_serve dial cfg pc addr n (buf, s) = (Ok (), pong_over pong buf, WriteTo pc pong addr s) \<and>
    hd pong = IDUnconnectedPong \<and>
    UnconnectedPong_Read old (mem_reader (tl pong)) = (Ok (\<lparr>uo_SendTimestamp = up_SendTimestamp pk,
      uo_Magic = UnconnectedMessageSequence, uo_ServerGUID = br_ID cfg,
      uo_Data = BedrockServerConfig_Status cfg\<rparr>, None), mem_reader [])"
proof -
  let ?pong = "\<lparr>uo_SendTimestamp = up_SendTimestamp pk, uo_Magic = replicate 16 0,
    uo_ServerGUID = br_ID cfg, uo_Data = BedrockServerConfig_Status cfg\<rparr>"
  have id: "(case take n buf of [] \<Rightarrow> 0 | b # _ \<Rightarrow> b) = IDUnconnectedPing"
    unfolding ping by (subst UnconnectedPing_bytes_Cons) simp
  have "v2_serve dial cfg pc addr n (buf, s) =
      (Ok (), pong_over (UnconnectedPong_bytes ?pong) buf, WriteTo pc (UnconnectedPong_bytes ?pong) addr s)"
    unfolding v2_serve_def Let_def prod.case id by (simp add: ping handleUnconnectedPing_def UnconnectedPing_Read_bytes Let_def)
  moreover have "hd (UnconnectedPong_bytes ?pong) = IDUnconnectedPong" by (simp add: UnconnectedPong_bytes_def)
  ultimately show ?thesis using UnconnectedPong_Read_bytes [of ?pong old] status Status_not_Nil [of cfg]
    by (intro exI [of _ "UnconnectedPong_bytes ?pong"]) simp
qed

section \<open>Facts about sockets\<close>

text \<open>
  What the servers and goroutines do to the sockets, abstracting from buffers: nothing, a pong, a
  datagram sent on the socket of the client's address, the same with a new socket, an answer passed on,
  or a socket that is no longer read.
\<close>

definition udp_open :: "string \<Rightarrow> nat \<Rightarrow> udp_addr \<Rightarrow> udp_state \<Rightarrow> udp_state" where
  "udp_open target pc addr s =
    s\<lparr>ud_connections := (ud_connections s)(ua_IP addr \<mapsto> length (ud_sockets s)),
      ud_sockets := ud_sockets s @ [\<lparr>us_dialled = target, us_listener = pc, us_client = addr, us_sent = [],
        us_reading = True\<rparr>]\<rparr>"

inductive udp_step :: "string set \<Rightarrow> udp_state \<Rightarrow> udp_state \<Rightarrow> bool" for targets where
  unchanged: "udp_step targets s s"
| ponged: "udp_step targets s (WriteTo pc (UnconnectedPong_bytes pong) addr s)"
| sent: "ud_connections s ip = Some k \<Longrightarrow> udp_step targets s (socket_Write k bb s)"
| opened: "ud_connections s (ua_IP addr) = None \<Longrightarrow> target \<in> targets \<Longrightarrow>
    udp_step targets s (socket_Write (length (ud_sockets s)) bb (udp_open target pc addr s))"
| passed_on: "k < length (ud_sockets s) \<Longrightarrow> us_reading (ud_sockets s ! k) \<Longrightarrow>
    udp_step targets s (socket_answer k b s)"
| failed: "k < length (ud_sockets s) \<Longrightarrow> udp_step targets s (socket_fails k s)"

lemma v2_serve_udp:
  assumes "v2_serve dial cfg pc addr n (buf, s) = (x, buf', s')" and "br_ProxyTo cfg \<in> targets"
  shows "udp_step targets s s'"
  using assms
  by (auto simp: v2_serve_def handleUnconnectedPing_def Let_def udp_open_def [symmetric]
      split: if_splits option.splits prod.splits intro: udp_step.intros)

definition bedrock_targets :: "bedrock_state \<Rightarrow> string set" where
  "bedrock_targets s = (\<lambda>sv. br_ProxyTo (bk_cfg sv)) ` set (bd_servers s)"

lemma targets_update:
  "k < length svs \<Longrightarrow> bk_cfg sv = bk_cfg (svs ! k) \<Longrightarrow>
   (\<lambda>sv. br_ProxyTo (bk_cfg sv)) ` set (svs[k := sv]) = (\<lambda>sv. br_ProxyTo (bk_cfg sv)) ` set svs"
proof -
  assume "k < length svs" "bk_cfg sv = bk_cfg (svs ! k)"
  then have "map (\<lambda>sv. br_ProxyTo (bk_cfg sv)) (svs[k := sv]) =
      (map (\<lambda>sv. br_ProxyTo (bk_cfg sv)) svs)[k := br_ProxyTo (bk_cfg (svs ! k))]"
    by (simp add: map_update)
  also have "\<dots> = map (\<lambda>sv. br_ProxyTo (bk_cfg sv)) svs"
    using \<open>k < length svs\<close> by (intro nth_equalityI) (auto simp: nth_list_update)
  finally have "map (\<lambda>sv. br_ProxyTo (bk_cfg sv)) (svs[k := sv]) = map (\<lambda>sv. br_ProxyTo (bk_cfg sv)) svs" .
  then show ?thesis by (metis set_map)
qed

lemma bedrock_step_udp:
  assumes "bedrock_step dial s s'"
  shows "udp_step (bedrock_targets s) (bd_udp s) (bd_udp s') \<and> bedrock_targets s' = bedrock_targets s"
  using assms
proof (induction rule: bedrock_step.induct)
  case (served s k sv i addr n x buf udp)
  have "br_ProxyTo (bk_cfg sv) \<in> bedrock_targets s" using served(2,3) by (auto simp: bedrock_targets_def)
  from v2_serve_udp [OF served(6) this] served show ?case by (simp add: bedrock_targets_def targets_update)
qed (auto simp: bedrock_targets_def targets_update ReadFrom_def Let_def intro: udp_step.intros)

lemma bedrock_targets_run:
  "(bedrock_step dial)\<^sup>*\<^sup>* (bedrock_start cfgs) s \<Longrightarrow> bedrock_targets s = br_ProxyTo ` set cfgs"
proof (induction rule: rtranclp_induct)
  case base
  show ?case by (force simp: bedrock_targets_def bedrock_start_def StartBedrockServer_def)
next
  case (step t u)
  with bedrock_step_udp [OF step(2)] show ?case by simp
qed

text \<open>One socket for each address, opened by one of the servers.\<close>

definition udp_inv :: "string set \<Rightarrow> udp_state \<Rightarrow> bool" where
  "udp_inv targets s \<longleftrightarrow>
    (\<forall>ip k. ud_connections s ip = Some k \<longrightarrow> k < length (ud_sockets s) \<and> ua_IP (us_client (ud_sockets s ! k)) = ip) \<and>
    (\<forall>k<length (ud_sockets s). us_dialled (ud_sockets s ! k) \<in> targets \<and>
      ud_connections s (ua_IP (us_client (ud_sockets s ! k))) = Some k)"

lemma udp_inv_start: "udp_inv targets udp_start"
  by (simp add: udp_inv_def udp_start_def)

lemma nth_update_keeps: "f x = f (xs ! k) \<Longrightarrow> f (xs[k := x] ! j) = f (xs ! j)"
  by (cases "k < length xs"; cases "j = k") (simp_all add: list_update_beyond not_less)

lemma udp_inv_update:
  assumes "udp_inv targets s" and x: "us_dialled x = us_dialled (ud_sockets s ! k)" "us_client x = us_client (ud_sockets s ! k)"
  shows "udp_inv targets (s\<lparr>ud_sockets := (ud_sockets s)[k := x]\<rparr>)"
  using assms(1) nth_update_keeps [of us_dialled, OF x(1)] nth_update_keeps [of us_client, OF x(2)]
  by (simp add: udp_inv_def)

lemma udp_inv_open:
  assumes inv: "udp_inv targets s" and new: "ud_connections s (ua_IP addr) = None" and "target \<in> targets"
  shows "udp_inv targets (udp_open target pc addr s)"
proof -
  let ?n = "length (ud_sockets s)" and ?s = "udp_open target pc addr s"
  have old: "ud_sockets ?s ! k = ud_sockets s ! k" if "k < ?n" for k
    using that by (simp add: udp_open_def nth_append)
  have last: "us_dialled (ud_sockets ?s ! ?n) = target" "us_client (ud_sockets ?s ! ?n) = addr"
    by (simp_all add: udp_open_def)
  have conn: "ud_connections ?s = (ud_connections s)(ua_IP addr \<mapsto> ?n)" "length (ud_sockets ?s) = Suc ?n"
    by (simp_all add: udp_open_def)
  have "k < Suc ?n \<and> ua_IP (us_client (ud_sockets ?s ! k)) = ip" if "ud_connections ?s ip = Some k" for ip k
    using inv that last(2) old [of k] by (cases "ip = ua_IP addr") (auto simp: conn udp_inv_def intro: less_SucI)
  moreover have "us_dialled (ud_sockets ?s ! k) \<in> targets \<and>
      ud_connections ?s (ua_IP (us_client (ud_sockets ?s ! k))) = Some k" if "k < Suc ?n" for k
  proof (cases "k = ?n")
    case True
    with last assms(3) show ?thesis by (simp add: conn)
  next
    case False
    with that have k: "k < ?n" by simp
    with inv have "us_dialled (ud_sockets s ! k) \<in> targets"
      and c: "ud_connections s (ua_IP (us_client (ud_sockets s ! k))) = Some k" by (auto simp: udp_inv_def)
    moreover have "ua_IP (us_client (ud_sockets s ! k)) \<noteq> ua_IP addr" using c new by auto
    ultimately show ?thesis by (simp add: old [OF k] conn)
  qed
  ultimately show ?thesis by (simp add: udp_inv_def conn(2))
qed

lemma udp_inv_step: "udp_step targets s s' \<Longrightarrow> udp_inv targets s \<Longrightarrow> udp_inv targets s'"
proof (induction rule: udp_step.induct)
  case (opened s addr target bb pc)
  from udp_inv_open [OF opened(3,1,2), of pc] show ?case unfolding socket_Write_def
    by (rule udp_inv_update) simp_all
next
  case (sent s ip k bb)
  then show ?case unfolding socket_Write_def by (intro udp_inv_update) simp_all
next
  case (failed k s)
  then show ?case unfolding socket_fails_def by (intro udp_inv_update) simp_all
qed (simp_all add: udp_inv_def WriteTo_def socket_answer_def Let_def)


lemma udp_inv_bedrock:
  "(bedrock_step dial)\<^sup>*\<^sup>* (bedrock_start cfgs) s \<Longrightarrow> udp_inv (br_ProxyTo ` set cfgs) (bd_udp s)"
proof (induction rule: rtranclp_induct)
  case base
  show ?case by (simp add: bedrock_start_def udp_inv_start)
next
  case (step t u)
  with bedrock_step_udp [OF step(2)] bedrock_targets_run [OF step(1)] show ?case
    by (auto intro: udp_inv_step)
qed

text \<open>A socket that is not read any more: its address gets pongs only.\<close>

definition pongs_only :: "string \<Rightarrow> (nat \<times> udp_addr \<times> byte list) list \<Rightarrow> bool" where
  "pongs_only ip rs \<longleftrightarrow> 
    list_all (\<lambda>(pc, addr, b). ua_IP addr = ip \<longrightarrow> (\<exists>pong. b = UnconnectedPong_bytes pong)) rs"

definition dead_socket :: "string \<Rightarrow> udp_state \<Rightarrow> bool" where
  "dead_socket ip s \<longleftrightarrow> (\<exists>k. ud_connections s ip = Some k \<and> k < length (ud_sockets s) \<and> \<not> us_reading (ud_sockets s ! k))"

lemma pongs_only_append: "pongs_only ip (rs @ rs') \<longleftrightarrow> pongs_only ip rs \<and> pongs_only ip rs'"
  by (simp add: pongs_only_def)

lemma dead_socket_update:
  assumes "dead_socket ip s" and "us_reading x \<Longrightarrow> us_reading (ud_sockets s ! k)"
  shows "dead_socket ip (s\<lparr>ud_sockets := (ud_sockets s)[k := x]\<rparr>)"
proof -
  from assms(1) obtain j where j: "ud_connections s ip = Some j" "j < length (ud_sockets s)"
    "\<not> us_reading (ud_sockets s ! j)" by (auto simp: dead_socket_def)
  with assms(2) have "\<not> us_reading ((ud_sockets s)[k := x] ! j)" by (cases "j = k") auto
  with j show ?thesis by (simp add: dead_socket_def)
qed

lemma dead_socket_Write: "dead_socket ip s \<Longrightarrow> dead_socket ip (socket_Write k bb s)"
  unfolding socket_Write_def by (rule dead_socket_update) simp_all

lemma dead_socket_fails: "dead_socket ip s \<Longrightarrow> dead_socket ip (socket_fails k s)"
  unfolding socket_fails_def by (rule dead_socket_update) simp_all

lemma ud_replies_kept:
  "ud_replies (socket_Write k bb s) = ud_replies s" "ud_replies (socket_fails k s) = ud_replies s"
  "ud_replies (udp_open target pc addr s) = ud_replies s"
  by (simp_all add: socket_Write_def socket_fails_def udp_open_def)

lemma dead_socket_step:
  assumes "udp_step targets s s'" and "udp_inv targets s" and "dead_socket ip s"
  shows "dead_socket ip s' \<and> (\<exists>rs. ud_replies s' = ud_replies s @ rs \<and> pongs_only ip rs)"
  using assms
proof (induction rule: udp_step.induct)
  case (ponged s pc pong addr)
  then show ?case by (auto simp: WriteTo_def pongs_only_def dead_socket_def)
next
  case (sent s ip' k bb)
  then show ?case by (simp add: dead_socket_Write ud_replies_kept pongs_only_def)
next
  case (opened s addr target bb pc)
  have "dead_socket ip (udp_open target pc addr s)"
    using opened(1,4) by (fastforce simp: dead_socket_def udp_open_def nth_append)
  then show ?case by (simp add: dead_socket_Write ud_replies_kept pongs_only_def)
next
  case (passed_on k s b)
  then have "ua_IP (us_client (ud_sockets s ! k)) \<noteq> ip" by (auto simp: dead_socket_def udp_inv_def)
  with passed_on show ?case by (auto simp: socket_answer_def WriteTo_def Let_def pongs_only_def dead_socket_def)
next
  case (failed k s)
  then show ?case by (simp add: dead_socket_fails ud_replies_kept pongs_only_def)
qed (auto simp: pongs_only_def)



section \<open>The shared buffer\<close>

lemma length_write_over: "length b \<le> length buf \<Longrightarrow> length (write_over b buf) = length buf"
  by (simp add: write_over_def)

lemma length_pong_over: "35 \<le> length buf \<Longrightarrow> length (pong_over pong buf) = length buf"
  by (simp add: pong_over_def length_write_over)

lemma v2_serve_buf:
  "v2_serve dial cfg pc addr n (buf, s) = (x, buf', s') \<Longrightarrow> length buf = 2048 \<Longrightarrow> length buf' = 2048"
  by (auto simp: v2_serve_def handleUnconnectedPing_def Let_def length_pong_over
      split: if_splits option.splits prod.splits)

definition bufs_ok :: "bedrock_state \<Rightarrow> bool" where
  "bufs_ok s \<longleftrightarrow> (\<forall>sv\<in>set (bd_servers s). length (bk_buf sv) = 2048)"

lemma bufs_ok_step: "bedrock_step dial s s' \<Longrightarrow> bufs_ok s \<Longrightarrow> bufs_ok s'"
proof (induction rule: bedrock_step.induct)
  case (served s k sv i addr n x buf udp)
  then have "length buf = 2048" using v2_serve_buf [OF served(6)] by (auto simp: bufs_ok_def)
  with served show ?case by (auto simp: bufs_ok_def dest!: set_update_subset_insert [THEN subsetD])
qed (auto simp: bufs_ok_def ReadFrom_def Let_def length_write_over dest!: set_update_subset_insert [THEN subsetD])

lemma bufs_ok_reachable: "(bedrock_step dial)\<^sup>*\<^sup>* (bedrock_start cfgs) s \<Longrightarrow> bufs_ok s"
proof (induction rule: rtranclp_induct)
  case base
  show ?case by (simp add: bufs_ok_def bedrock_start_def StartBedrockServer_def)
qed (rule bufs_ok_step)

lemma pending_ReadFrom: "length d \<le> length (bk_buf sv) \<Longrightarrow> bk_pending (ReadFrom addr d sv) = bk_pending sv @ [(addr, length d)]"
  by (simp add: ReadFrom_def Let_def)

lemma slice_ReadFrom: "n \<le> length d \<Longrightarrow> length d \<le> length (bk_buf sv) \<Longrightarrow> take n (bk_buf (ReadFrom addr d sv)) = take n d"
  by (simp add: ReadFrom_def Let_def write_over_def)

lemma kept_ReadFrom: "bk_cfg (ReadFrom addr d sv) = bk_cfg sv" "bk_running (ReadFrom addr d sv) = bk_running sv"
  "length d \<le> length (bk_buf sv) \<Longrightarrow> length (bk_buf (ReadFrom addr d sv)) = length (bk_buf sv)"
  by (simp_all add: ReadFrom_def Let_def length_write_over)

text \<open>The datagram received last is the one a goroutine sees, whatever it was started for.\<close>

lemma serve_last_received:
  assumes k: "\<not> bd_crashed s" "k < length (bd_servers s)" "bk_running (bd_servers s ! k)"
    and i: "i < length (bk_pending (ReadFrom addr d (bd_servers s ! k)))"
      "bk_pending (ReadFrom addr d (bd_servers s ! k)) ! i = (a1, n)"
    and d: "n \<le> length d" "length d \<le> length (bk_buf (bd_servers s ! k))" "0 < n"
      "hd d \<noteq> IDUnconnectedPing" "hd d \<noteq> IDUnconnectedPingOpenConnections"
    and j: "ud_connections (bd_udp s) (ua_IP a1) = Some j"
  shows "\<exists>s'. (bedrock_step dial)\<^sup>*\<^sup>* s s' \<and> bd_udp s' = socket_Write j (take n d) (bd_udp s)"
proof -
  let ?sv = "ReadFrom addr d (bd_servers s ! k)"
  let ?s1 = "s\<lparr>bd_servers := (bd_servers s)[k := ?sv]\<rparr>"
  have one: "bedrock_step dial s ?s1" by (rule received [OF k])
  obtain b bs where bb: "take n d = b # bs" "b = hd d" using d(1,3) by (cases n; cases d) auto
  have "take n (bk_buf ?sv) = b # bs" using slice_ReadFrom [OF d(1,2)] bb by simp
  then have serve: "v2_serve dial (bk_cfg ?sv) k a1 n (bk_buf ?sv, bd_udp ?s1) =
      (Ok (), bk_buf ?sv, socket_Write j (take n d) (bd_udp s))"
    using d(4,5) bb j by (simp add: v2_serve_def Let_def)
  let ?s2 = "?s1\<lparr>bd_servers := (bd_servers ?s1)[k := ?sv\<lparr>bk_buf := bk_buf ?sv,
      bk_pending := remove_nth i (bk_pending ?sv)\<rparr>], bd_udp := socket_Write j (take n d) (bd_udp s),
      bd_crashed := (Ok () = Panic)\<rparr>"
  have "bedrock_step dial ?s1 ?s2"
    using k by (intro served [OF _ _ _ i(1) i(2) serve]) simp_all
  with one have "(bedrock_step dial)\<^sup>*\<^sup>* s ?s2" by (rule converse_rtranclp_into_rtranclp [OF _ r_into_rtranclp])
  then show ?thesis by (intro exI [of _ ?s2]) simp
qed


section \<open>An example\<close>

definition example_bedrock :: BedrockServerConfig where
  "example_bedrock = (DefaultBedrockServerConfig 7)\<lparr>br_ListenTo := '':19132'', br_ProxyTo := ''b''\<rparr>"

lemma one_datagram:
  assumes "d \<noteq> []" and "length d \<le> 2048"
    and "hd d \<noteq> IDUnconnectedPing" and "hd d \<noteq> IDUnconnectedPingOpenConnections" and "dial (br_ProxyTo cfg)"
  shows "\<exists>s. (bedrock_step dial)\<^sup>*\<^sup>* (bedrock_start [cfg]) s \<and> \<not> bd_crashed s \<and> length (bd_servers s) = 1 \<and>
    bk_running (bd_servers s ! 0) \<and> ud_connections (bd_udp s) (ua_IP (a1 :: udp_addr)) = Some 0 \<and> length (ud_sockets (bd_udp s)) = 1"
proof -
  let ?s0 = "bedrock_start [cfg]" and ?sv = "ReadFrom a1 d (StartBedrockServer cfg)"
  let ?s1 = "?s0\<lparr>bd_servers := [?sv]\<rparr>"
  have one: "bedrock_step dial ?s0 ?s1"
    using received [of ?s0 0 dial a1 d] by (simp add: bedrock_start_def StartBedrockServer_def)
  obtain buf udp where serve: "v2_serve dial (bk_cfg ?sv) 0 a1 (length d) (bk_buf ?sv, bd_udp ?s1) = (Ok (), buf, udp)"
    and udp: "ud_connections udp (ua_IP a1) = Some 0" "length (ud_sockets udp) = 1"
    using assms
    by (cases d) (auto simp: v2_serve_def Let_def bedrock_start_def udp_start_def socket_Write_def ReadFrom_def
        StartBedrockServer_def write_over_def)
  let ?s2 = "?s1\<lparr>bd_servers := (bd_servers ?s1)[0 := ?sv\<lparr>bk_buf := buf,
      bk_pending := remove_nth 0 (bk_pending ?sv)\<rparr>], bd_udp := udp, bd_crashed := (Ok () = Panic)\<rparr>"
  have "bedrock_step dial ?s1 ?s2"
    using assms(2) by (intro served [OF _ _ _ _ _ serve])
      (simp_all add: bedrock_start_def StartBedrockServer_def pending_ReadFrom)
  with one have "(bedrock_step dial)\<^sup>*\<^sup>* ?s0 ?s2" by (rule converse_rtranclp_into_rtranclp [OF _ r_into_rtranclp])
  then show ?thesis
    by (intro exI [of _ ?s2]) (simp add: udp kept_ReadFrom StartBedrockServer_def)
qed

lemma example_run:
  obtains s where "(bedrock_step (\<lambda>_. True))\<^sup>*\<^sup>* (bedrock_start [example_bedrock]) s" "\<not> bd_crashed s"
    "length (bd_servers s) = 1" "bk_running (bd_servers s ! 0)" "ud_connections (bd_udp s) ''c'' = Some 0"
    "length (ud_sockets (bd_udp s)) = 1"
  using one_datagram [of "[0x84, 1]" "\<lambda>_. True" example_bedrock "\<lparr>ua_IP = ''c'', ua_Port = 1\<rparr>"]
  by (auto simp: IDUnconnectedPing_def IDUnconnectedPingOpenConnections_def)



theorem bedrock_ping_answered_witness:
  "\<exists>pong. v2_serve (\<lambda>_. False) example_bedrock 0 \<lparr>ua_IP = ''c'', ua_Port = 1\<rparr> 33
      (UnconnectedPing_bytes \<lparr>up_SendTimestamp = 5, up_Magic = [], up_ClientGUID = 6\<rparr> @ replicate 2015 0, udp_start) =
    (Ok (), pong_over pong (UnconnectedPing_bytes \<lparr>up_SendTimestamp = 5, up_Magic = [], up_ClientGUID = 6\<rparr> @ replicate 2015 0),
     WriteTo 0 pong \<lparr>ua_IP = ''c'', ua_Port = 1\<rparr> udp_start)"
proof -
  have "length (BedrockServerConfig_Status example_bedrock) < 2 ^ 15"
    by (simp add: example_bedrock_def BedrockServerConfig_Status_def DefaultBedrockServerConfig_def show_word_def
        show_int_def show_nat.simps)
  moreover have "take 33 (UnconnectedPing_bytes \<lparr>up_SendTimestamp = 5, up_Magic = [], up_ClientGUID = 6\<rparr> @ replicate 2015 0) =
    UnconnectedPing_bytes \<lparr>up_SendTimestamp = 5, up_Magic = [], up_ClientGUID = 6\<rparr>"
    by (simp add: UnconnectedPing_bytes_def UnconnectedMessageSequence_def)
  ultimately show ?thesis using bedrock_ping_answered by blast
qed


section \<open>What Run starts\<close>

lemma start_bedrock_map:
  "start_bedrock listen cfgs svs = Ok svs' \<Longrightarrow> svs' = svs @ map StartBedrockServer cfgs \<and>
    list_all (\<lambda>cfg. listen (br_ListenTo cfg)) cfgs"
  by (induction listen cfgs svs rule: start_bedrock.induct)
    (auto simp: CreateBedrockListener_def split: if_splits)



end
