(* ===== verification/Cmd_Main.thy ===== *)
theory Cmd_Main
  imports Wrk_Run UV_Speedy V2_Bedrock
begin

text \<open>
  The command line (cmd/main.go). The process upgrader tableflip, the listeners of the operating system
  and the client side of HTTP are parameters.
\<close>

section \<open>The environment of a command\<close>

text \<open>
  How a command ends: it returns, it exits with \<open>log.Fatal\<close>, it waits for ever (serving), or it panics.
\<close>

datatype cmd_end = CmdReturns "go_error option" | CmdFatal | CmdBlocks | CmdPanics

record 'f cmd_env =
  ce_v2 :: "'f v2_env"
  ce_windows :: bool
  ce_version :: string
  ce_pid :: string
  ce_Listen :: "string \<Rightarrow> 'f \<Rightarrow> unit res"
  ce_ListenPacket :: "string \<Rightarrow> bool"
  ce_tableflip_New :: "string \<Rightarrow> 'f \<Rightarrow> unit res \<times> 'f"
  ce_tableflip_Listen :: "string \<Rightarrow> 'f \<Rightarrow> unit res \<times> 'f"
  ce_Ready :: "'f \<Rightarrow> unit res \<times> 'f"
  ce_http_Get :: "string \<Rightarrow> 'f \<Rightarrow> http_response res \<times> 'f"

abbreviation ce_os :: "'f cmd_env \<Rightarrow> 'f os_env" where
  "ce_os env \<equiv> v2_os (ce_v2 env)"

definition defaultCfgPath :: string where "defaultCfgPath = ''/etc/ultraviolet''"
definition pidFileName :: string where "pidFileName = ''uv.pid''"

section \<open>Listeners\<close>

datatype listener =
    TcpListener string
  | TableflipListener string
  | ProxyProtoListener listener

text \<open>The result of \<open>log.Fatal\<close> is \<open>None\<close>.\<close>

definition tableflipListener :: "'f cmd_env \<Rightarrow> UltravioletConfig \<Rightarrow> 'f \<Rightarrow> listener res option \<times> 'f" where
  "tableflipListener env cfg f =
    (case ce_tableflip_New env (uc_PidFile cfg) f of
       (Ok _, f1) \<Rightarrow>
         (case ce_tableflip_Listen env (uc_ListenTo cfg) f1 of
            (Ok _, f2) \<Rightarrow> (Some (Ok (TableflipListener (uc_ListenTo cfg))), f2)
          | (Err e, f2) \<Rightarrow> (Some (Err e), f2)
          | (Panic, f2) \<Rightarrow> (Some Panic, f2))
     | (_, f1) \<Rightarrow> (None, f1))"

text \<open>The error of writing the process id is dropped.\<close>

definition write_pid :: "'f cmd_env \<Rightarrow> string \<Rightarrow> 'f \<Rightarrow> 'f" where
  "write_pid env pidFile f =
    (if en_Stat (ce_os env) pidFile f = Err ErrNotExist
     then snd (en_WriteFile (ce_os env) pidFile (str_bytes (ce_pid env)) f) else f)"

definition createListener ::
  "'f cmd_env \<Rightarrow> string \<Rightarrow> UltravioletConfig \<Rightarrow> bool \<Rightarrow> 'f \<Rightarrow> listener res option \<times> 'f" where
  "createListener env pidFilePath cfg notUseHotSwap f =
    (let (ln, f1) =
       (if notUseHotSwap then
          (Some (res_bind (ce_Listen env (uc_ListenTo cfg) f) (\<lambda>_. Ok (TcpListener (uc_ListenTo cfg)))), f)
        else
          let cfg1 = (if uc_PidFile cfg = [] then cfg\<lparr>uc_PidFile := pidFilePath\<rparr> else cfg)
          in tableflipListener env cfg1 (write_pid env (uc_PidFile cfg1) f)) in
     case ln of
       Some (Ok l) \<Rightarrow> (Some (Ok (if uc_AcceptProxyProtocol cfg then ProxyProtoListener l else l)), f1)
     | Some Panic \<Rightarrow> (Some Panic, f1)
     | _ \<Rightarrow> (None, f1))"

section \<open>Running a proxy\<close>

text \<open>
  The interface \<open>Proxy\<close> and the functions that make one. \<open>Start\<close> of a proxy that serves in this call does
  not return, which is \<open>None\<close>.
\<close>

record 'f Proxy =
  pr_Start :: "'f \<Rightarrow> unit res option \<times> 'f"

type_synonym 'f NewProxyFunc =
  "'f UVConfigReader \<Rightarrow> listener \<Rightarrow> ('f \<Rightarrow> ServerConfig list res) \<Rightarrow> 'f Proxy"

text \<open>The two functions, with the outside world of the proxies they make.\<close>

definition worker_proxy ::
  "backend_env \<Rightarrow> (string \<Rightarrow> string) \<Rightarrow> 'f cmd_env \<Rightarrow> visit \<Rightarrow> worker_world \<Rightarrow> 'f NewProxyFunc" where
  "worker_proxy benv uni env v w = (\<lambda>uvReader l cfgReader.
    \<lparr>pr_Start = (\<lambda>f. map_prod (\<lambda>r. Some (res_bind r (\<lambda>_. Ok ()))) (\<lambda>f. f)
      (WorkerProxy_Start benv uni (ce_os env) v (NewWorkerProxy uvReader l cfgReader) f w))\<rparr>)"

definition speedy_proxy :: "(string \<Rightarrow> string) \<Rightarrow> 'f cmd_env \<Rightarrow> bool \<Rightarrow> 'f NewProxyFunc" where
  "speedy_proxy uni env closes = (\<lambda>uvReader l cfgReader.
    \<lparr>pr_Start = (\<lambda>f. case SpeedyProxy_Start uni (ce_os env) closes (NewSpeedyProxy uvReader l cfgReader) f of
      (r, p, f1) \<Rightarrow> (r, f1))\<rparr>)"

definition RunProxy :: "'f cmd_env \<Rightarrow> string \<Rightarrow> string \<Rightarrow> 'f NewProxyFunc \<Rightarrow> 'f \<Rightarrow> cmd_end \<times> 'f" where
  "RunProxy env configPath version newProxy f =
    (let pidFilePath = en_Join (ce_os env) configPath pidFileName;
         uvReader = NewUVConfigFileReader (ce_os env) configPath;
         serverCfgReader = NewBackendConfigFileReader configPath VerifyConfigs in
     case uvReader f of
       (Ok (cfg, None), f1) \<Rightarrow>
         (let notUseHotSwap = (\<not> uc_UseTableflip cfg \<or> ce_windows env \<or> version = ''docker'') in
          case createListener env pidFilePath cfg notUseHotSwap f1 of
            (Some (Ok newListener), f2) \<Rightarrow>
              (case pr_Start (newProxy uvReader newListener (backendConfigFileReader_Read (ce_os env) serverCfgReader)) f2 of
                 (Some (Ok _), f3) \<Rightarrow>
                   if notUseHotSwap then (CmdBlocks, f3)
                   else (case ce_Ready env f3 of
                           (Ok _, f4) \<Rightarrow> (CmdReturns None, f4)
                         | (_, f4) \<Rightarrow> (CmdPanics, f4))
               | (Some (Err e), f3) \<Rightarrow> (CmdReturns (Some e), f3)
               | (Some Panic, f3) \<Rightarrow> (CmdPanics, f3)
               | (None, f3) \<Rightarrow> (CmdBlocks, f3))
          | (Some (Err e), f2) \<Rightarrow> (CmdReturns (Some e), f2)
          | (Some Panic, f2) \<Rightarrow> (CmdPanics, f2)
          | (None, f2) \<Rightarrow> (CmdFatal, f2))
     | (Ok (cfg, Some e), f1) \<Rightarrow> (CmdReturns (Some e), f1)
     | (_, f1) \<Rightarrow> (CmdPanics, f1))"

definition runProxy ::
  "'f cmd_env \<Rightarrow> 'f NewProxyFunc \<Rightarrow> 'f NewProxyFunc \<Rightarrow> string \<Rightarrow> 'f \<Rightarrow> cmd_end \<times> 'f" where
  "runProxy env worker_NewProxy ultraviolet_NewProxy configPath f =
    (case NewUVConfigFileReader (ce_os env) configPath f of
       (Ok (cfg, None), f1) \<Rightarrow>
         RunProxy env configPath (ce_version env)
           (if uc_UseLessStableMode cfg then ultraviolet_NewProxy else worker_NewProxy) f1
     | (Ok (cfg, Some e), f1) \<Rightarrow> (CmdReturns (Some e), f1)
     | (_, f1) \<Rightarrow> (CmdPanics, f1))"

section \<open>Reloading\<close>

definition reload_url :: "UltravioletConfig \<Rightarrow> string" where
  "reload_url cfg = ''http://'' @ uc_APIBind cfg @ ''/reload''"

text \<open>The text that is printed is the body of the response, whatever its status.\<close>

definition callReloadAPI :: "'f cmd_env \<Rightarrow> string \<Rightarrow> 'f \<Rightarrow> cmd_end \<times> string \<times> 'f" where
  "callReloadAPI env configPath f =
    (case ReadUltravioletConfig (ce_os env) configPath f of
       (Ok (mainCfg, None), f1) \<Rightarrow>
         (case ce_http_Get env (reload_url mainCfg) f1 of
            (Ok resp, f2) \<Rightarrow>
              (case ht_body resp of
                 Ok bb \<Rightarrow> (CmdReturns None, bb, f2)
               | Err e \<Rightarrow> (CmdReturns (Some e), [], f2)
               | Panic \<Rightarrow> (CmdPanics, [], f2))
          | (Err e, f2) \<Rightarrow> (CmdReturns (Some e), [], f2)
          | (Panic, f2) \<Rightarrow> (CmdPanics, [], f2))
     | (Ok (mainCfg, Some e), f1) \<Rightarrow> (CmdFatal, [], f1)
     | (_, f1) \<Rightarrow> (CmdPanics, [], f1))"

section \<open>The command line\<close>

text \<open>
  The package flag with the one flag \<open>config\<close>: flags begin with one or two dashes and end at the first
  other argument or at two dashes alone; the value follows an equals sign or is the next argument.
  \<open>None\<close> stands for an error, or a call for help, which ends the process.
\<close>

definition flag_name :: "string \<Rightarrow> string option" where
  "flag_name s =
    (case s of
       CHR ''-'' # CHR ''-'' # name \<Rightarrow> Some name
     | CHR ''-'' # c # name \<Rightarrow> Some (c # name)
     | _ \<Rightarrow> None)"

fun parse_flags :: "string list \<Rightarrow> string \<Rightarrow> string option" where
  "parse_flags [] config = Some config"
| "parse_flags (a # rest) config =
    (case flag_name a of
       None \<Rightarrow> Some config
     | Some name \<Rightarrow>
         if name = [] then Some config
         else if hd name = CHR ''-'' \<or> hd name = CHR ''='' then None
         else (case Cut ''='' name of
             Some (n, v) \<Rightarrow> if n = ''config'' then parse_flags rest v else None
           | None \<Rightarrow>
               if name = ''config'' then
                 (case rest of [] \<Rightarrow> None | v # rest' \<Rightarrow> parse_flags rest' v)
               else None))"

text \<open>
  An error of \<open>run\<close> is logged only. \<open>run-experimental\<close> serves for ever when its \<open>Run\<close> has started.
\<close>

definition Main ::
  "'f cmd_env \<Rightarrow> 'f NewProxyFunc \<Rightarrow> 'f NewProxyFunc \<Rightarrow> string list \<Rightarrow> 'f \<Rightarrow> cmd_end \<times> 'f" where
  "Main env worker_NewProxy ultraviolet_NewProxy args f =
    (if length args < 2 then (CmdFatal, f)
     else (case parse_flags (drop 2 args) defaultCfgPath of
         None \<Rightarrow> (CmdFatal, f)
       | Some configPath \<Rightarrow>
           if args ! 1 = ''run'' then
             (case runProxy env worker_NewProxy ultraviolet_NewProxy configPath f of
                (CmdReturns err, f1) \<Rightarrow> (CmdReturns None, f1)
              | r \<Rightarrow> r)
           else if args ! 1 = ''reload'' then
             (case callReloadAPI env configPath f of
                (CmdReturns (Some e), out, f1) \<Rightarrow> (CmdFatal, f1)
              | (r, out, f1) \<Rightarrow> (r, f1))
           else if args ! 1 = ''run-experimental'' then
             (case v2_Run (ce_v2 env) (ce_ListenPacket env) configPath f Map.empty of
                Ok _ \<Rightarrow> (CmdBlocks, f)
              | Err e \<Rightarrow> (CmdFatal, f)
              | Panic \<Rightarrow> (CmdPanics, f))
           else (CmdReturns None, f)))"

section \<open>Facts about commands\<close>

lemma callReloadAPI_response:
  assumes "ReadUltravioletConfig (ce_os env) dir f = (Ok (cfg, None), f1)"
    and "ce_http_Get env (reload_url cfg) f1 = (fst (api_request text update ''/reload'' a), f2)"
  shows "callReloadAPI env dir f =
    (case fst (update (ap_backendManager a)) of
       Ok _ \<Rightarrow> (CmdReturns None, ''success'' @ newline, f2)
     | Err err \<Rightarrow> (CmdReturns None, text err @ newline, f2)
     | Panic \<Rightarrow> (CmdReturns (Some ErrEOF), [], f2))"
  using assms
  by (simp add: callReloadAPI_def api_request_reload http_Error_def split: prod.splits res.splits)

text \<open>
  C39: The reload command makes the API of the running proxy update its backend manager once and
  returns normally whether or not the update succeeded, as the status of the answer is not looked
  at; only when the update panics does the command fail.
\<close>

theorem reload_command:
  assumes flags: "parse_flags rest defaultCfgPath = Some dir"
    and cfg: "ReadUltravioletConfig (ce_os env) dir f = (Ok (cfg, None), f1)"
    and api: "ce_http_Get env (reload_url cfg) f1 =
      (fst (api_request text (BackendManager_Update ops uni oenv v configReader) ''/reload'' a), f2)"
  shows "Main env worker_NewProxy ultraviolet_NewProxy (prog # ''reload'' # rest) f =
      (if fst (BackendManager_Update ops uni oenv v configReader (ap_backendManager a)) = Panic
       then CmdFatal else CmdReturns None, f2) \<and>
    ap_backendManager (snd (api_request text (BackendManager_Update ops uni oenv v configReader) ''/reload'' a)) =
      snd (BackendManager_Update ops uni oenv v configReader (ap_backendManager a))"
  using callReloadAPI_response [OF cfg api] flags
  by (auto simp: Main_def api_request_reload split: prod.splits res.splits)

text \<open>An environment in which requests get one answer.\<close>

definition example_cmd_env :: "http_response res \<Rightarrow> (string \<rightharpoonup> byte list) cmd_env" where
  "example_cmd_env answer = \<lparr>ce_v2 = plain_v2_env, ce_windows = False, ce_version = ''1'', ce_pid = ''7'',
    ce_Listen = (\<lambda>addr f. Ok ()), ce_ListenPacket = (\<lambda>addr. True), ce_tableflip_New = (\<lambda>pid f. (Ok (), f)),
    ce_tableflip_Listen = (\<lambda>addr f. (Ok (), f)), ce_Ready = (\<lambda>f. (Ok (), f)),
    ce_http_Get = (\<lambda>url f. (answer, f))\<rparr>"

definition example_proxy :: "'f NewProxyFunc" where
  "example_proxy uvReader l cfgReader = \<lparr>pr_Start = (\<lambda>f. (Some (Ok ()), f))\<rparr>"

theorem reload_command_witness:
  "\<exists>answer :: http_response res. Main (example_cmd_env answer) example_proxy example_proxy
      [''uv'', ''reload'', ''-config'', ''c''] [''c/ultraviolet.json'' \<mapsto> [1]] =
    (CmdReturns None, [''c/ultraviolet.json'' \<mapsto> [1]]) \<and> (\<exists>r. answer = Ok r \<and> ht_status r = 500)"
proof -
  let ?update = "BackendManager_Update (worker_ops plain_backend_env) (\<lambda>s. s) plain_env
    \<lparr>vi_old = [], vi_new = [], vi_domains = sf_Domains\<rparr> (\<lambda>f. Err (ErrOther ''bad json''))"
  let ?a = "NewAPI (sample_manager Map.empty Map.empty)"
  let ?answer = "fst (api_request (\<lambda>e. ''bad json'') ?update ''/reload'' ?a)"
  let ?f = "[''c/ultraviolet.json'' \<mapsto> [1 :: byte]]"
  have flags: "parse_flags [''-config'', ''c''] defaultCfgPath = Some ''c''"
    by (simp add: flag_name_def)
  have cfg: "ReadUltravioletConfig (ce_os (example_cmd_env ?answer)) ''c'' ?f = (Ok (DefaultUltravioletConfig, None), ?f)"
    by (simp add: ReadUltravioletConfig_def example_cmd_env_def plain_v2_env_def plain_env_def MainConfigFileName_def Let_def)
  have api: "ce_http_Get (example_cmd_env ?answer) (reload_url DefaultUltravioletConfig) ?f = (?answer, ?f)"
    by (simp add: example_cmd_env_def)
  have err: "fst (?update (ap_backendManager ?a)) = Err (ErrOther ''bad json'')"
    by (simp add: BackendManager_Update_def)
  from reload_command [OF flags cfg api, of example_proxy example_proxy "''uv''"] err have
    "Main (example_cmd_env ?answer) example_proxy example_proxy [''uv'', ''reload'', ''-config'', ''c''] ?f = (CmdReturns None, ?f)"
    by simp
  moreover have "\<exists>r. ?answer = Ok r \<and> ht_status r = 500"
    using err by (auto simp: api_request_reload http_Error_def split: prod.splits res.splits)
  ultimately show ?thesis by blast
qed

end
