(* ===== verification/Wrk_Life.thy ===== *)
theory Wrk_Life
  imports Cmd_Main
begin

text \<open>
  The life of the worker mode: it is started, told over HTTP to read its configurations again, and
  its backends work in between. An answer other than success leaves the routing as it was.
\<close>

section \<open>Updates that fail\<close>

text \<open>
  Errors come from the reader or the first conversion of the configurations, before anything is
  changed: adding and updating ignore the error of the conversion.
\<close>

lemma backend_config_no_Err: "fst (backend_config uni env cfg m) \<noteq> Err e"
  by (auto simp: backend_config_def split: prod.splits res.splits)

lemma fst_and_then_Err:
  "fst (and_then x k) = Err e \<longleftrightarrow> fst x = Err e \<or> (\<exists>a r. x = (Ok a, r) \<and> fst (k a r) = Err e)"
  by (cases x; cases "fst x") auto

lemma each_res_no_Err: "(\<And>x m. fst (f x m) \<noteq> Err e) \<Longrightarrow> fst (each_res f xs m) \<noteq> Err e"
  by (induction xs arbitrary: m) (simp_all add: fst_and_then_Err)

lemma addConfig_no_Err: "fst (addConfig ops uni env cfg m) \<noteq> Err e"
  by (simp add: addConfig_def Let_def fst_and_then_Err backend_config_no_Err split: prod.splits)

lemma updateConfig_no_Err: "fst (updateConfig ops uni env order cfg m) \<noteq> Err e"
  by (simp add: updateConfig_def Let_def fst_and_then_Err backend_config_no_Err split: option.splits)

lemma load_no_Err: "fst (loadAllConfigs ops uni env v cfgs m) \<noteq> Err e"
  unfolding loadAllConfigs_def Let_def
  by (rule each_res_no_Err)
    (simp add: add_or_update_def addConfig_no_Err updateConfig_no_Err split: option.splits)

lemma Update_Err:
  assumes "BackendManager_Update ops uni env v reader m = (Err e, m')"
  shows "\<exists>f. m' = m\<lparr>bm_files := f\<rparr>"
proof (cases "reader (bm_files m)")
  case (Ok cfgs)
  obtain r m1 where c: "each_res (check_config uni env) cfgs m = (r, m1)" by force
  have "fst (each_res (addConfig ops uni env) cfgs m1) \<noteq> Err e"
    by (rule each_res_no_Err) (rule addConfig_no_Err)
  with assms Ok c load_no_Err [of ops uni env v cfgs m1 e] have "m' = m1"
    by (cases r) (auto simp: BackendManager_Update_def split: if_splits)
  with checks_files [of uni env cfgs m] c show ?thesis by simp
next
  case (Err e')
  with assms have "m' = m" by (simp add: BackendManager_Update_def)
  then show ?thesis by (intro exI [of _ "bm_files m"]) simp
next
  case Panic
  with assms show ?thesis by (simp add: BackendManager_Update_def)
qed

section \<open>Every update keeps the workers\<close>

lemma all_managed_simps [simp]:
  "all_managed (m\<lparr>bm_files := f\<rparr>) n \<longleftrightarrow> all_managed m n"
  "all_managed (bm_world_update g m) n \<longleftrightarrow> all_managed m n"
  by (simp_all add: all_managed_def)

lemma remove_managed: "all_managed m n \<Longrightarrow> all_managed (remove_if_gone ops newCfgs i m) n"
  by (auto simp: remove_if_gone_def removeConfig_def all_managed_def RemoveBackend_def
      workerManager_update_def SetServers_def split: option.splits)

lemma updateConfig_managed:
  assumes "updateConfig ops uni env order cfg m = (r, m')" and "all_managed m n"
  shows "all_managed m' n"
  using assms
  by (auto simp: updateConfig_def Let_def backend_config_def all_managed_def RemoveBackend_def AddBackend_def
      workerManager_update_def SetServers_def split: option.splits if_splits prod.splits res.splits)

lemma add_or_update_managed:
  assumes "add_or_update ops uni env order newCfgs i m = (Ok (), m')" and "all_managed m n"
  shows "all_managed m' n"
  using assms addConfigs_managed [of ops uni env "[the (newCfgs i)]" m m' n]
  by (auto simp: add_or_update_def and_then_Ok_iff elim: updateConfig_managed split: option.splits if_splits)

lemma adds_managed:
  "each_res (add_or_update ops uni env order newCfgs) ids m = (Ok (), m') \<Longrightarrow> all_managed m n \<Longrightarrow> all_managed m' n"
  by (induction ids arbitrary: m) (auto simp: and_then_Ok_iff dest: add_or_update_managed)

lemma Update_managed:
  assumes "BackendManager_Update ops uni env v reader m = (Ok (), m')" and "all_managed m n"
  shows "all_managed m' n"
proof -
  from assms(1) obtain cfgs m1 where c: "each_res (check_config uni env) cfgs m = (Ok (), m1)"
    and u: "(if dom (bm_cfgs m1) = {} then each_res (addConfig ops uni env) cfgs m1
        else loadAllConfigs ops uni env v cfgs m1) = (Ok (), m')"
    by (auto simp: BackendManager_Update_def and_then_Ok_iff)
  from checks_files [of uni env cfgs m] c assms(2) have m1: "all_managed m1 n" by auto
  have "all_managed (fold (remove_if_gone ops new) ids m1) n" for new ids
    using m1 by (induction ids arbitrary: m1) (simp_all add: remove_managed)
  with u m1 show ?thesis
    by (auto simp: loadAllConfigs_def Let_def split: if_splits elim: addConfigs_managed adds_managed)
qed

section \<open>The life of the worker mode\<close>

text \<open>
  A reader whose results are verified and come from different files, as those of the configuration
  reader do.
\<close>

definition verified_reader :: "('f \<Rightarrow> ServerConfig list res) \<Rightarrow> bool" where
  "verified_reader reader \<longleftrightarrow>
    (\<forall>f cfgs. reader f = Ok cfgs \<longrightarrow> VerifyConfigs cfgs = None \<and> distinct (map ServerConfig_ID cfgs))"

lemma verified_readerD:
  assumes "verified_reader reader" and "reader f = Ok cfgs"
  shows "VerifyConfigs cfgs = None" and "distinct (map ServerConfig_ID cfgs)"
  using assms by (simp_all add: verified_reader_def)

text \<open>The program's reader is one, as the files of a directory have different paths.\<close>

lemma file_reader_verified:
  assumes "\<And>f. distinct (map we_path (en_Walk env path f))"
  shows "verified_reader (backendConfigFileReader_Read env (NewBackendConfigFileReader path VerifyConfigs))"
  unfolding verified_reader_def
proof (intro allI impI conjI)
  fix f cfgs assume "backendConfigFileReader_Read env (NewBackendConfigFileReader path VerifyConfigs) f = Ok cfgs"
  note read = config_reader_Ok [OF this]
  from read show "VerifyConfigs cfgs = None" ..
  have "distinct (map we_path (filter is_server_file (en_Walk env path f)))"
    using assms [of f] by (simp add: distinct_map_filter)
  with read show "distinct (map ServerConfig_ID cfgs)" by (simp add: ServerConfig_ID_def [abs_def])
qed

text \<open>The files of the second list that are also files of the first have not changed.\<close>

definition unchanged :: "ServerConfig list \<Rightarrow> ServerConfig list \<Rightarrow> bool" where
  "unchanged cfgs cfgs' \<longleftrightarrow>
    (\<forall>c \<in> set cfgs. \<forall>c' \<in> set cfgs'. ServerConfig_ID c = ServerConfig_ID c' \<longrightarrow> c = c')"

abbreviation api_with ::
  "('b, 's, 'f, 'w) api \<Rightarrow> (('b, 's, 'f, 'w) BackendManager \<Rightarrow> ('b, 's, 'f, 'w) BackendManager) \<Rightarrow> ('b, 's, 'f, 'w) api" where
  "api_with a g \<equiv> a\<lparr>ap_backendManager := g (ap_backendManager a)\<rparr>"

text \<open>
  The states of the API, with the number of workers and the configurations that were read last with
  success: it is started, files are edited, backends work, requests are answered with success after
  some files were added or removed, or with anything else.
\<close>

inductive serving ::
  "backend_env \<Rightarrow> (string \<Rightarrow> string) \<Rightarrow> 'f os_env \<Rightarrow> nat \<Rightarrow> ServerConfig list \<Rightarrow>
    (nat, worker_world server, 'f, worker_world) api \<Rightarrow> bool"
  for benv :: backend_env and uni :: "string \<Rightarrow> string" and env :: "'f os_env" where
  started: "WorkerProxy_Start benv uni env v (p :: (listener, 'f) WorkerProxy) f w = (Ok r, f') \<Longrightarrow> uv_call (wp_uvReader p) f = (r1, f1) \<Longrightarrow>
    uv_call (wp_uvReader p) f1 = (again, f2) \<Longrightarrow> verified_reader (wp_cfgReader p) \<Longrightarrow>
    wp_cfgReader p f2 = Ok cfgs \<Longrightarrow> serving benv uni env (worker_count again) cfgs (rm_API r)"
| edited: "serving benv uni env n cfgs a \<Longrightarrow> serving benv uni env n cfgs (api_with a (bm_files_update (\<lambda>_. g)))"
| worked: "serving benv uni env n cfgs a \<Longrightarrow>
    serving benv uni env n cfgs (api_with a (bm_world_update (BackendWorker_send benv ev h)))"
| reloaded: "serving benv uni env n cfgs a \<Longrightarrow> verified_reader reader \<Longrightarrow>
    reader (bm_files (ap_backendManager a)) = Ok cfgs' \<Longrightarrow> unchanged cfgs cfgs' \<Longrightarrow>
    set (vi_old v) = dom (bm_cfgs (ap_backendManager a)) \<Longrightarrow> set (vi_new v) = ServerConfig_ID ` set cfgs' \<Longrightarrow>
    api_request msg (BackendManager_Update (worker_ops benv) uni env v reader) ''/reload'' a = (Ok resp, a') \<Longrightarrow>
    ht_status resp = 200 \<Longrightarrow> serving benv uni env n cfgs' a'"
| rejected: "serving benv uni env n cfgs a \<Longrightarrow>
    api_request msg (BackendManager_Update (worker_ops benv) uni env v reader) path a = (Ok resp, a') \<Longrightarrow>
    ht_status resp \<noteq> 200 \<Longrightarrow> serving benv uni env n cfgs a'"

lemma serves_cfgs_simps [simp]:
  "serves_cfgs benv cfgs n (m\<lparr>bm_files := f\<rparr>) \<longleftrightarrow> serves_cfgs benv cfgs n m"
  "serves_cfgs benv cfgs n (bm_world_update g m) \<longleftrightarrow> serves_cfgs benv cfgs n m"
  by (simp_all add: serves_cfgs_def) (simp add: routed_def cong: option.case_cong)

lemma unchanged_stored:
  "unchanged cfgs cfgs' \<Longrightarrow> \<forall>cfg \<in> set cfgs'. \<forall>c. cfgs_by_id cfgs (ServerConfig_ID cfg) = Some c \<longrightarrow> c = cfg"
  by (auto simp: unchanged_def dest!: cfgs_by_id_Some)

lemma api_request_200:
  assumes "api_request text update path a = (Ok resp, a')" and "ht_status resp = 200"
  obtains m where "update (ap_backendManager a) = (Ok (), m)" and "a' = a\<lparr>ap_backendManager := m\<rparr>"
proof -
  from assms have "path = ''/reload''" by (auto simp: api_request_def http_Error_def split: if_splits)
  with assms that show thesis by (auto simp: api_request_reload http_Error_def split: prod.splits res.splits)
qed

lemma api_request_not_200:
  assumes "api_request text update path a = (Ok resp, a')" and "ht_status resp \<noteq> 200"
  shows "a' = a \<or> (\<exists>e m. update (ap_backendManager a) = (Err e, m) \<and> a' = a\<lparr>ap_backendManager := m\<rparr>)"
proof (cases "path = ''/reload''")
  case True
  with assms show ?thesis by (auto simp: api_request_reload split: prod.splits res.splits)
qed (use assms in \<open>simp add: api_request_def\<close>)

lemma serving_serves: "serving benv uni env n cfgs a \<Longrightarrow> serves_cfgs benv cfgs n (ap_backendManager a)"
proof (induction rule: serving.induct)
  case (started v p f w r ff r1 f1 again f2 cfgs)
  from started(1-3) have "NewBackendManager (worker_ops benv) uni env v (wp_cfgReader p)
      (snd (workerManager_Start uni again NewWorkerManager)) f2 w = (Ok (), started_manager r)"
    by (auto simp: Start_Ok_iff)
  from NewBackendManager_serves [OF this started(5)] verified_readerD [OF started(4,5)] show ?case by blast
next
  case (reloaded n cfgs a reader cfgs1 v msg resp a1)
  let ?m = "ap_backendManager a"
  from reloaded(9) have s: "routed (worker_ops benv) ?m" "bm_cfgs ?m = cfgs_by_id cfgs" "all_managed ?m n"
    by (simp_all add: serves_cfgs_def)
  from api_request_200 [OF reloaded(7,8)] obtain m where
    u: "BackendManager_Update (worker_ops benv) uni env v reader ?m = (Ok (), m)"
    and a1: "a1 = a\<lparr>ap_backendManager := m\<rparr>" .
  note ok = verified_readerD [OF reloaded(2,3)]
  have "\<forall>cfg \<in> set cfgs1. \<forall>c. bm_cfgs ?m (ServerConfig_ID cfg) = Some c \<longrightarrow> c = cfg"
    unfolding s(2) using reloaded(4) by (rule unchanged_stored)
  with reload_Ok_routes [OF s(1) _ ok, of reader v uni env m] reloaded(3,5,6) u ok(2) Update_managed [OF u s(3)]
  show ?case by (simp add: serves_cfgs_def a1)
next
  case (rejected n cfgs a msg v reader path resp a1)
  from api_request_not_200 [OF rejected(2,3)] rejected(4) show ?case
    by (auto dest!: Update_Err)
qed simp_all

text \<open>What a worker finds: exactly the domains of the configurations, lower or upper case.\<close>

lemma serves_cfgs_finds:
  assumes "serves_cfgs benv cfgs n m" and "bw \<in> set (wm_workers (bm_workerManager m))"
  shows "case catalog_Find uni (catalog_at (wm_domains (bm_workerManager m)) (wk_serverDict bw)) addr of
      Ok server \<Rightarrow> \<exists>cfg \<in> set cfgs. ToLower uni addr \<in> set (sf_Domains cfg) \<and>
        (\<exists>h. bm_backends m (ServerConfig_ID cfg) = Some h \<and> server = BackendWorker_Server benv h)
    | Err e \<Rightarrow> e = ErrNoServerFound \<and> (\<forall>cfg \<in> set cfgs. ToLower uni addr \<notin> set (sf_Domains cfg))
    | Panic \<Rightarrow> False"
proof -
  have c: "catalog_at (wm_domains (bm_workerManager m)) (wk_serverDict bw) = wm_domains (bm_workerManager m)"
    using assms by (auto simp: serves_cfgs_def all_managed_def)
  show ?thesis
  proof (cases "\<exists>cfg \<in> set cfgs. ToLower uni addr \<in> set (sf_Domains cfg)")
    case True
    then obtain cfg where cfg: "cfg \<in> set cfgs" "ToLower uni addr \<in> set (sf_Domains cfg)" ..
    from serves_cfgs_domain [OF assms(1) cfg] obtain h where
      "bm_backends m (ServerConfig_ID cfg) = Some h" "served m (ToLower uni addr) = Some (BackendWorker_Server benv h)" .
    with cfg show ?thesis unfolding c by (auto simp: catalog_Find_def)
  next
    case False
    with serves_cfgs_unknown [OF assms(1)] show ?thesis unfolding c by (simp add: catalog_Find_def)
  qed
qed

text \<open>
  C29: Whatever reloads have added and removed configurations since the start, whichever requests
  failed or were refused, and whatever the backends did in between: the number of workers that was
  configured at the start is registered, and each finds for an address exactly the backend of the
  configuration, among those read last, that has the domain, and no server when none has it.
\<close>

theorem reloads_serve:
  assumes "serving benv uni env n cfgs a"
  defines "m \<equiv> ap_backendManager a"
  shows "length (wm_workers (bm_workerManager m)) = n \<and>
    (\<forall>bw \<in> set (wm_workers (bm_workerManager m)). \<forall>addr.
      case catalog_Find uni (catalog_at (wm_domains (bm_workerManager m)) (wk_serverDict bw)) addr of
        Ok server \<Rightarrow> \<exists>cfg \<in> set cfgs. ToLower uni addr \<in> set (sf_Domains cfg) \<and>
          (\<exists>h. bm_backends m (ServerConfig_ID cfg) = Some h \<and> server = BackendWorker_Server benv h)
      | Err e \<Rightarrow> e = ErrNoServerFound \<and> (\<forall>cfg \<in> set cfgs. ToLower uni addr \<notin> set (sf_Domains cfg))
      | Panic \<Rightarrow> False)"
proof -
  from serving_serves [OF assms(1)] have s: "serves_cfgs benv cfgs n m" by (simp add: m_def)
  then have "length (wm_workers (bm_workerManager m)) = n" by (simp add: serves_cfgs_def all_managed_def)
  with serves_cfgs_finds [OF s] show ?thesis by blast
qed

theorem reloads_serve_witness:
  "\<exists>a h. serving plain_backend_env (\<lambda>s. s) plain_env 10 [sample_cfg ''a'' [''x''], sample_cfg ''b'' [''y'']] a \<and>
    (\<exists>bw \<in> set (wm_workers (bm_workerManager (ap_backendManager a))).
      catalog_Find (\<lambda>s. s) (catalog_at (wm_domains (bm_workerManager (ap_backendManager a))) (wk_serverDict bw)) ''Y'' =
        Ok (BackendWorker_Server plain_backend_env h))"
proof -
  let ?A = "sample_cfg ''a'' [''x'']" and ?B = "sample_cfg ''b'' [''y'']" and ?uni = "\<lambda>s :: string. s"
  let ?p = "NewWorkerProxy (NewUVReader DefaultUltravioletConfig) (TcpListener ''s'') (\<lambda>f :: string \<rightharpoonup> byte list. Ok [?A])"
  let ?v = "\<lparr>vi_old = [''a''], vi_new = [''a'', ''b''], vi_domains = sf_Domains\<rparr>"
  have ids: "ServerConfig_ID ?A = ''a''" "ServerConfig_ID ?B = ''b''" by simp_all
  have v: "VerifyConfigs [?A] = None" "VerifyConfigs [?A, ?B] = None"
    by (simp_all add: VerifyConfigs_None config_ok_def sample_cfg_def)
  have rd: "verified_reader (\<lambda>f. Ok [?A])" "verified_reader (\<lambda>f. Ok [?A, ?B])"
    using v by (simp_all add: verified_reader_def)
  obtain r f' where start: "WorkerProxy_Start plain_backend_env ?uni plain_env ?v ?p Map.empty empty_world = (Ok r, f')"
    "serves_cfgs plain_backend_env [?A] 10 (started_manager r)"
    using Start_total [of ?p Map.empty DefaultUltravioletConfig "[?A]" ?uni plain_env plain_backend_env ?v empty_world] v
    by (auto simp: DefaultUltravioletConfig_def NewWorkerProxy_def NewUVReader_def)
  have s0: "serving plain_backend_env ?uni plain_env 10 [?A] (rm_API r)"
    using started [OF start(1), of "Ok DefaultUltravioletConfig" Map.empty "Ok DefaultUltravioletConfig" Map.empty "[?A]"] rd
    by (simp add: uv_call_def NewWorkerProxy_def NewUVReader_def DefaultUltravioletConfig_def)
  let ?update = "BackendManager_Update (worker_ops plain_backend_env) ?uni plain_env ?v (\<lambda>f. Ok [?A, ?B])"
  have m: "routed (worker_ops plain_backend_env) (started_manager r)" "bm_cfgs (started_manager r) = [''a'' \<mapsto> ?A]"
    using start(2) by (simp_all add: serves_cfgs_def cfgs_by_id_def)
  have "\<exists>m'. ?update (started_manager r) = (Ok (), m') \<and> routed (worker_ops plain_backend_env) m' \<and>
      bm_cfgs m' = cfgs_by_id [?A, ?B]"
    by (rule reload_total) (simp_all add: m v)
  then obtain m' where u: "?update (started_manager r) = (Ok (), m')" by blast
  let ?a = "(rm_API r)\<lparr>ap_backendManager := m'\<rparr>"
  have s1: "serving plain_backend_env ?uni plain_env 10 [?A, ?B] ?a"
    by (rule reloaded [OF s0 rd(2), where v = ?v and msg = "\<lambda>e. []"])
      (auto simp: unchanged_def m(2) api_request_reload u)
  from reloads_serve [OF s1] obtain bw where bw: "bw \<in> set (wm_workers (bm_workerManager m'))"
    by (cases "wm_workers (bm_workerManager m')") auto
  have "ToLower ?uni ''Y'' = ''y''" by code_simp
  moreover have "case catalog_Find ?uni (catalog_at (wm_domains (bm_workerManager m')) (wk_serverDict bw)) ''Y'' of
        Ok server \<Rightarrow> \<exists>h. server = BackendWorker_Server plain_backend_env h
      | Err e \<Rightarrow> ToLower ?uni ''Y'' \<notin> {''x'', ''y''}
      | Panic \<Rightarrow> False"
    using reloads_serve [OF s1, THEN conjunct2, rule_format, of bw "''Y''"] bw
    by (cases "catalog_Find ?uni (catalog_at (wm_domains (bm_workerManager m')) (wk_serverDict bw)) ''Y''")
      (auto simp: sample_cfg_def)
  ultimately obtain h where
    "catalog_Find ?uni (catalog_at (wm_domains (bm_workerManager m')) (wk_serverDict bw)) ''Y'' =
      Ok (BackendWorker_Server plain_backend_env h)"
    by (auto split: res.splits)
  with s1 bw show ?thesis by (intro exI [of _ ?a] exI [of _ h]) auto
qed

end
