(* ===== verification/UV_Strings.thy ===== *)
theory UV_Strings
  imports UV_Prelude
begin

text \<open>
  The \<open>String\<close> methods of the enumerations, generated by stringer (serverstate_string.go,
  handshakestate_string.go, backendaction_string.go, proxyaction_string.go): a slice of the joined names
  between two entries of a table of offsets, or the number for a value outside the table.
\<close>

definition enum_String :: "string \<Rightarrow> nat list \<Rightarrow> string \<Rightarrow> int \<Rightarrow> string" where
  "enum_String name offsets tname i =
    (if i < 0 \<or> int (length offsets) - 1 \<le> i then tname @ ''('' @ show_int i @ '')''
     else take (offsets ! Suc (nat i) - offsets ! nat i) (drop (offsets ! nat i) name))"

definition ServerState_String :: "byte \<Rightarrow> string" where
  "ServerState_String i = enum_String ''UnknownOnlineOffline'' [0, 7, 13, 20] ''ServerState'' (uint i)"

definition HandshakeState_String :: "byte \<Rightarrow> string" where
  "HandshakeState_String i = enum_String ''UnknownStateStatusLogin'' [0, 12, 18, 23] ''HandshakeState'' (uint i)"

definition BackendAction_String :: "byte \<Rightarrow> string" where
  "BackendAction_String i =
    enum_String ''ErrorProxyDisconnectSendStatusClose'' [0, 5, 10, 20, 30, 35] ''BackendAction'' (uint i)"

definition ProxyAction_String :: "byte \<Rightarrow> string" where
  "ProxyAction_String i = enum_String ''ProxyOpenProxyClose'' [0, 9, 19] ''ProxyAction'' (sint i)"

text \<open>The tables are right: every constant has its name.\<close>

lemma enum_names:
  "map ServerState_String [0, 1, 2] = [''Unknown'', ''Online'', ''Offline'']"
  "map HandshakeState_String [0, 1, 2] = [''UnknownState'', ''Status'', ''Login'']"
  "map BackendAction_String [0, 1, 2, 3, 4] = [''Error'', ''Proxy'', ''Disconnect'', ''SendStatus'', ''Close'']"
  "map ProxyAction_String [0, 1] = [''ProxyOpen'', ''ProxyClose'']"
  by (simp_all add: ServerState_String_def HandshakeState_String_def BackendAction_String_def
      ProxyAction_String_def enum_String_def)

lemma ServerState_String_other: "2 < uint i \<Longrightarrow> ServerState_String i = ''ServerState('' @ show_int (uint i) @ '')''"
  by (simp add: ServerState_String_def enum_String_def)

end
