(* ===== verification/Spec2Isabelle.thy ===== *)
theory Spec2Isabelle
  imports Wrk_Life UV_Strings
begin

text \<open>
  \<^bold>\<open>A verification library for Ultraviolet\<close>

  Ultraviolet is a reverse proxy for Minecraft servers, written in Go. Clients connect and send a
  handshake with the address they want; the proxy looks the address up among the domains of its
  configurations and answers a status request itself, refuses the client, or copies bytes between the
  client and a backend server. The repository holds three ways to do this, which share packages: the
  worker mode (worker/), the default; the speedy proxy (basic.go, server.go, proxy.go), chosen by the
  setting \<open>UseLessStableMode\<close>; and a second, experimental implementation (src/), which also serves Bedrock
  clients over UDP. All are started by the command line (cmd/). Paths are those under src/ of this
  development; the experimental implementation is therefore src/src/.

  \<^bold>\<open>How Go is read\<close> (UV_Prelude)

  Fixed-width integers are words: an \<open>int\<close> has 64 bits, a VarInt of mc/type.go 32, a byte 8. Strings are
  lists of characters, which are bytes. A call that may fail returns a \<open>res\<close>: a value, an error, or a panic,
  which ends the process as nothing recovers it (except in the handlers of net/http). Functions that
  return a value together with an error return a pair inside \<open>res\<close>. State is passed explicitly: a reader,
  a connection, a store of servers, a network. Time is a parameter in nanoseconds, and \<open>time.Since\<close>
  saturates as in Go. Maps of Go are maps; where the program ranges over a map, the order is a parameter of
  the definition (\<open>visit\<close> in Wrk_Manager), so that properties hold for every order. Goroutines are
  inductive step relations whose steps interleave. The functions of the standard library that the program
  relies on (\<open>strings\<close>, \<open>strconv.Atoi\<close>, \<open>io.ReadFull\<close>, \<open>bufio\<close>, \<open>bytes.Buffer\<close>, the encoder of
  encoding/json for the one type that is marshalled, \<open>flag\<close>) are written out; the operating
  system, JSON decoding, x509, ECDSA, proxyproto, tableflip and HTTP are parameters.

  \<^bold>\<open>Theories\<close>, in the order in which they build on each other

  \<^item> UV_Prelude: words, results, strings, \<open>strings.Split\<close>, printing of numbers, durations.
  \<^item> Mc_Io: flat byte streams, sockets that deliver segments, buffered readers; the locale
    \<open>decode_reader\<close> states what a decoder relies on (the source's interface \<open>DecodeReader\<close>), and is interpreted
    for streams and for buffered readers over sockets.
  \<^item> Mc_Type (mc/type.go): encoders and decoders of the protocol's types. Decoders commute with the
    abstraction of a reader to its stream, so every result on streams holds for sockets.
  \<^item> Mc_Packet (mc/packet.go, mc/conn.go): packets, their framing, \<open>McConn\<close>.
  \<^item> Mc_Login (mc/packet_login.go): handshakes, their decoders, RealIP and Forge addresses, login.
  \<^item> Mc_Status (mc/packet_status.go): status answers as JSON text, pings.
  \<^item> Core_Server (core/): requests, actions, the interface \<open>Server\<close> as a record of functions on a shared
    world, the server catalog.
  \<^item> Mod_Limiter (module/conn_limiter.go): the absolute limiter and the bot filter.
  \<^item> Mod_Probe (module/): connection creators, handshake modifiers, state agents, the status cache.
  \<^item> Cfg_Types, Cfg_File (config/): configurations, their verification, files and conversions.
  \<^item> UV_Basic (basic.go): reading a request, answering it, and the proxied session as two
    interleaving pipes.
  \<^item> UV_Server (server.go, proxy.go): the API server, the catalog built from configurations, the accept
    loop with its semaphore.
  \<^item> UV_Speedy (proxy.go): the speedy proxy as an object, its start and its handlers.
  \<^item> Wrk_Backend (worker/backend.go, worker/type.go): the backend worker, its event loop and the server
    in front of it.
  \<^item> Wrk_Worker (worker/worker.go): the connection workers and the sessions they start.
  \<^item> Wrk_Manager (worker/worker_manager.go, worker/backend_manager.go): both managers. The operations of a
    backend are the fields of \<open>backend_ops\<close> (the source's interface \<open>Backend\<close> and its factory); the locale
    \<open>backends\<close> states their laws, and is interpreted on the backend workers.
  \<^item> Wrk_Routing: what reloads do to the routing table, and where they go wrong.
  \<^item> Wrk_Api (worker/api.go): the API over HTTP.
  \<^item> Wrk_Run (worker/run.go): starting the worker mode, the listeners and workers around the channel.
  \<^item> V2_Packet, V2_Config, V2_Java, V2_Bedrock (src/type.go, src/packet.go, src/config.go,
    src/server.go): the experimental implementation.
  \<^item> Cmd_Main (cmd/main.go, core/proxy.go): the command line.
  \<^item> Wrk_Life: the life of the worker mode from its start through requests to the API, and what the
    workers find meanwhile.
  \<^item> UV_Strings: the generated \<open>String\<close> methods.

  Definitions have the names of the source, with the receiver in front where a method's name is not unique
  (\<open>BackendManager_Update\<close>), and the prefix v2 where the experimental implementation has a function of the
  same name as the first.
\<close>

text \<open>
  \<^bold>\<open>How the parts interact\<close>

  In the worker mode, \<open>WorkerProxy_Start\<close> starts the workers through the worker manager, which hands each the
  shared catalog, and the backend manager, which reads and verifies the configurations (Cfg_File), starts a
  backend worker for each and registers its domains with the worker manager. Listeners send accepted
  connections to a channel of 50 places (\<open>run_step\<close>); a worker takes one, reads the request (Mc_Packet,
  Mc_Login), finds the server in the catalog (Core_Server), asks the backend worker (Wrk_Backend), which
  consults its limiter, state agent, status cache and handshake modifier (Mod_Limiter, Mod_Probe), and
  carries out the answer (\<open>ProcessAnswer\<close>), possibly as a session whose opening and end are reported to the
  backend worker. The command reload makes the API call \<open>BackendManager_Update\<close>, which adds, removes and
  updates backends; the relation \<open>serving\<close> of Wrk_Life follows the manager through such requests. In the
  speedy proxy a handler does all of this itself (\<open>FullRun\<close>). The last section of this theory joins the
  command line, the readers of the configurations and the two proxies.

  \<^bold>\<open>What the lemmas show\<close>

  \<^item> Encodings: VarInts, strings, packets, handshakes and status answers are read back as they were
    written, in whatever segments they arrive; the complete error behaviour of the packet readers; which
    inputs panic; the two handshake decoders agree; the two implementations write the same bytes.
  \<^item> Filters: how many connections the absolute limiter lets pass in a window; whom the bot filter
    lets pass and whom it blocks, over all traces of requests.
  \<^item> Caches: after a probe or a refresh, polls inside the cooldown do not dial.
  \<^item> Configurations: what verification accepts, which files are read, which domains a catalog serves.
  \<^item> Sessions: each side of a proxied session has received exactly a prefix of what the other has sent,
    a session ends, and then both connections are closed; the same for the worker mode, with the messages
    that count players, and for the experimental implementation.
  \<^item> Managers: the running backends are the stored ones, the catalog serves the known domains, a reload
    comes to the routing table of the new configurations, also after any number of reloads through the
    API; the exact cases in which it does not.
  \<^item> Loops: the semaphore bounds the handlers; no connection between listeners and workers is lost;
    the experimental accept loop serves everyone it can.
  \<^item> Bedrock: pings are answered with the server's status; the state of the sockets and the buffers
    shared by goroutines.

  Properties are the theorems after a text with a number; each has a witness, a closed instance with
  concrete data, where it has hypotheses. Several properties describe behaviour that is not intended, for
  instance that a removed configuration can crash the proxy; they are listed as findings.

  \<^bold>\<open>Bounds and fuel\<close>

  \<open>read_at_least\<close> in Mc_Io counts the reads of \<open>io.ReadFull\<close>: one unit more than the bytes wanted is
  enough for every reader whose successful reads return a byte (shown in the locale). All other loops are
  recursive functions with termination proofs: over the unread bytes (VarInts of both implementations), the
  rest of a string, or the list a loop ranges over. A loop that may not end is a partial function in the
  option monad (\<open>v2_VarInt_bytes\<close>), with a theorem that says for which arguments it ends. Sizes are those of
  the source: five bytes for a VarInt, 4096 bytes for a buffered reader, 65535 for a chunk of a pipe, 2048 for a datagram, 50 waiting connections, 100000 handlers. Hypotheses
  on lengths (below 2 to the 31, or to the 48) say that a length fits the word it is written in or can be
  allocated.
\<close>

text \<open>
  \<^bold>\<open>Not modelled\<close>

  \<^item> Logging, the contents of the Prometheus endpoint, the histogram of requests (the gauge of players is
    modelled), and the text of errors that nothing compares.
  \<^item> The contents of JSON files: decoders are parameters; the theorems on configurations hold for
    whatever they return. Characters that are not ASCII are lowered by a parameter and are out of scope
    of the JSON theorem.
  \<^item> Data races: a step of a goroutine between two operations on shared state is atomic. The places
    where the source has a race that matters are modelled as interleavings of larger steps (the buffer of a
    Bedrock server) or named as findings (the map of sockets).
  \<^item> Blocking reads: a connection is given by what it will deliver, so a client that never sends is one
    whose session does not take its next step.
  \<^item> Memory: allocation fails only for negative lengths and beyond 2 to the 48 bytes.
  \<^item> \<open>Proxy_IOCopy\<close> (worker/worker.go), \<open>JavaStatus\<close> (src/config.go) and other declarations that nothing
    uses; the interfaces and channel fields that have no state of their own; signals, which the upgrader
    library handles; cmd/Ultraviolet/main.go, which only calls \<open>Main\<close>.
\<close>

section \<open>The program as a whole\<close>

lemma uv_call_file:
  assumes "ReadUltravioletConfig env dir f = (Ok (cfg, None), f)"
  shows "NewUVConfigFileReader env dir f = (Ok (cfg, None), f)"
    and "uv_call (NewUVConfigFileReader env dir) f = (Ok cfg, f)"
  using assms by (simp_all add: uv_call_def NewUVConfigFileReader_def uvConfigFileReader_Read_def)

lemma RunProxy_listening:
  assumes "ReadUltravioletConfig (ce_os env) dir f = (Ok (cfg, None), f)"
    and "\<not> uc_UseTableflip cfg \<or> ce_windows env \<or> ce_version env = ''docker''"
    and "ce_Listen env (uc_ListenTo cfg) f = Ok ()"
  shows "\<exists>l. runProxy env wp sp dir f =
    (case pr_Start ((if uc_UseLessStableMode cfg then sp else wp) (NewUVConfigFileReader (ce_os env) dir) l
        (backendConfigFileReader_Read (ce_os env) (NewBackendConfigFileReader dir VerifyConfigs))) f of
      (Some (Ok _), f3) \<Rightarrow> (CmdBlocks, f3)
    | (Some (Err e), f3) \<Rightarrow> (CmdReturns (Some e), f3)
    | (Some Panic, f3) \<Rightarrow> (CmdPanics, f3)
    | (None, f3) \<Rightarrow> (CmdBlocks, f3))"
proof -
  have "\<exists>l. createListener env (en_Join (ce_os env) dir pidFileName) cfg True f = (Some (Ok l), f)"
    using assms(3) by (simp add: createListener_def)
  then obtain l where l: "createListener env (en_Join (ce_os env) dir pidFileName) cfg True f = (Some (Ok l), f)" ..
  have hot: "(\<not> uc_UseTableflip cfg \<or> ce_windows env \<or> ce_version env = ''docker'') = True"
    using assms(2) by simp
  show ?thesis
    by (intro exI [of _ l]) (simp add: runProxy_def RunProxy_def Let_def uv_call_file(1) [OF assms(1)] l hot
        del: de_Morgan_disj disj_not1 split: prod.split option.split res.split)
qed

lemma worker_Start_rejected:
  assumes "uv_call (wp_uvReader p) f = (Ok cfg, f)" and "wp_cfgReader p f = Err e"
  shows "WorkerProxy_Start benv uni env v p f w = (Err e, f)"
  using assms
  by (simp add: WorkerProxy_Start_def workerManager_Start_def NewBackendManager_def BackendManager_Update_def)


text \<open>An environment whose main configuration chooses the less stable mode, without backends.\<close>

definition less_stable_env :: "(string \<rightharpoonup> byte list) cmd_env" where
  "less_stable_env = (example_cmd_env (Err ErrEOF))\<lparr>ce_v2 := plain_v2_env\<lparr>v2_os := plain_env
    \<lparr>en_Walk := \<lambda>p f. [], en_unmarshal_uv := \<lambda>bb cfg.
      (cfg\<lparr>uc_UseTableflip := False, uc_UseLessStableMode := True\<rparr>, Ok ())\<rparr>\<rparr>\<rparr>"


text \<open>
  The start of the speedy proxy does not return while it serves. With tableflip the new process is
  then never reported as ready, whatever that call would do.
\<close>

theorem speedy_never_ready:
  assumes "ReadUltravioletConfig (ce_os env) dir f = (Ok (cfg, None), f)" and "uc_UseLessStableMode cfg"
  shows "runProxy (env\<lparr>ce_Ready := ready\<rparr>) wp (speedy_proxy uni env False) dir f =
    runProxy env wp (speedy_proxy uni env False) dir f"
proof -
  have start: "fst (pr_Start (speedy_proxy uni env False r l c) g) \<in> {None, Some Panic}" for r l c g
    by (auto simp: speedy_proxy_def SpeedyProxy_Start_def split: prod.splits res.splits)
  have listener: "createListener (env\<lparr>ce_Ready := ready\<rparr>) p c hot g = createListener env p c hot g" for p c hot g
  proof -
    have "tableflipListener (env\<lparr>ce_Ready := ready\<rparr>) c g = tableflipListener env c g" for c g
      by (simp add: tableflipListener_def split: prod.split res.split)
    moreover have "write_pid (env\<lparr>ce_Ready := ready\<rparr>) pid g = write_pid env pid g" for pid g
      by (simp add: write_pid_def)
    ultimately show ?thesis by (simp add: createListener_def Let_def)
  qed
  obtain ln f2 where ln: "createListener env (en_Join (ce_os env) dir pidFileName) cfg
      (\<not> uc_UseTableflip cfg \<or> ce_windows env \<or> ce_version env = ''docker'') f = (ln, f2)" by force
  show ?thesis
  proof (cases "\<exists>l. ln = Some (Ok l)")
    case True
    then obtain l where "ln = Some (Ok l)" ..
    moreover obtain s f3 where "pr_Start (speedy_proxy uni env False (NewUVConfigFileReader (ce_os env) dir) l
        (backendConfigFileReader_Read (ce_os env) (NewBackendConfigFileReader dir VerifyConfigs))) f2 = (s, f3)"
      and "s = None \<or> s = Some Panic"
      using start by (metis insertE prod.collapse singletonD)
    ultimately show ?thesis
      using ln uv_call_file(1) [OF assms(1)] assms(2)
      by (elim disjE; simp add: runProxy_def RunProxy_def Let_def listener del: de_Morgan_disj disj_not1)
  next
    case False
    with ln show ?thesis using uv_call_file(1) [OF assms(1)] assms(2)
      by (auto simp add: runProxy_def RunProxy_def Let_def listener simp del: de_Morgan_disj disj_not1
        split: option.split res.split)
  qed
qed

end
